theory Spec2Isabelle
  imports Main
begin

section \<open>The development-server supervisor of \<^verbatim>\<open>next-dev.ts\<close>\<close>

text \<open>
  The supervisor is a single-threaded, event-driven program over seven module-level
  variables. Its model is a state record holding those variables, the observable effects
  performed so far (in order), the exit status once \<^verbatim>\<open>process.exit\<close> has run, and the
  continuations that are suspended at an \<^verbatim>\<open>await\<close>. Every handler of the source is a
  function from state to state; the results of the external collaborators (configuration
  loading, telemetry, certificate generation, ...) come in with the event that resumes or
  starts the handler.
\<close>

subsection \<open>JavaScript values\<close>

datatype jsval =
    JUndefined
  | JNull
  | JBool bool
  | JNum int
  | JStr string
  | JObj "(string \<times> jsval) list"

text \<open>Truthiness, as \<^verbatim>\<open>if (v)\<close>, \<^verbatim>\<open>v && ...\<close> and \<^verbatim>\<open>v || ...\<close> test it.\<close>

fun truthy :: "jsval \<Rightarrow> bool" where
  "truthy JUndefined = False"
| "truthy JNull = False"
| "truthy (JBool b) = b"
| "truthy (JNum n) = (n \<noteq> 0)"
| "truthy (JStr s) = (s \<noteq> [])"
| "truthy (JObj fs) = True"

text \<open>\<^verbatim>\<open>typeof v === 'object'\<close> holds of objects and of \<^verbatim>\<open>null\<close>.\<close>

fun typeof_object :: "jsval \<Rightarrow> bool" where
  "typeof_object JNull = True"
| "typeof_object (JObj fs) = True"
| "typeof_object v = False"

text \<open>Property access \<^verbatim>\<open>v.k\<close> on a value that passed the object test.\<close>

fun js_get :: "jsval \<Rightarrow> string \<Rightarrow> jsval" where
  "js_get (JObj fs) k = (case map_of fs k of Some v \<Rightarrow> v | None \<Rightarrow> JUndefined)"
| "js_get v k = JUndefined"

text \<open>
  A value of type \<^verbatim>\<open>string | undefined\<close> (or \<^verbatim>\<open>string | null\<close>) is a \<open>string option\<close>;
  it is truthy when it is a non-empty string.
\<close>

fun truthy_str :: "string option \<Rightarrow> bool" where
  "truthy_str None = False"
| "truthy_str (Some s) = (s \<noteq> [])"

datatype error = Error string

subsection \<open>Data\<close>

record next_config =
  distDir :: string
  serverActions :: bool

record certificate =
  key :: string
  cert :: string

text \<open>\<^verbatim>\<open>StartServerOptions\<close>, as \<^verbatim>\<open>devServerOptions\<close> (lines 220-229) fills it.\<close>

record options =
  o_dir :: "string option"
  o_port :: int
  allowRetry :: bool
  isDev :: bool
  hostname :: "string option"
  isExperimentalTestProxy :: bool
  envInfo :: "string list"
  expFeatureInfo :: "string list"
  selfSignedCertificate :: "certificate option"

text \<open>The parsed command line, \<^verbatim>\<open>args\<close>.\<close>

record cli_args =
  arg_help :: bool
  arg_positional :: "string list"
  arg_port :: "int option"
  arg_hostname :: "string option"
  arg_https :: bool
  arg_https_key :: "string option"
  arg_https_cert :: "string option"
  arg_upload_trace :: "string option"
  arg_test_proxy :: bool
  arg_turbo :: bool

text \<open>The argument of \<^verbatim>\<open>eventCliSessionStopped\<close> (lines 72-78).\<close>

record session_stopped =
  cliCommand :: string
  turboFlag :: bool
  durationMilliseconds :: int
  ev_pagesDir :: bool
  ev_appDir :: bool

text \<open>The argument of \<^verbatim>\<open>uploadTrace\<close> (lines 88-94).\<close>

record upload_request =
  up_traceUploadUrl :: string
  up_mode :: string
  up_isTurboSession :: bool
  up_projectDir :: "string option"
  up_distDir :: string

text \<open>The argument of \<^verbatim>\<open>child.kill\<close>: a signal name, or a number.\<close>

datatype kill_arg = KillSignal string | KillNumber int

text \<open>
  The observable effects. A worker handle is the number of the \<^verbatim>\<open>fork\<close> call that made
  it, counted from 0; the promise of a \<^verbatim>\<open>startServer\<close> call is named by the handle that
  call forked. \<open>Rejected\<close> records that the promise of an async function of this file was
  rejected; what its caller or the runtime does with the rejection is not in this file.
\<close>

datatype effect =
    Kill nat kill_arg
  | LoadConfig "string option"
  | TelemetryRecord session_stopped
  | TelemetryFlush "string option"
  | UploadTrace upload_request
  | StdoutWrite string
  | ProcessExit int
  | ConsoleLogHelp
  | PrintMessage string
  | ConsoleError error
  | LogWarn string
  | SetGlobal string string
  | ValidateTurbo options
  | CreateSelfSignedCertificate "string option"
  | Fork nat "string option"
  | Send nat options
  | Resolve nat
  | Preflight bool
  | Rejected error

text \<open>The closure of one \<^verbatim>\<open>startServer\<close> call: its \<^verbatim>\<open>options\<close> and its \<^verbatim>\<open>resolved\<close>.\<close>

record worker =
  w_options :: options
  resolved :: bool

text \<open>
  Where \<^verbatim>\<open>nextDev\<close> is suspended, with the locals its continuation still reads.
\<close>

datatype pc =
    NotStarted
  | AwaitFileExists cli_args
  | AwaitLoadConfig cli_args int bool "string list"
  | AwaitTurbo cli_args options
  | AwaitCertificate options
  | AwaitServerReady nat
  | AwaitPreflight
  | Finished

record session =
  dir :: "string option"
  child :: "nat option"
  config :: "next_config option"
  isTurboSession :: bool
  traceUploadUrl :: "string option"
  sessionStopHandled :: bool
  sessionStarted :: int
  penv :: "(string \<times> string) list"
  workers :: "worker list"
  stopAwaiting :: nat
  nextDevAt :: pc
  effects :: "effect list"
  exited :: "int option"

text \<open>
  The state when the module has been loaded (lines 30-36): \<open>t0\<close> is what \<^verbatim>\<open>Date.now()\<close>
  returned and \<open>env0\<close> is \<^verbatim>\<open>process.env\<close>, later bindings first.
\<close>

definition init_session :: "int \<Rightarrow> (string \<times> string) list \<Rightarrow> session" where
  "init_session t0 env0 =
     \<lparr>dir = None, child = None, config = None, isTurboSession = False,
      traceUploadUrl = None, sessionStopHandled = False, sessionStarted = t0,
      penv = env0, workers = [], stopAwaiting = 0, nextDevAt = NotStarted,
      effects = [], exited = None\<rparr>"

definition emit :: "effect \<Rightarrow> session \<Rightarrow> session" where
  "emit e s = s\<lparr>effects := effects s @ [e]\<rparr>"

text \<open>\<^verbatim>\<open>process.exit(code)\<close>: nothing of the program runs after it.\<close>

definition process_exit :: "int \<Rightarrow> session \<Rightarrow> session" where
  "process_exit code s = (emit (ProcessExit code) s)\<lparr>exited := Some code\<rparr>"

subsection \<open>The Shutdown Coordinator, \<^verbatim>\<open>handleSessionStop\<close> (lines 38-102)\<close>

text \<open>
  What the collaborators do during one run of the coordinator: whether they throw, and what
  they return.
\<close>

record stop_env =
  requireThrows :: bool
  telemetryGlobal :: bool
  telemetryCtorThrows :: bool
  pagesDirGlobal :: "string option"
  appDirGlobal :: "string option"
  findPagesDir :: "error + (string option \<times> string option)"
  recordThrows :: bool
  flushThrows :: bool
  now :: int
  uploadTraceThrows :: bool

definition show_cursor :: string where
  "show_cursor = CHR 0x1B # ''[?25h''"

definition newline :: string where
  "newline = [CHR 0x0A]"

text \<open>\<^verbatim>\<open>(signal as any) || 0\<close> (line 40).\<close>

definition kill_arg_of :: "string option \<Rightarrow> kill_arg" where
  "kill_arg_of signal =
     (case signal of
        None \<Rightarrow> KillNumber 0
      | Some name \<Rightarrow> if name \<noteq> [] then KillSignal name else KillNumber 0)"

text \<open>Lines 39-41.\<close>

definition forward_kill :: "string option \<Rightarrow> session \<Rightarrow> session" where
  "forward_kill signal s =
     (case child s of
        Some h \<Rightarrow> emit (Kill h (kill_arg_of signal)) s
      | None \<Rightarrow> s)"

text \<open>Lines 97-101: the terminal step.\<close>

definition stop_exit :: "session \<Rightarrow> session" where
  "stop_exit s =
     process_exit 0 (emit (StdoutWrite newline) (emit (StdoutWrite show_cursor) s))"

text \<open>
  Lines 87-101, after the \<^verbatim>\<open>try\<close>/\<^verbatim>\<open>catch\<close>. The upload is outside the \<^verbatim>\<open>try\<close>: reading
  \<^verbatim>\<open>config.distDir\<close> of an undefined \<^verbatim>\<open>config\<close>, or a throwing \<^verbatim>\<open>uploadTrace\<close>, rejects
  the promise of \<^verbatim>\<open>handleSessionStop\<close> and the terminal step is not reached.
\<close>

definition stop_upload :: "stop_env \<Rightarrow> session \<Rightarrow> session" where
  "stop_upload env s =
     (case traceUploadUrl s of
        None \<Rightarrow> stop_exit s
      | Some url \<Rightarrow>
          if url = [] then stop_exit s
          else (case config s of
                  None \<Rightarrow> emit (Rejected (Error ''TypeError'')) s
                | Some c \<Rightarrow>
                    if uploadTraceThrows env then emit (Rejected (Error ''uploadTrace'')) s
                    else stop_exit (emit (UploadTrace
                           \<lparr>up_traceUploadUrl = url, up_mode = ''dev'',
                            up_isTurboSession = isTurboSession s,
                            up_projectDir = dir s, up_distDir = distDir c\<rparr>) s)))"

text \<open>Lines 71-81; a throw leaves the \<^verbatim>\<open>try\<close> block with what was done so far.\<close>

definition stop_record :: "stop_env \<Rightarrow> bool \<Rightarrow> bool \<Rightarrow> session \<Rightarrow> session" where
  "stop_record env pagesDir appDir s =
     (if recordThrows env then s
      else let s1 = emit (TelemetryRecord
                      \<lparr>cliCommand = ''dev'', turboFlag = isTurboSession s,
                       durationMilliseconds = now env - sessionStarted s,
                       ev_pagesDir = pagesDir, ev_appDir = appDir\<rparr>) s
           in if flushThrows env then s1 else emit (TelemetryFlush (dir s1)) s1)"

text \<open>
  Lines 51-81, the part of the \<^verbatim>\<open>try\<close> block after \<^verbatim>\<open>config\<close> is there. \<^verbatim>\<open>path.join\<close>
  throws on an undefined \<^verbatim>\<open>dir\<close>.
\<close>

definition stop_telemetry :: "stop_env \<Rightarrow> session \<Rightarrow> session" where
  "stop_telemetry env s =
     (if \<not> telemetryGlobal env \<and> (dir s = None \<or> telemetryCtorThrows env) then s
      else if pagesDirGlobal env = None \<or> appDirGlobal env = None then
        (case findPagesDir env of
           Inl e \<Rightarrow> s
         | Inr (pagesResult, appResult) \<Rightarrow>
             stop_record env (truthy_str pagesResult) (truthy_str appResult) s)
      else stop_record env (truthy_str (pagesDirGlobal env)) (truthy_str (appDirGlobal env)) s)"

text \<open>
  Lines 38-49, up to the \<^verbatim>\<open>await\<close>. When \<^verbatim>\<open>config\<close> is already there, \<^verbatim>\<open>||\<close> does not
  evaluate the \<^verbatim>\<open>await\<close> and the coordinator runs to its end without suspending.
\<close>

definition handleSessionStop :: "stop_env \<Rightarrow> string option \<Rightarrow> session \<Rightarrow> session" where
  "handleSessionStop env signal s =
     (let s1 = forward_kill signal s in
      if sessionStopHandled s1 then s1
      else let s2 = s1\<lparr>sessionStopHandled := True\<rparr> in
        if requireThrows env then stop_upload env s2
        else (case config s2 of
                Some c \<Rightarrow> stop_upload env (stop_telemetry env s2)
              | None \<Rightarrow> (emit (LoadConfig (dir s2)) s2)
                          \<lparr>stopAwaiting := Suc (stopAwaiting s2)\<rparr>))"

text \<open>
  Line 49 onwards, when the promise of \<^verbatim>\<open>loadConfig\<close> settles: a rejection goes to the
  \<^verbatim>\<open>catch\<close>, a value is assigned to \<^verbatim>\<open>config\<close>.
\<close>

definition handleSessionStop_resume ::
  "stop_env \<Rightarrow> error + next_config \<Rightarrow> session \<Rightarrow> session" where
  "handleSessionStop_resume env r s =
     (case r of
        Inl e \<Rightarrow> stop_upload env s
      | Inr c \<Rightarrow> stop_upload env (stop_telemetry env (s\<lparr>config := Some c\<rparr>)))"

subsection \<open>The Process Supervisor, \<^verbatim>\<open>startServer\<close> (lines 248-282)\<close>

text \<open>
  What \<^verbatim>\<open>next-dev.ts\<close> imports and this development does not look into: constants and
  pure helper functions of other modules.
\<close>

record ext =
  RESTART_EXIT_CODE :: int
  getProjectDir :: "string option \<Rightarrow> string"
  getPort :: "cli_args \<Rightarrow> (string \<times> string) list \<Rightarrow> int"
  isPortIsReserved :: "int \<Rightarrow> bool"
  getReservedPortExplanation :: "int \<Rightarrow> string"
  loadEnvConfig ::
    "string option \<Rightarrow> (string \<times> string) list \<Rightarrow> string list \<times> (string \<times> string) list"
  path_join :: "string \<Rightarrow> string \<Rightarrow> string"
  path_resolve :: "string \<Rightarrow> string"

text \<open>The names and texts the source writes as string literals.\<close>

definition PHASE_DEVELOPMENT_SERVER :: string where
  "PHASE_DEVELOPMENT_SERVER = ''phase-development-server''"

definition https_warning :: string where
  "https_warning = ''Self-signed certificates are currently an experimental feature, use at your own risk.''"

definition no_such_directory :: string where
  "no_such_directory = ''> No such directory exists as the project root: ''"

definition env_TURBOPACK :: string where
  "env_TURBOPACK = ''TURBOPACK''"

definition env_PORT :: string where
  "env_PORT = ''PORT''"

definition env_DEV_DIR :: string where
  "env_DEV_DIR = ''NEXT_PRIVATE_DEV_DIR''"

definition env_PREBUNDLED_REACT :: string where
  "env_PREBUNDLED_REACT = ''__NEXT_PRIVATE_PREBUNDLED_REACT''"

definition nextWorkerReady :: string where
  "nextWorkerReady = ''nextWorkerReady''"

definition nextServerReady :: string where
  "nextServerReady = ''nextServerReady''"


text \<open>
  Lines 249-259: a new closure with \<^verbatim>\<open>resolved = false\<close>, and \<^verbatim>\<open>child = fork(...)\<close>. The
  \<^verbatim>\<open>Fork\<close> effect records the \<^verbatim>\<open>TURBOPACK\<close> override of the worker's environment.
\<close>

definition startServer :: "options \<Rightarrow> session \<Rightarrow> session" where
  "startServer opts s =
     (let h = length (workers s) in
      (emit (Fork h (map_of (penv s) env_TURBOPACK)) s)
        \<lparr>child := Some h,
         workers := workers s @ [\<lparr>w_options = opts, resolved = False\<rparr>]\<rparr>)"

text \<open>
  Lines 261-270: the message handler of the closure of handle \<open>h\<close>. \<^verbatim>\<open>child?.send\<close> reads
  the module-level \<^verbatim>\<open>child\<close>; \<^verbatim>\<open>options\<close> and \<^verbatim>\<open>resolved\<close> are the closure's own.
\<close>

definition on_message :: "nat \<Rightarrow> jsval \<Rightarrow> session \<Rightarrow> session" where
  "on_message h msg s =
     (if h < length (workers s) then
        (let w = workers s ! h in
         if truthy msg \<and> typeof_object msg then
           if truthy (js_get msg nextWorkerReady) then
             (case child s of
                Some c \<Rightarrow> emit (Send c (w_options w)) s
              | None \<Rightarrow> s)
           else if truthy (js_get msg nextServerReady) \<and> \<not> resolved w then
             emit (Resolve h) (s\<lparr>workers := (workers s)[h := w\<lparr>resolved := True\<rparr>]\<rparr>)
           else s
         else s)
      else s)"

text \<open>Lines 272-280: the exit handler of the closure of handle \<open>h\<close>.\<close>

definition on_exit ::
  "ext \<Rightarrow> stop_env \<Rightarrow> nat \<Rightarrow> int option \<Rightarrow> string option \<Rightarrow> session \<Rightarrow> session" where
  "on_exit x env h code signal s =
     (if h < length (workers s) then
        if sessionStopHandled s \<or> truthy_str signal then s
        else if code = Some (RESTART_EXIT_CODE x) then startServer (w_options (workers s ! h)) s
        else handleSessionStop env signal s
      else s)"

subsection \<open>The entry point, \<^verbatim>\<open>nextDev\<close> (lines 107-323)\<close>

text \<open>
  Modelled from the spec: \<^verbatim>\<open>printAndExit\<close> of \<^verbatim>\<open>server/lib/utils\<close> is not in the source
  under study. The spec has it terminate the process with a printed message and the given
  status, and status 1 for an invalid project directory (where the call gives no status).
\<close>

definition printAndExit :: "string \<Rightarrow> int \<Rightarrow> session \<Rightarrow> session" where
  "printAndExit message code s = process_exit code (emit (PrintMessage message) s)"

text \<open>Lines 108-131, up to \<^verbatim>\<open>await fileExists\<close>.\<close>

definition nextDev_start :: "ext \<Rightarrow> cli_args \<Rightarrow> session \<Rightarrow> session" where
  "nextDev_start x args s =
     (if arg_help args then process_exit 0 (emit ConsoleLogHelp s)
      else
        (let envDir = map_of (penv s) env_DEV_DIR;
             d = (if truthy_str envDir then envDir
                  else (case arg_positional args of [] \<Rightarrow> None | a # as \<Rightarrow> Some a))
         in s\<lparr>dir := Some (getProjectDir x d), nextDevAt := AwaitFileExists args\<rparr>))"

text \<open>Lines 131-133 and 173-190, up to \<^verbatim>\<open>await loadConfig\<close>.\<close>

definition nextDev_dirChecked :: "ext \<Rightarrow> cli_args \<Rightarrow> bool \<Rightarrow> session \<Rightarrow> session" where
  "nextDev_dirChecked x args exists s =
     (if \<not> exists then
        printAndExit
          (no_such_directory @ (case dir s of Some d \<Rightarrow> d | None \<Rightarrow> ''undefined'')) 1 s
      else
        (let port = getPort x args (penv s) in
         if isPortIsReserved x port then
           printAndExit (getReservedPortExplanation x port) 1 s
         else
           (let allow = (arg_port args = None \<and> map_of (penv s) env_PORT = None);
                (loadedEnvFiles, env') = loadEnvConfig x (dir s) (penv s)
            in (emit (LoadConfig (dir s)) (s\<lparr>penv := env'\<rparr>))
                 \<lparr>nextDevAt := AwaitLoadConfig args port allow loadedEnvFiles\<rparr>)))"

text \<open>Lines 284-311, \<^verbatim>\<open>runDevServer\<close> up to its first \<^verbatim>\<open>await\<close>.\<close>

definition runDevServer :: "ext \<Rightarrow> cli_args \<Rightarrow> options \<Rightarrow> session \<Rightarrow> session" where
  "runDevServer x args opts s =
     (if arg_https args then
        (let s1 = emit (LogWarn https_warning) s in
         if truthy_str (arg_https_key args) \<and> truthy_str (arg_https_cert args) then
           (case (arg_https_key args, arg_https_cert args) of
              (Some k, Some c) \<Rightarrow>
                (startServer
                   (opts\<lparr>selfSignedCertificate :=
                           Some \<lparr>key = path_resolve x k, cert = path_resolve x c\<rparr>\<rparr>) s1)
                  \<lparr>nextDevAt := AwaitServerReady (length (workers s1))\<rparr>
            | _ \<Rightarrow> s1)
         else (emit (CreateSelfSignedCertificate (arg_hostname args)) s1)
                \<lparr>nextDevAt := AwaitCertificate opts\<rparr>)
      else (startServer opts s)\<lparr>nextDevAt := AwaitServerReady (length (workers s))\<rparr>)"

text \<open>
  Lines 243-245 and the call of \<^verbatim>\<open>runDevServer\<close> (lines 320-322). \<^verbatim>\<open>path.join\<close> throws on
  an undefined \<^verbatim>\<open>dir\<close>, and so does reading \<^verbatim>\<open>distDir\<close> of an undefined \<^verbatim>\<open>config\<close>; both are
  outside the \<^verbatim>\<open>try\<close> of \<^verbatim>\<open>runDevServer\<close> and reject \<^verbatim>\<open>nextDev\<close>.
\<close>

definition nextDev_serve :: "ext \<Rightarrow> cli_args \<Rightarrow> options \<Rightarrow> session \<Rightarrow> session" where
  "nextDev_serve x args opts s =
     (case dir s of
        None \<Rightarrow> (emit (Rejected (Error ''TypeError'')) s)\<lparr>nextDevAt := Finished\<rparr>
      | Some d \<Rightarrow>
          (case config s of
             None \<Rightarrow> (emit (Rejected (Error ''TypeError'')) s)\<lparr>nextDevAt := Finished\<rparr>
           | Some c \<Rightarrow>
               runDevServer x args opts
                 (emit (SetGlobal ''distDir'' (path_join x d (distDir c)))
                    (emit (SetGlobal ''phase'' PHASE_DEVELOPMENT_SERVER) s))))"

text \<open>Lines 220-229, with \<^verbatim>\<open>envInfo\<close> of lines 209-212.\<close>

definition devServerOptions ::
  "cli_args \<Rightarrow> string option \<Rightarrow> int \<Rightarrow> bool \<Rightarrow> string list \<Rightarrow> string list \<Rightarrow> options" where
  "devServerOptions args d port allow loadedEnvFiles features =
     \<lparr>o_dir = d, o_port = port, allowRetry = allow, isDev = True,
      hostname = arg_hostname args,
      isExperimentalTestProxy = arg_test_proxy args,
      envInfo = loadedEnvFiles, expFeatureInfo = features,
      selfSignedCertificate = None\<rparr>"

text \<open>
  Lines 190-218: \<^verbatim>\<open>config\<close> is assigned, then \<^verbatim>\<open>process.env.__NEXT_PRIVATE_PREBUNDLED_REACT\<close>,
  then \<^verbatim>\<open>traceUploadUrl\<close> if the flag is there.
\<close>

definition nextDev_assign :: "cli_args \<Rightarrow> next_config \<Rightarrow> session \<Rightarrow> session" where
  "nextDev_assign args c s =
     (let s1 = s\<lparr>config := Some c,
                 penv := (env_PREBUNDLED_REACT,
                           if serverActions c then ''experimental'' else ''next'') # penv s\<rparr>
      in if truthy_str (arg_upload_trace args)
         then s1\<lparr>traceUploadUrl := arg_upload_trace args\<rparr> else s1)"

text \<open>Lines 231-233.\<close>

definition nextDev_turbo :: "cli_args \<Rightarrow> session \<Rightarrow> session" where
  "nextDev_turbo args s =
     (if arg_turbo args then s\<lparr>penv := (env_TURBOPACK, ''1'') # penv s\<rparr> else s)"

text \<open>
  Lines 190-241, when the promise of \<^verbatim>\<open>loadConfig\<close> settles. A rejection rejects
  \<^verbatim>\<open>nextDev\<close> itself. \<open>userExperimental\<close> is what \<^verbatim>\<open>getEnabledExperimentalFeatures\<close> returned
  if \<^verbatim>\<open>onLoadUserConfig\<close> was called; the sort by length is stable.
\<close>

definition nextDev_configLoaded ::
  "ext \<Rightarrow> cli_args \<Rightarrow> int \<Rightarrow> bool \<Rightarrow> string list
     \<Rightarrow> error + (next_config \<times> string list option) \<Rightarrow> session \<Rightarrow> session" where
  "nextDev_configLoaded x args port allow loadedEnvFiles r s =
     (case r of
        Inl e \<Rightarrow> (emit (Rejected e) s)\<lparr>nextDevAt := Finished\<rparr>
      | Inr (c, userExperimental) \<Rightarrow>
          (let features = (case userExperimental of
                             None \<Rightarrow> []
                           | Some fs \<Rightarrow> sort_key length fs);
               opts = devServerOptions args (dir s) port allow loadedEnvFiles features;
               s3 = nextDev_turbo args (nextDev_assign args c s)
           in if truthy_str (map_of (penv s3) env_TURBOPACK) then
                (emit (ValidateTurbo opts) s3)\<lparr>nextDevAt := AwaitTurbo args opts\<rparr>
              else nextDev_serve x args opts s3))"

text \<open>Lines 236-241, when \<^verbatim>\<open>validateTurboNextConfig\<close> settles (outside any \<^verbatim>\<open>try\<close>).\<close>

definition nextDev_turboValidated ::
  "ext \<Rightarrow> cli_args \<Rightarrow> options \<Rightarrow> error option \<Rightarrow> session \<Rightarrow> session" where
  "nextDev_turboValidated x args opts r s =
     (case r of
        Some e \<Rightarrow> (emit (Rejected e) s)\<lparr>nextDevAt := Finished\<rparr>
      | None \<Rightarrow> nextDev_serve x args opts s)"

text \<open>Lines 302-308 and 314-317, when \<^verbatim>\<open>createSelfSignedCertificate\<close> settles.\<close>

definition nextDev_certificate ::
  "options \<Rightarrow> error + certificate option \<Rightarrow> session \<Rightarrow> session" where
  "nextDev_certificate opts r s =
     (case r of
        Inl e \<Rightarrow> process_exit 1 (emit (ConsoleError e) s)
      | Inr c \<Rightarrow> (startServer (opts\<lparr>selfSignedCertificate := c\<rparr>) s)
                   \<lparr>nextDevAt := AwaitServerReady (length (workers s))\<rparr>)"

text \<open>
  Line 313: once the promise that \<^verbatim>\<open>runDevServer\<close> awaits is resolved, \<^verbatim>\<open>preflight(reboot)\<close>
  starts. Its version and dependency warnings (lines 135-171) are not part of the
  supervisor; only whether it throws is kept (lines 314-317).
\<close>

definition nextDev_ready :: "session \<Rightarrow> session" where
  "nextDev_ready s =
     (case nextDevAt s of
        AwaitServerReady h \<Rightarrow>
          if h < length (workers s) \<and> resolved (workers s ! h)
          then (emit (Preflight False) s)\<lparr>nextDevAt := AwaitPreflight\<rparr> else s
      | _ \<Rightarrow> s)"

definition nextDev_preflight :: "error option \<Rightarrow> session \<Rightarrow> session" where
  "nextDev_preflight r s =
     (case r of
        Some e \<Rightarrow> process_exit 1 (emit (ConsoleError e) s)
      | None \<Rightarrow> s\<lparr>nextDevAt := Finished\<rparr>)"

subsection \<open>The event loop\<close>

text \<open>
  One event is one turn of the event loop: the invocation of \<^verbatim>\<open>nextDev\<close>, the settling of
  a promise some continuation awaits, a termination signal (lines 104-105 register
  \<^verbatim>\<open>SIGINT\<close> and \<^verbatim>\<open>SIGTERM\<close>), or a message or exit event of a worker. An event that has no
  continuation or handler waiting for it does nothing, and nothing runs once the process
  has exited.
\<close>

datatype event =
    Invoke cli_args
  | FileExistsSettled bool
  | ConfigSettled "error + (next_config \<times> string list option)"
  | TurboSettled "error option"
  | CertificateSettled "error + certificate option"
  | PreflightSettled "error option"
  | Signal string stop_env
  | StopConfigSettled "error + next_config" stop_env
  | WorkerMessage nat jsval
  | WorkerExit nat "int option" "string option" stop_env

fun handle :: "ext \<Rightarrow> event \<Rightarrow> session \<Rightarrow> session" where
  "handle x (Invoke args) s =
     (case nextDevAt s of NotStarted \<Rightarrow> nextDev_start x args s | _ \<Rightarrow> s)"
| "handle x (FileExistsSettled b) s =
     (case nextDevAt s of AwaitFileExists args \<Rightarrow> nextDev_dirChecked x args b s | _ \<Rightarrow> s)"
| "handle x (ConfigSettled r) s =
     (case nextDevAt s of
        AwaitLoadConfig args port allow files \<Rightarrow> nextDev_configLoaded x args port allow files r s
      | _ \<Rightarrow> s)"
| "handle x (TurboSettled r) s =
     (case nextDevAt s of AwaitTurbo args opts \<Rightarrow> nextDev_turboValidated x args opts r s | _ \<Rightarrow> s)"
| "handle x (CertificateSettled r) s =
     (case nextDevAt s of AwaitCertificate opts \<Rightarrow> nextDev_certificate opts r s | _ \<Rightarrow> s)"
| "handle x (PreflightSettled r) s =
     (case nextDevAt s of AwaitPreflight \<Rightarrow> nextDev_preflight r s | _ \<Rightarrow> s)"
| "handle x (Signal name env) s =
     (if name = ''SIGINT'' \<or> name = ''SIGTERM'' then handleSessionStop env (Some name) s else s)"
| "handle x (StopConfigSettled r env) s =
     (if 0 < stopAwaiting s
      then handleSessionStop_resume env r (s\<lparr>stopAwaiting := stopAwaiting s - 1\<rparr>) else s)"
| "handle x (WorkerMessage h msg) s = nextDev_ready (on_message h msg s)"
| "handle x (WorkerExit h code signal env) s = on_exit x env h code signal s"

definition step :: "ext \<Rightarrow> event \<Rightarrow> session \<Rightarrow> session" where
  "step x e s = (if exited s = None then handle x e s else s)"

fun run :: "ext \<Rightarrow> event list \<Rightarrow> session \<Rightarrow> session" where
  "run x [] s = s"
| "run x (e # es) s = run x es (step x e s)"

subsection \<open>Vocabulary of the properties\<close>

text \<open>Kinds of effects.\<close>

fun is_Kill :: "effect \<Rightarrow> bool" where
  "is_Kill (Kill h a) = True"
| "is_Kill e = False"

fun is_TelemetryRecord :: "effect \<Rightarrow> bool" where
  "is_TelemetryRecord (TelemetryRecord r) = True"
| "is_TelemetryRecord e = False"

fun is_UploadTrace :: "effect \<Rightarrow> bool" where
  "is_UploadTrace (UploadTrace u) = True"
| "is_UploadTrace e = False"

fun is_ProcessExit :: "effect \<Rightarrow> bool" where
  "is_ProcessExit (ProcessExit c) = True"
| "is_ProcessExit e = False"

fun is_Send :: "effect \<Rightarrow> bool" where
  "is_Send (Send h opts) = True"
| "is_Send e = False"

fun is_Fork :: "effect \<Rightarrow> bool" where
  "is_Fork (Fork h t) = True"
| "is_Fork e = False"

fun is_CreateCertificate :: "effect \<Rightarrow> bool" where
  "is_CreateCertificate (CreateSelfSignedCertificate h) = True"
| "is_CreateCertificate e = False"

text \<open>What the user would see of an error: something printed, or a rejected promise.\<close>

fun noise :: "effect \<Rightarrow> bool" where
  "noise ConsoleLogHelp = True"
| "noise (PrintMessage m) = True"
| "noise (ConsoleError e) = True"
| "noise (LogWarn m) = True"
| "noise (Rejected e) = True"
| "noise e = False"

text \<open>The effects that only the coordinator performs, and all those it can perform.\<close>

fun coordinator_only :: "effect \<Rightarrow> bool" where
  "coordinator_only (TelemetryRecord r) = True"
| "coordinator_only (TelemetryFlush d) = True"
| "coordinator_only (UploadTrace u) = True"
| "coordinator_only (StdoutWrite w) = True"
| "coordinator_only e = False"

fun coordinator_effect :: "effect \<Rightarrow> bool" where
  "coordinator_effect (Kill h a) = True"
| "coordinator_effect (LoadConfig d) = True"
| "coordinator_effect (TelemetryRecord r) = True"
| "coordinator_effect (TelemetryFlush d) = True"
| "coordinator_effect (UploadTrace u) = True"
| "coordinator_effect (StdoutWrite w) = True"
| "coordinator_effect (ProcessExit c) = True"
| "coordinator_effect (Rejected e) = True"
| "coordinator_effect e = False"

definition stopped :: "session \<Rightarrow> effect list" where
  "stopped s = filter coordinator_only (effects s)"

text \<open>The effects a handler added: those of \<open>s'\<close> after the ones \<open>s\<close> already has.\<close>

definition added :: "session \<Rightarrow> session \<Rightarrow> effect list" where
  "added s s' = drop (length (effects s)) (effects s')"

definition exit_tail :: "effect list" where
  "exit_tail = [StdoutWrite show_cursor, StdoutWrite newline, ProcessExit 0]"

text \<open>The two messages of the worker, as the handler of lines 261-270 tells them apart.\<close>

definition isWorkerReady :: "jsval \<Rightarrow> bool" where
  "isWorkerReady msg = (truthy msg \<and> typeof_object msg \<and> truthy (js_get msg nextWorkerReady))"

definition isServerReady :: "jsval \<Rightarrow> bool" where
  "isServerReady msg =
     (truthy msg \<and> typeof_object msg \<and> \<not> truthy (js_get msg nextWorkerReady)
      \<and> truthy (js_get msg nextServerReady))"

text \<open>The call of \<^verbatim>\<open>nextDev\<close>.\<close>

fun is_Invoke :: "event \<Rightarrow> bool" where
  "is_Invoke (Invoke args) = True"
| "is_Invoke e = False"

text \<open>The events that can call the coordinator.\<close>

fun is_trigger :: "event \<Rightarrow> bool" where
  "is_trigger (Signal name env) = True"
| "is_trigger (WorkerExit h code signal env) = True"
| "is_trigger e = False"

text \<open>The \<^verbatim>\<open>child.kill\<close> call of one invocation of the coordinator.\<close>

definition kill_trace :: "string option \<Rightarrow> session \<Rightarrow> effect list" where
  "kill_trace signal s =
     (case child s of Some h \<Rightarrow> [Kill h (kill_arg_of signal)] | None \<Rightarrow> [])"

text \<open>
  What one run of the coordinator can add after the kill, from the flag to its end: the
  telemetry part (lines 45-85), then the rest (lines 87-101), which ends in the exit with
  status \<open>ex\<close> or in a rejected promise.
\<close>

definition telemetry_trace :: "effect list \<Rightarrow> bool" where
  "telemetry_trace t =
     (t = [] \<or> (\<exists>r. t = [TelemetryRecord r])
      \<or> (\<exists>r d. t = [TelemetryRecord r, TelemetryFlush d]))"

definition finish_trace :: "int option \<Rightarrow> effect list \<Rightarrow> int option \<Rightarrow> bool" where
  "finish_trace ex0 t ex =
     ((t = exit_tail \<and> ex = Some 0)
      \<or> (\<exists>u. t = UploadTrace u # exit_tail \<and> ex = Some 0)
      \<or> (\<exists>e. t = [Rejected e] \<and> ex = ex0))"

definition stop_run :: "int option \<Rightarrow> effect list \<Rightarrow> int option \<Rightarrow> bool" where
  "stop_run ex0 t ex = (\<exists>t1 t2. t = t1 @ t2 \<and> telemetry_trace t1 \<and> finish_trace ex0 t2 ex)"

text \<open>No collaborator of the coordinator throws.\<close>

definition no_throw :: "stop_env \<Rightarrow> session \<Rightarrow> bool" where
  "no_throw env s =
     (\<not> requireThrows env
      \<and> (telemetryGlobal env \<or> (dir s \<noteq> None \<and> \<not> telemetryCtorThrows env))
      \<and> ((pagesDirGlobal env \<noteq> None \<and> appDirGlobal env \<noteq> None) \<or> \<not> isl (findPagesDir env))
      \<and> \<not> recordThrows env \<and> \<not> flushThrows env \<and> \<not> uploadTraceThrows env)"

text \<open>
  The whole sequence in a list of effects: one telemetry record, one upload if a target
  is configured, the two writes and the exit with status 0.
\<close>

definition performed :: "string option \<Rightarrow> effect list \<Rightarrow> bool" where
  "performed url t =
     (length (filter is_TelemetryRecord t) = 1
      \<and> length (filter is_UploadTrace t) = (if truthy_str url then 1 else 0)
      \<and> count_list t (StdoutWrite show_cursor) = 1
      \<and> count_list t (StdoutWrite newline) = 1
      \<and> count_list t (ProcessExit 0) = 1)"

subsection \<open>Invariants of the event loop\<close>

text \<open>A handler that is not the coordinator leaves the coordinator's state as it is.\<close>

definition same_stop :: "session \<Rightarrow> session \<Rightarrow> bool" where
  "same_stop s s' =
     (sessionStopHandled s' = sessionStopHandled s \<and> stopAwaiting s' = stopAwaiting s
      \<and> stopped s' = stopped s)"

definition exit_count :: "session \<Rightarrow> nat" where
  "exit_count s = length (filter is_ProcessExit (effects s))"

text \<open>A handler either does not exit, or exits once and the process is gone.\<close>

definition exits_once :: "session \<Rightarrow> session \<Rightarrow> bool" where
  "exits_once s s' =
     ((exit_count s' = exit_count s \<and> exited s' = exited s)
      \<or> (exit_count s' = Suc (exit_count s) \<and> exited s' \<noteq> None))"

definition inv_exit :: "session \<Rightarrow> bool" where
  "inv_exit s = (exit_count s \<le> 1 \<and> (exited s = None \<longrightarrow> exit_count s = 0))"

text \<open>A trace-upload target is only ever set after \<^verbatim>\<open>config\<close> (lines 190 and 217).\<close>

definition inv_config :: "session \<Rightarrow> bool" where
  "inv_config s = (truthy_str (traceUploadUrl s) \<longrightarrow> config s \<noteq> None)"

definition once :: "effect list \<Rightarrow> bool" where
  "once t =
     (length (filter is_TelemetryRecord t) \<le> 1 \<and> length (filter is_UploadTrace t) \<le> 1
      \<and> count_list t (StdoutWrite show_cursor) \<le> 1)"

text \<open>
  At most one invocation of the coordinator is suspended, it has set the flag, and the
  effects of the coordinator are those of at most one run of it.
\<close>

definition inv_stop :: "session \<Rightarrow> bool" where
  "inv_stop s =
     (stopAwaiting s \<le> 1
      \<and> (stopAwaiting s = 1 \<longrightarrow> sessionStopHandled s \<and> stopped s = [])
      \<and> (\<not> sessionStopHandled s \<longrightarrow> stopAwaiting s = 0 \<and> stopped s = [])
      \<and> once (stopped s))"

text \<open>
  What the handlers of \<^verbatim>\<open>nextDev\<close> and of the worker's messages do to the state the
  coordinator depends on: nothing (\<open>quiet\<close>), or nothing but one exit (\<open>bystander\<close>).
\<close>

definition quiet :: "session \<Rightarrow> session \<Rightarrow> bool" where
  "quiet s s' =
     (same_stop s s' \<and> exit_count s' = exit_count s \<and> exited s' = exited s
      \<and> (inv_config s \<longrightarrow> inv_config s'))"

definition bystander :: "session \<Rightarrow> session \<Rightarrow> bool" where
  "bystander s s' = (same_stop s s' \<and> exits_once s s' \<and> (inv_config s \<longrightarrow> inv_config s'))"

text \<open>The log of effects only grows.\<close>

definition extends :: "session \<Rightarrow> session \<Rightarrow> bool" where
  "extends s s' = (\<exists>t. effects s' = effects s @ t)"

text \<open>The options that were sent to workers, in order.\<close>

fun delivered :: "effect list \<Rightarrow> options list" where
  "delivered [] = []"
| "delivered (Send h opts # es) = opts # delivered es"
| "delivered (e # es) = delivered es"

text \<open>Before \<^verbatim>\<open>runDevServer\<close> is called, and before the first \<^verbatim>\<open>fork\<close>.\<close>

fun early :: "pc \<Rightarrow> bool" where
  "early NotStarted = True"
| "early (AwaitFileExists args) = True"
| "early (AwaitLoadConfig args port allow files) = True"
| "early (AwaitTurbo args opts) = True"
| "early p = False"

fun before_spawn :: "pc \<Rightarrow> bool" where
  "before_spawn (AwaitCertificate opts) = True"
| "before_spawn p = early p"

definition certificates :: "session \<Rightarrow> nat" where
  "certificates s = length (filter is_CreateCertificate (effects s))"

text \<open>
  Every worker closure holds the options of the first one, every delivery carries them,
  and a certificate is generated at most once, before the first \<^verbatim>\<open>fork\<close>.
\<close>

definition inv_launch :: "session \<Rightarrow> bool" where
  "inv_launch s =
     ((before_spawn (nextDevAt s) \<longrightarrow> workers s = [])
      \<and> (workers s = [] \<longrightarrow> delivered (effects s) = [])
      \<and> (early (nextDevAt s) \<longrightarrow> certificates s = 0)
      \<and> certificates s \<le> 1
      \<and> (\<forall>w\<in>set (workers s). w_options w = w_options (workers s ! 0))
      \<and> (\<forall>opts\<in>set (delivered (effects s)). opts = w_options (workers s ! 0)))"

text \<open>Where the retry permission of lines 180-181 is, as \<^verbatim>\<open>nextDev\<close> proceeds.\<close>

definition inv_retry :: "bool \<Rightarrow> session \<Rightarrow> bool" where
  "inv_retry b s =
     ((case nextDevAt s of
         NotStarted \<Rightarrow> exited s \<noteq> None
       | AwaitFileExists args \<Rightarrow> (arg_port args = None \<and> map_of (penv s) env_PORT = None) = b
       | AwaitLoadConfig args port allow files \<Rightarrow> allow = b
       | AwaitTurbo args opts \<Rightarrow> allowRetry opts = b
       | AwaitCertificate opts \<Rightarrow> allowRetry opts = b
       | _ \<Rightarrow> True)
      \<and> (workers s \<noteq> [] \<longrightarrow> allowRetry (w_options (workers s ! 0)) = b))"

text \<open>
  A session in which \<^verbatim>\<open>nextDev\<close> has got no further than \<open>p\<close>, a point before its first
  \<^verbatim>\<open>loadEnvConfig\<close>: while the process runs \<^verbatim>\<open>nextDev\<close> is at \<open>p\<close>, the environment is still
  that of the start, no trace-upload target is set and nothing has been forked.
\<close>

definition no_launch :: "pc \<Rightarrow> (string \<times> string) list \<Rightarrow> session \<Rightarrow> bool" where
  "no_launch p env0 s =
     (penv s = env0 \<and> workers s = [] \<and> child s = None \<and> traceUploadUrl s = None
      \<and> filter is_Fork (effects s) = []
      \<and> (exited s = None \<longrightarrow> nextDevAt s = p))"

subsection \<open>A concrete session\<close>

text \<open>
  Concrete collaborators, command line and events, on which the properties are evaluated:
  a launch without flags in \<^verbatim>\<open>/app\<close>, where port 6000 is the one reserved port.
\<close>

definition demo_ext :: ext where
  "demo_ext =
     \<lparr>RESTART_EXIT_CODE = 77,
      getProjectDir = (\<lambda>d. case d of Some p \<Rightarrow> p | None \<Rightarrow> ''/app''),
      getPort = (\<lambda>a env. case arg_port a of Some p \<Rightarrow> p | None \<Rightarrow> 3000),
      isPortIsReserved = (\<lambda>p. p = 6000),
      getReservedPortExplanation = (\<lambda>p. ''x11''),
      loadEnvConfig = (\<lambda>d env. ([], env)),
      path_join = (\<lambda>a b. a @ ''/'' @ b),
      path_resolve = (\<lambda>p. ''/app/'' @ p)\<rparr>"

definition demo_args :: cli_args where
  "demo_args =
     \<lparr>arg_help = False, arg_positional = [], arg_port = None, arg_hostname = None,
      arg_https = False, arg_https_key = None, arg_https_cert = None,
      arg_upload_trace = None, arg_test_proxy = False, arg_turbo = False\<rparr>"

definition demo_config :: next_config where
  "demo_config = \<lparr>distDir = ''.next'', serverActions = False\<rparr>"

definition demo_options :: options where
  "demo_options = devServerOptions demo_args (Some ''/app'') 3000 True [] []"

text \<open>Collaborators that all succeed, and collaborators that all throw.\<close>

definition demo_env :: stop_env where
  "demo_env =
     \<lparr>requireThrows = False, telemetryGlobal = False, telemetryCtorThrows = False,
      pagesDirGlobal = None, appDirGlobal = None,
      findPagesDir = Inr (Some ''/app/pages'', None),
      recordThrows = False, flushThrows = False, now = 5000, uploadTraceThrows = False\<rparr>"

definition failing_env :: stop_env where
  "failing_env =
     \<lparr>requireThrows = False, telemetryGlobal = False, telemetryCtorThrows = True,
      pagesDirGlobal = None, appDirGlobal = None,
      findPagesDir = Inl (Error ''detection''),
      recordThrows = True, flushThrows = True, now = 5000, uploadTraceThrows = False\<rparr>"

definition demo_launch :: "event list" where
  "demo_launch =
     [Invoke demo_args, FileExistsSettled True, ConfigSettled (Inr (demo_config, None))]"

text \<open>The session once the first worker has been forked.\<close>

definition serving :: session where
  "serving =
     \<lparr>dir = Some ''/app'', child = Some 0, config = Some demo_config,
      isTurboSession = False, traceUploadUrl = None, sessionStopHandled = False,
      sessionStarted = 1000, penv = [(env_PREBUNDLED_REACT, ''next'')],
      workers = [\<lparr>w_options = demo_options, resolved = False\<rparr>],
      stopAwaiting = 0, nextDevAt = AwaitServerReady 0,
      effects = [LoadConfig (Some ''/app''), SetGlobal ''phase'' PHASE_DEVELOPMENT_SERVER,
                 SetGlobal ''distDir'' ''/app/.next'', Fork 0 None],
      exited = None\<rparr>"

text \<open>
  A first signal arrived while \<^verbatim>\<open>nextDev\<close> was checking the directory: the coordinator
  is suspended at its own \<^verbatim>\<open>loadConfig\<close>, and \<^verbatim>\<open>nextDev\<close> went on to fork the worker.
\<close>

definition interrupted_launch :: "event list" where
  "interrupted_launch =
     [Invoke demo_args, Signal ''SIGINT'' demo_env, FileExistsSettled True,
      ConfigSettled (Inr (demo_config, None))]"

definition interrupted :: session where
  "interrupted =
     \<lparr>dir = Some ''/app'', child = Some 0, config = Some demo_config,
      isTurboSession = False, traceUploadUrl = None, sessionStopHandled = True,
      sessionStarted = 1000, penv = [(env_PREBUNDLED_REACT, ''next'')],
      workers = [\<lparr>w_options = demo_options, resolved = False\<rparr>],
      stopAwaiting = 1, nextDevAt = AwaitServerReady 0,
      effects = [LoadConfig (Some ''/app''), LoadConfig (Some ''/app''),
                 SetGlobal ''phase'' PHASE_DEVELOPMENT_SERVER,
                 SetGlobal ''distDir'' ''/app/.next'', Fork 0 None],
      exited = None\<rparr>"

text \<open>A launch with \<^verbatim>\<open>--experimental-upload-trace\<close>, once the first worker has been forked.\<close>

definition traced_args :: cli_args where
  "traced_args = demo_args\<lparr>arg_upload_trace := Some ''http://localhost:9999''\<rparr>"

definition traced_launch :: "event list" where
  "traced_launch =
     [Invoke traced_args, FileExistsSettled True, ConfigSettled (Inr (demo_config, None))]"

definition traced :: session where
  "traced = serving\<lparr>traceUploadUrl := Some ''http://localhost:9999''\<rparr>"

text \<open>\<^verbatim>\<open>nextDev\<close> is checking the directory; nothing has been loaded yet.\<close>

definition dir_check :: session where
  "dir_check =
     (init_session 1000 [])\<lparr>dir := Some ''/app'', nextDevAt := AwaitFileExists demo_args\<rparr>"

text \<open>The two messages of a worker, and the session after the first worker asked for a restart.\<close>

definition ready_msg :: jsval where
  "ready_msg = JObj [(nextWorkerReady, JBool True)]"

definition server_ready_msg :: jsval where
  "server_ready_msg = JObj [(nextServerReady, JBool True)]"

definition restarted :: session where
  "restarted =
     serving\<lparr>child := Some 1,
             workers := [\<lparr>w_options = demo_options, resolved = False\<rparr>,
                         \<lparr>w_options = demo_options, resolved = False\<rparr>],
             effects := effects serving @ [Fork 1 None]\<rparr>"

text \<open>A command line with \<^verbatim>\<open>--help\<close> and the reserved port, and one with the port only.\<close>

definition help_reserved_args :: cli_args where
  "help_reserved_args = demo_args\<lparr>arg_help := True, arg_port := Some 6000\<rparr>"

definition reserved_args :: cli_args where
  "reserved_args = demo_args\<lparr>arg_port := Some 6000, arg_turbo := True, arg_https := True\<rparr>"

text \<open>
  Two signals arrive while \<^verbatim>\<open>nextDev\<close> checks the directory of a launch on the reserved
  port; the directory check settles before the \<^verbatim>\<open>loadConfig\<close> of the coordinator does.
\<close>

definition overtaken :: "event list" where
  "overtaken =
     [Invoke reserved_args, Signal ''SIGINT'' demo_env, Signal ''SIGTERM'' demo_env,
      FileExistsSettled True, StopConfigSettled (Inr demo_config) demo_env]"

text \<open>
  A sequence of messages with \<^verbatim>\<open>ready\<close> before \<^verbatim>\<open>serverReady\<close>, a duplicate of each, and
  values of other shapes in between.
\<close>

definition demo_messages :: "jsval list" where
  "demo_messages =
     [JStr ''hello'', ready_msg, JNull, ready_msg, JObj [(''other'', JNum 1)],
      server_ready_msg, JUndefined, server_ready_msg]"

text \<open>Launches with and without \<^verbatim>\<open>--port\<close>, and an environment with \<^verbatim>\<open>PORT\<close>.\<close>

definition port_args :: cli_args where
  "port_args = demo_args\<lparr>arg_port := Some 4000\<rparr>"

definition port_env :: "(string \<times> string) list" where
  "port_env = [(env_PORT, ''4000'')]"

definition launch :: "cli_args \<Rightarrow> event list" where
  "launch args = [Invoke args, FileExistsSettled True, ConfigSettled (Inr (demo_config, None))]"

text \<open>Launches with \<^verbatim>\<open>--experimental-https\<close>, without and with explicit files.\<close>

definition https_args :: cli_args where
  "https_args = demo_args\<lparr>arg_https := True, arg_hostname := Some ''localhost''\<rparr>"

definition https_file_args :: cli_args where
  "https_file_args =
     https_args\<lparr>arg_https_key := Some ''key.pem'', arg_https_cert := Some ''cert.pem''\<rparr>"

definition demo_certificate :: certificate where
  "demo_certificate = \<lparr>key = ''/tmp/localhost-key.pem'', cert = ''/tmp/localhost.pem''\<rparr>"

text \<open>
  An HTTPS launch in which the certificate is generated, the worker starts, asks for a
  restart, and the second worker starts.
\<close>

definition https_session :: "event list" where
  "https_session =
     launch https_args
       @ [CertificateSettled (Inr (Some demo_certificate)), WorkerMessage 0 ready_msg,
          WorkerExit 0 (Some 77) None demo_env, WorkerMessage 1 ready_msg]"

section \<open>Properties\<close>

subsection \<open>Evaluation\<close>

lemmas nextDev_defs = nextDev_start_def nextDev_dirChecked_def nextDev_configLoaded_def
  nextDev_assign_def nextDev_turbo_def devServerOptions_def nextDev_serve_def runDevServer_def
  nextDev_turboValidated_def nextDev_certificate_def nextDev_ready_def nextDev_preflight_def
  startServer_def printAndExit_def process_exit_def emit_def

lemmas env_names = env_TURBOPACK_def env_PORT_def env_DEV_DIR_def env_PREBUNDLED_REACT_def

lemma serving_reached: "run demo_ext demo_launch (init_session 1000 []) = serving"
  by (simp add: demo_launch_def serving_def init_session_def step_def nextDev_defs env_names
      demo_ext_def demo_args_def demo_config_def demo_options_def Let_def)

lemma interrupted_reached:
  "run demo_ext interrupted_launch (init_session 1000 []) = interrupted"
  by (simp add: interrupted_launch_def interrupted_def init_session_def step_def nextDev_defs
      env_names demo_ext_def demo_args_def demo_config_def demo_options_def demo_env_def Let_def
      handleSessionStop_def forward_kill_def)

lemma traced_reached: "run demo_ext traced_launch (init_session 1000 []) = traced"
  by (simp add: traced_launch_def traced_def traced_args_def serving_def init_session_def step_def
      nextDev_defs env_names demo_ext_def demo_args_def demo_config_def demo_options_def Let_def)

lemma dir_check_reached: "run demo_ext [Invoke demo_args] (init_session 1000 []) = dir_check"
  by (simp add: dir_check_def init_session_def step_def nextDev_defs env_names demo_ext_def
      demo_args_def Let_def)

lemma restarted_reached:
  "run demo_ext (demo_launch @ [WorkerExit 0 (Some 77) None demo_env]) (init_session 1000 [])
     = restarted"
proof -
  have "run demo_ext (demo_launch @ [WorkerExit 0 (Some 77) None demo_env]) (init_session 1000 [])
      = step demo_ext (WorkerExit 0 (Some 77) None demo_env) serving"
    unfolding serving_reached [symmetric] by (simp add: demo_launch_def)
  also have "\<dots> = restarted"
    by (simp add: step_def on_exit_def startServer_def emit_def serving_def restarted_def
        demo_ext_def env_names Let_def)
  finally show ?thesis .
qed

lemmas demo_defs = demo_ext_def demo_args_def demo_config_def demo_options_def demo_env_def
  port_args_def port_env_def launch_def https_args_def https_file_args_def
  demo_certificate_def https_session_def

lemma launch_workers:
  "workers (run demo_ext (launch demo_args) (init_session 1000 [])) \<noteq> []"
  "workers (run demo_ext (launch port_args) (init_session 1000 [])) \<noteq> []"
  "workers (run demo_ext (launch demo_args) (init_session 1000 port_env)) \<noteq> []"
  "workers (run demo_ext (launch port_args) (init_session 1000 port_env)) \<noteq> []"
  by (simp_all add: init_session_def step_def nextDev_defs env_names demo_defs Let_def)

lemma https_session_delivered:
  "delivered (effects (run demo_ext https_session (init_session 1000 [])))
     = [(devServerOptions https_args (Some ''/app'') 3000 True [] [])
          \<lparr>selfSignedCertificate := Some demo_certificate\<rparr>,
        (devServerOptions https_args (Some ''/app'') 3000 True [] [])
          \<lparr>selfSignedCertificate := Some demo_certificate\<rparr>]"
  "certificates (run demo_ext https_session (init_session 1000 [])) = 1"
  by (simp_all add: init_session_def step_def nextDev_defs env_names demo_defs Let_def
      on_message_def on_exit_def ready_msg_def nextWorkerReady_def certificates_def)

subsection \<open>One run of the coordinator\<close>

lemma show_cursor_neq_newline: "show_cursor \<noteq> newline"
  by (simp add: show_cursor_def newline_def)

lemma forward_kill_eq: "forward_kill signal s = s\<lparr>effects := effects s @ kill_trace signal s\<rparr>"
  by (simp add: forward_kill_def kill_trace_def emit_def split: option.split)

lemma stop_exit_eq: "stop_exit s = s\<lparr>effects := effects s @ exit_tail, exited := Some 0\<rparr>"
  by (simp add: stop_exit_def process_exit_def emit_def exit_tail_def)

lemma stop_upload_shape:
  "\<exists>t ex. stop_upload env s = s\<lparr>effects := effects s @ t, exited := ex\<rparr>
     \<and> finish_trace (exited s) t ex"
proof -
  have "stop_upload env s = stop_exit s
      \<or> (\<exists>e. stop_upload env s = emit (Rejected e) s)
      \<or> (\<exists>u. stop_upload env s = stop_exit (emit (UploadTrace u) s))"
    unfolding stop_upload_def by (auto split: option.splits)
  then consider (plain) "stop_upload env s = stop_exit s"
    | (rej) e where "stop_upload env s = emit (Rejected e) s"
    | (up) u where "stop_upload env s = stop_exit (emit (UploadTrace u) s)"
    by blast
  then show ?thesis
  proof cases
    case plain
    have "finish_trace (exited s) exit_tail (Some 0)" by (simp add: finish_trace_def)
    with plain show ?thesis unfolding stop_exit_eq by blast
  next
    case (rej e)
    have "finish_trace (exited s) [Rejected e] (exited s)" by (simp add: finish_trace_def)
    moreover have "emit (Rejected e) s = s\<lparr>effects := effects s @ [Rejected e], exited := exited s\<rparr>"
      by (simp add: emit_def)
    ultimately show ?thesis using rej by metis
  next
    case (up u)
    have "finish_trace (exited s) (UploadTrace u # exit_tail) (Some 0)"
      by (simp add: finish_trace_def)
    moreover have "stop_exit (emit (UploadTrace u) s)
        = s\<lparr>effects := effects s @ UploadTrace u # exit_tail, exited := Some 0\<rparr>"
      by (simp add: stop_exit_eq emit_def)
    ultimately show ?thesis using up by metis
  qed
qed

lemma stop_record_shape:
  "\<exists>t. stop_record env p a s = s\<lparr>effects := effects s @ t\<rparr> \<and> telemetry_trace t"
proof (cases "recordThrows env")
  case True
  then have "stop_record env p a s = s\<lparr>effects := effects s @ []\<rparr>"
    by (simp add: stop_record_def)
  moreover have "telemetry_trace []" by (simp add: telemetry_trace_def)
  ultimately show ?thesis by blast
next
  case False
  let ?r = "\<lparr>cliCommand = ''dev'', turboFlag = isTurboSession s,
             durationMilliseconds = now env - sessionStarted s,
             ev_pagesDir = p, ev_appDir = a\<rparr>"
  show ?thesis
  proof (cases "flushThrows env")
    case True
    with False have "stop_record env p a s = s\<lparr>effects := effects s @ [TelemetryRecord ?r]\<rparr>"
      by (simp add: stop_record_def emit_def)
    moreover have "telemetry_trace [TelemetryRecord ?r]" by (simp add: telemetry_trace_def)
    ultimately show ?thesis by blast
  next
    case f: False
    with False have "stop_record env p a s
        = s\<lparr>effects := effects s @ [TelemetryRecord ?r, TelemetryFlush (dir s)]\<rparr>"
      by (simp add: stop_record_def emit_def)
    moreover have "telemetry_trace [TelemetryRecord ?r, TelemetryFlush (dir s)]"
      by (simp add: telemetry_trace_def)
    ultimately show ?thesis by blast
  qed
qed

lemma stop_telemetry_shape:
  "\<exists>t. stop_telemetry env s = s\<lparr>effects := effects s @ t\<rparr> \<and> telemetry_trace t"
proof -
  have n: "\<exists>t. s = s\<lparr>effects := effects s @ t\<rparr> \<and> telemetry_trace t"
    by (rule exI [of _ "[]"]) (simp add: telemetry_trace_def)
  show ?thesis
    unfolding stop_telemetry_def using n stop_record_shape
    by (simp split: sum.split prod.split)
qed

lemma stop_upload_run:
  "\<exists>t ex. stop_upload env s = s\<lparr>effects := effects s @ t, exited := ex\<rparr>
     \<and> stop_run (exited s) t ex"
proof -
  obtain t ex where a: "stop_upload env s = s\<lparr>effects := effects s @ t, exited := ex\<rparr>"
      "finish_trace (exited s) t ex"
    using stop_upload_shape by blast
  have "telemetry_trace []" by (simp add: telemetry_trace_def)
  with a(2) have "stop_run (exited s) t ex"
    unfolding stop_run_def by (metis append_Nil)
  with a(1) show ?thesis by blast
qed

lemma stop_finish_run:
  "\<exists>t ex. stop_upload env (stop_telemetry env s) = s\<lparr>effects := effects s @ t, exited := ex\<rparr>
     \<and> stop_run (exited s) t ex"
proof -
  obtain t1 where t1: "stop_telemetry env s = s\<lparr>effects := effects s @ t1\<rparr>" "telemetry_trace t1"
    using stop_telemetry_shape by blast
  let ?s1 = "s\<lparr>effects := effects s @ t1\<rparr>"
  obtain t2 ex where t2: "stop_upload env ?s1 = ?s1\<lparr>effects := effects ?s1 @ t2, exited := ex\<rparr>"
      "finish_trace (exited ?s1) t2 ex"
    using stop_upload_shape by blast
  have "finish_trace (exited s) t2 ex" using t2(2) by simp
  with t1(2) have "stop_run (exited s) (t1 @ t2) ex"
    unfolding stop_run_def by blast
  moreover have "stop_upload env (stop_telemetry env s)
      = s\<lparr>effects := effects s @ (t1 @ t2), exited := ex\<rparr>"
    using t1(1) t2(1) by simp
  ultimately show ?thesis by blast
qed

lemma handleSessionStop_later:
  "sessionStopHandled s \<Longrightarrow> handleSessionStop env signal s = forward_kill signal s"
  by (simp add: handleSessionStop_def Let_def forward_kill_eq)

lemma handleSessionStop_suspends:
  assumes "\<not> sessionStopHandled s" and "\<not> requireThrows env" and "config s = None"
  shows "handleSessionStop env signal s
    = s\<lparr>sessionStopHandled := True, stopAwaiting := Suc (stopAwaiting s),
        effects := effects s @ kill_trace signal s @ [LoadConfig (dir s)]\<rparr>"
  using assms by (simp add: handleSessionStop_def Let_def forward_kill_eq emit_def)

lemma handleSessionStop_completes:
  assumes "\<not> sessionStopHandled s" and "requireThrows env \<or> config s \<noteq> None"
  shows "\<exists>t ex. handleSessionStop env signal s
      = s\<lparr>sessionStopHandled := True, effects := effects s @ kill_trace signal s @ t, exited := ex\<rparr>
    \<and> stop_run (exited s) t ex"
proof -
  let ?s2 = "s\<lparr>effects := effects s @ kill_trace signal s, sessionStopHandled := True\<rparr>"
  have h: "handleSessionStop env signal s
      = (if requireThrows env then stop_upload env ?s2
         else stop_upload env (stop_telemetry env ?s2))"
    using assms by (auto simp: handleSessionStop_def Let_def forward_kill_eq)
  obtain t ex where a: "stop_upload env ?s2 = ?s2\<lparr>effects := effects ?s2 @ t, exited := ex\<rparr>"
      "stop_run (exited ?s2) t ex"
    using stop_upload_run by blast
  obtain t' ex' where b: "stop_upload env (stop_telemetry env ?s2)
        = ?s2\<lparr>effects := effects ?s2 @ t', exited := ex'\<rparr>"
      "stop_run (exited ?s2) t' ex'"
    using stop_finish_run by blast
  show ?thesis
  proof (cases "requireThrows env")
    case True
    with h a(1) have "handleSessionStop env signal s
      = s\<lparr>sessionStopHandled := True, effects := effects s @ kill_trace signal s @ t, exited := ex\<rparr>"
      by simp
    moreover have "stop_run (exited s) t ex" using a(2) by simp
    ultimately show ?thesis by blast
  next
    case False
    with h b(1) have "handleSessionStop env signal s
      = s\<lparr>sessionStopHandled := True, effects := effects s @ kill_trace signal s @ t', exited := ex'\<rparr>"
      by simp
    moreover have "stop_run (exited s) t' ex'" using b(2) by simp
    ultimately show ?thesis by blast
  qed
qed

lemma handleSessionStop_resume_shape:
  "\<exists>cfg t ex. handleSessionStop_resume env r s
      = s\<lparr>config := cfg, effects := effects s @ t, exited := ex\<rparr>
    \<and> stop_run (exited s) t ex \<and> (cfg = config s \<or> cfg \<noteq> None)"
proof (cases r)
  case (Inl e)
  obtain t ex where a: "stop_upload env s = s\<lparr>effects := effects s @ t, exited := ex\<rparr>"
      "stop_run (exited s) t ex"
    using stop_upload_run by blast
  have "handleSessionStop_resume env r s = s\<lparr>config := config s, effects := effects s @ t, exited := ex\<rparr>"
    using Inl a(1) by (simp add: handleSessionStop_resume_def)
  with a(2) show ?thesis by blast
next
  case (Inr c)
  let ?s1 = "s\<lparr>config := Some c\<rparr>"
  obtain t ex where a: "stop_upload env (stop_telemetry env ?s1)
        = ?s1\<lparr>effects := effects ?s1 @ t, exited := ex\<rparr>"
      "stop_run (exited ?s1) t ex"
    using stop_finish_run by blast
  have "handleSessionStop_resume env r s = s\<lparr>config := Some c, effects := effects s @ t, exited := ex\<rparr>"
    using Inr a(1) by (simp add: handleSessionStop_resume_def)
  moreover have "stop_run (exited s) t ex" using a(2) by simp
  ultimately show ?thesis by blast
qed

lemma telemetry_trace_facts:
  assumes "telemetry_trace t"
  shows "filter is_Kill t = []" and "list_all coordinator_effect t"
    and "length (filter is_TelemetryRecord t) \<le> 1" and "filter is_UploadTrace t = []"
    and "count_list t (StdoutWrite w) = 0" and "filter is_ProcessExit t = []"
    and "\<forall>e\<in>set t. \<not> noise e"
  using assms unfolding telemetry_trace_def by auto

lemma finish_trace_facts:
  assumes "finish_trace ex0 t ex"
  shows "filter is_Kill t = []" and "list_all coordinator_effect t"
    and "filter is_TelemetryRecord t = []" and "length (filter is_UploadTrace t) \<le> 1"
    and "count_list t (StdoutWrite show_cursor) \<le> 1" and "length (filter is_ProcessExit t) \<le> 1"
  using assms unfolding finish_trace_def exit_tail_def
  by (auto simp: show_cursor_neq_newline [symmetric])

lemma finish_trace_outcome:
  assumes "finish_trace ex0 t ex"
  shows "(ex = Some 0 \<and> (\<exists>pre. t = pre @ exit_tail) \<and> (\<forall>e\<in>set t. \<not> noise e))
       \<or> (ex = ex0 \<and> filter is_ProcessExit t = [] \<and> (\<exists>e. t = [Rejected e]))"
  using assms unfolding finish_trace_def exit_tail_def by auto

lemma stop_run_facts:
  assumes "stop_run ex0 t ex"
  shows "filter is_Kill t = []" and "list_all coordinator_effect t"
    and "length (filter is_TelemetryRecord t) \<le> 1" and "length (filter is_UploadTrace t) \<le> 1"
    and "count_list t (StdoutWrite show_cursor) \<le> 1" and "length (filter is_ProcessExit t) \<le> 1"
proof -
  obtain t1 t2 where t: "t = t1 @ t2" "telemetry_trace t1" "finish_trace ex0 t2 ex"
    using assms unfolding stop_run_def by blast
  note a = telemetry_trace_facts [OF t(2)] and b = finish_trace_facts [OF t(3)]
  show "filter is_Kill t = []" using a(1) b(1) t(1) by simp
  show "list_all coordinator_effect t" using a(2) b(2) t(1) by simp
  show "length (filter is_TelemetryRecord t) \<le> 1" using a(3) b(3) t(1) by simp
  show "length (filter is_UploadTrace t) \<le> 1" using a(4) b(4) t(1) by simp
  show "count_list t (StdoutWrite show_cursor) \<le> 1" using a(5) [of show_cursor] b(5) t(1) by simp
  show "length (filter is_ProcessExit t) \<le> 1" using a(6) b(6) t(1) by simp
qed

lemma stop_run_outcome:
  assumes "stop_run ex0 t ex"
  shows "(ex = Some 0 \<and> (\<exists>pre. t = pre @ exit_tail) \<and> (\<forall>e\<in>set t. \<not> noise e))
       \<or> (ex = ex0 \<and> filter is_ProcessExit t = [] \<and> (\<exists>pre e. t = pre @ [Rejected e]))"
proof -
  obtain t1 t2 where t: "t = t1 @ t2" "telemetry_trace t1" "finish_trace ex0 t2 ex"
    using assms unfolding stop_run_def by blast
  note a = telemetry_trace_facts [OF t(2)]
  from finish_trace_outcome [OF t(3)] show ?thesis
  proof
    assume h: "ex = Some 0 \<and> (\<exists>pre. t2 = pre @ exit_tail) \<and> (\<forall>e\<in>set t2. \<not> noise e)"
    then obtain pre where "t2 = pre @ exit_tail" by blast
    then have "t = (t1 @ pre) @ exit_tail" using t(1) by simp
    moreover have "\<forall>e\<in>set t. \<not> noise e" using h a(7) t(1) by auto
    ultimately show ?thesis using h by blast
  next
    assume h: "ex = ex0 \<and> filter is_ProcessExit t2 = [] \<and> (\<exists>e. t2 = [Rejected e])"
    then obtain e where "t2 = [Rejected e]" by blast
    then have "t = t1 @ [Rejected e]" using t(1) by simp
    moreover have "filter is_ProcessExit t = []" using h a(6) t(1) by simp
    ultimately show ?thesis using h by blast
  qed
qed

lemma stop_telemetry_fields:
  "config (stop_telemetry env s) = config s"
  "traceUploadUrl (stop_telemetry env s) = traceUploadUrl s"
  "exited (stop_telemetry env s) = exited s"
proof -
  obtain t where "stop_telemetry env s = s\<lparr>effects := effects s @ t\<rparr>"
    using stop_telemetry_shape by blast
  then show "config (stop_telemetry env s) = config s"
    "traceUploadUrl (stop_telemetry env s) = traceUploadUrl s"
    "exited (stop_telemetry env s) = exited s" by simp_all
qed

lemma stop_upload_exits:
  assumes "truthy_str (traceUploadUrl s) \<longrightarrow> config s \<noteq> None \<and> \<not> uploadTraceThrows env"
  shows "exited (stop_upload env s) = Some 0"
proof (cases "truthy_str (traceUploadUrl s)")
  case False
  then have "stop_upload env s = stop_exit s"
    by (cases "traceUploadUrl s") (simp_all add: stop_upload_def)
  then show ?thesis by (simp add: stop_exit_eq)
next
  case True
  then obtain url where u: "traceUploadUrl s = Some url" "url \<noteq> []"
    by (cases "traceUploadUrl s") simp_all
  from True assms obtain c where c: "config s = Some c" "\<not> uploadTraceThrows env" by auto
  show ?thesis using u c by (simp add: stop_upload_def stop_exit_eq)
qed

lemma handleSessionStop_exits:
  assumes "\<not> sessionStopHandled s" and "requireThrows env \<or> config s \<noteq> None"
    and "truthy_str (traceUploadUrl s) \<longrightarrow> config s \<noteq> None \<and> \<not> uploadTraceThrows env"
  shows "exited (handleSessionStop env signal s) = Some 0"
proof -
  let ?s2 = "s\<lparr>effects := effects s @ kill_trace signal s, sessionStopHandled := True\<rparr>"
  have h: "handleSessionStop env signal s
      = (if requireThrows env then stop_upload env ?s2
         else stop_upload env (stop_telemetry env ?s2))"
    using assms(1,2) by (auto simp: handleSessionStop_def Let_def forward_kill_eq)
  have a: "truthy_str (traceUploadUrl ?s2) \<longrightarrow> config ?s2 \<noteq> None \<and> \<not> uploadTraceThrows env"
    using assms(3) by simp
  then have b: "truthy_str (traceUploadUrl (stop_telemetry env ?s2))
      \<longrightarrow> config (stop_telemetry env ?s2) \<noteq> None \<and> \<not> uploadTraceThrows env"
    unfolding stop_telemetry_fields .
  show ?thesis unfolding h using stop_upload_exits [OF a] stop_upload_exits [OF b] by simp
qed

lemma handleSessionStop_resume_exits:
  assumes "truthy_str (traceUploadUrl s) \<longrightarrow> (config s \<noteq> None \<or> \<not> isl r) \<and> \<not> uploadTraceThrows env"
  shows "exited (handleSessionStop_resume env r s) = Some 0"
proof (cases r)
  case (Inl e)
  then have "truthy_str (traceUploadUrl s) \<longrightarrow> config s \<noteq> None \<and> \<not> uploadTraceThrows env"
    using assms by simp
  from stop_upload_exits [OF this] show ?thesis using Inl by (simp add: handleSessionStop_resume_def)
next
  case (Inr c)
  let ?s1 = "s\<lparr>config := Some c\<rparr>"
  have "truthy_str (traceUploadUrl (stop_telemetry env ?s1))
      \<longrightarrow> config (stop_telemetry env ?s1) \<noteq> None \<and> \<not> uploadTraceThrows env"
    unfolding stop_telemetry_fields using assms by simp
  from stop_upload_exits [OF this] show ?thesis using Inr by (simp add: handleSessionStop_resume_def)
qed

lemma handleSessionStop_effects:
  "\<exists>rest. effects (handleSessionStop env signal s) = effects s @ kill_trace signal s @ rest
     \<and> filter is_Kill rest = []"
proof (cases "sessionStopHandled s")
  case True
  then have "effects (handleSessionStop env signal s) = effects s @ kill_trace signal s @ []"
    by (simp add: handleSessionStop_later forward_kill_eq)
  then show ?thesis by (metis filter.simps(1))
next
  case False
  show ?thesis
  proof (cases "requireThrows env \<or> config s \<noteq> None")
    case True
    from handleSessionStop_completes [OF False True, of signal]
    obtain t ex where a: "handleSessionStop env signal s
        = s\<lparr>sessionStopHandled := True, effects := effects s @ kill_trace signal s @ t, exited := ex\<rparr>"
        "stop_run (exited s) t ex" by blast
    have "effects (handleSessionStop env signal s) = effects s @ kill_trace signal s @ t"
      unfolding a(1) by simp
    then show ?thesis using stop_run_facts(1) [OF a(2)] by blast
  next
    case nt: False
    then have "effects (handleSessionStop env signal s)
        = effects s @ kill_trace signal s @ [LoadConfig (dir s)]"
      using False by (simp add: handleSessionStop_suspends)
    moreover have "filter is_Kill [LoadConfig (dir s)] = []" by simp
    ultimately show ?thesis by blast
  qed
qed

subsection \<open>Handlers other than the coordinator\<close>

lemmas quiet_defs = quiet_def same_stop_def stopped_def exit_count_def inv_config_def

lemma quiet_refl: "quiet s s"
  by (simp add: quiet_defs)

lemma quiet_bystander: "quiet s s' \<Longrightarrow> bystander s s'"
  by (simp add: quiet_def bystander_def exits_once_def)

lemma quiet_emit:
  "quiet s s' \<Longrightarrow> \<not> coordinator_only e \<Longrightarrow> \<not> is_ProcessExit e \<Longrightarrow> quiet s (emit e s')"
  by (simp add: quiet_defs emit_def)

lemma quiet_updates:
  "quiet s s' \<Longrightarrow> quiet s (s'\<lparr>nextDevAt := p\<rparr>)"
  "quiet s s' \<Longrightarrow> quiet s (s'\<lparr>dir := d\<rparr>)"
  "quiet s s' \<Longrightarrow> quiet s (s'\<lparr>penv := e\<rparr>)"
  "quiet s s' \<Longrightarrow> quiet s (s'\<lparr>workers := ws\<rparr>)"
  "quiet s s' \<Longrightarrow> quiet s (s'\<lparr>child := c\<rparr>)"
  by (simp_all add: quiet_defs)

lemma quiet_startServer: "quiet s s' \<Longrightarrow> quiet s (startServer opts s')"
  by (simp add: quiet_defs startServer_def emit_def Let_def)

lemma bystander_process_exit: "quiet s s' \<Longrightarrow> bystander s (process_exit c s')"
  by (simp add: quiet_defs bystander_def exits_once_def process_exit_def emit_def)

lemma bystander_printAndExit: "quiet s s' \<Longrightarrow> bystander s (printAndExit m c s')"
  unfolding printAndExit_def by (simp add: bystander_process_exit quiet_emit)

lemma bystander_nextDev_start: "bystander s (nextDev_start x args s)"
  unfolding nextDev_start_def Let_def
  by (simp add: bystander_process_exit quiet_bystander quiet_emit quiet_updates quiet_refl)

lemma bystander_nextDev_dirChecked: "bystander s (nextDev_dirChecked x args b s)"
  unfolding nextDev_dirChecked_def Let_def
  by (simp add: bystander_printAndExit quiet_bystander quiet_emit quiet_updates quiet_refl
      split: prod.split)

lemma quiet_runDevServer: "quiet s s' \<Longrightarrow> quiet s (runDevServer x args opts s')"
  unfolding runDevServer_def Let_def
  by (simp add: quiet_updates quiet_emit quiet_startServer split: option.split)

lemma quiet_nextDev_serve: "quiet s s' \<Longrightarrow> quiet s (nextDev_serve x args opts s')"
  unfolding nextDev_serve_def
  by (simp add: quiet_runDevServer quiet_emit quiet_updates split: option.split)

lemma quiet_nextDev_assign: "quiet s (nextDev_assign args c s)"
  by (simp add: quiet_defs nextDev_assign_def Let_def)

lemma quiet_nextDev_turbo: "quiet s s' \<Longrightarrow> quiet s (nextDev_turbo args s')"
  by (simp add: nextDev_turbo_def quiet_updates)

lemma quiet_nextDev_configLoaded: "quiet s (nextDev_configLoaded x args p a f r s)"
proof (cases r)
  case (Inl e)
  then show ?thesis
    by (simp add: nextDev_configLoaded_def quiet_updates quiet_emit quiet_refl)
next
  case (Inr cu)
  obtain c u where cu: "cu = (c, u)" by (cases cu)
  have s3: "quiet s (nextDev_turbo args (nextDev_assign args c s))"
    by (simp add: quiet_nextDev_turbo quiet_nextDev_assign)
  show ?thesis
    unfolding nextDev_configLoaded_def Inr cu Let_def
    by (simp add: s3 quiet_nextDev_serve quiet_updates quiet_emit)
qed

lemma quiet_nextDev_turboValidated: "quiet s (nextDev_turboValidated x args opts r s)"
  by (cases r) (simp_all add: nextDev_turboValidated_def quiet_nextDev_serve quiet_updates
      quiet_emit quiet_refl)

lemma bystander_nextDev_certificate: "bystander s (nextDev_certificate opts r s)"
  by (cases r) (simp_all add: nextDev_certificate_def bystander_process_exit quiet_bystander
      quiet_startServer quiet_updates quiet_emit quiet_refl)

lemma bystander_nextDev_preflight: "bystander s (nextDev_preflight r s)"
  by (cases r) (simp_all add: nextDev_preflight_def bystander_process_exit quiet_bystander
      quiet_updates quiet_emit quiet_refl)

lemma quiet_on_message: "quiet s (on_message h m s)"
  unfolding on_message_def Let_def
  by (simp add: quiet_updates quiet_emit quiet_refl split: option.split)

lemma quiet_nextDev_ready: "quiet s s' \<Longrightarrow> quiet s (nextDev_ready s')"
  unfolding nextDev_ready_def
  by (simp add: quiet_updates quiet_emit split: pc.split)

lemma bystander_handle:
  "bystander s (handle x (Invoke args) s)"
  "bystander s (handle x (FileExistsSettled b) s)"
  "bystander s (handle x (ConfigSettled rc) s)"
  "bystander s (handle x (TurboSettled rt) s)"
  "bystander s (handle x (CertificateSettled rk) s)"
  "bystander s (handle x (PreflightSettled rp) s)"
  "bystander s (handle x (WorkerMessage h m) s)"
proof -
  note b = quiet_bystander [OF quiet_refl]
  show "bystander s (handle x (Invoke args) s)"
    by (cases "nextDevAt s") (simp_all add: bystander_nextDev_start b)
  show "bystander s (handle x (FileExistsSettled b) s)"
    by (cases "nextDevAt s") (simp_all add: bystander_nextDev_dirChecked b)
  show "bystander s (handle x (ConfigSettled rc) s)"
    by (cases "nextDevAt s") (simp_all add: quiet_bystander quiet_nextDev_configLoaded b)
  show "bystander s (handle x (TurboSettled rt) s)"
    by (cases "nextDevAt s") (simp_all add: quiet_bystander quiet_nextDev_turboValidated b)
  show "bystander s (handle x (CertificateSettled rk) s)"
    by (cases "nextDevAt s") (simp_all add: bystander_nextDev_certificate b)
  show "bystander s (handle x (PreflightSettled rp) s)"
    by (cases "nextDevAt s") (simp_all add: bystander_nextDev_preflight b)
  show "bystander s (handle x (WorkerMessage h m) s)"
    by (simp add: quiet_bystander quiet_nextDev_ready quiet_on_message)
qed

lemma on_exit_cases:
  "on_exit x env h code signal s = s
   \<or> on_exit x env h code signal s = startServer (w_options (workers s ! h)) s
   \<or> (\<not> sessionStopHandled s \<and> on_exit x env h code signal s = handleSessionStop env signal s)"
  by (simp add: on_exit_def)

subsection \<open>Invariants of the coordinator's state\<close>

lemma coordinator_only_kill_trace: "filter coordinator_only (kill_trace signal s) = []"
  by (simp add: kill_trace_def split: option.split)

lemma exits_kill_trace: "filter is_ProcessExit (kill_trace signal s) = []"
  by (simp add: kill_trace_def split: option.split)

lemma record_coordinator_only: "is_TelemetryRecord e \<Longrightarrow> coordinator_only e"
  by (cases e) simp_all

lemma upload_coordinator_only: "is_UploadTrace e \<Longrightarrow> coordinator_only e"
  by (cases e) simp_all

lemma filter_record_stopped:
  "filter is_TelemetryRecord (filter coordinator_only t) = filter is_TelemetryRecord t"
  by (induction t) (auto dest: record_coordinator_only)

lemma filter_upload_stopped:
  "filter is_UploadTrace (filter coordinator_only t) = filter is_UploadTrace t"
  by (induction t) (auto dest: upload_coordinator_only)

lemma count_write_stopped:
  "count_list (filter coordinator_only t) (StdoutWrite w) = count_list t (StdoutWrite w)"
  by (induction t) auto

lemma once_stopped: "once (filter coordinator_only t) = once t"
  unfolding once_def filter_record_stopped filter_upload_stopped count_write_stopped ..

lemma once_stop_run: "stop_run ex0 t ex \<Longrightarrow> once t"
  using stop_run_facts(3,4,5) by (simp add: once_def)

lemma inv_stop_same: "inv_stop s \<Longrightarrow> same_stop s s' \<Longrightarrow> inv_stop s'"
  by (simp add: inv_stop_def same_stop_def)

lemma inv_stop_handleSessionStop:
  assumes "inv_stop s"
  shows "inv_stop (handleSessionStop env signal s)"
proof (cases "sessionStopHandled s")
  case True
  have "same_stop s (forward_kill signal s)"
    by (simp add: same_stop_def stopped_def forward_kill_eq coordinator_only_kill_trace)
  with assms True show ?thesis by (simp add: handleSessionStop_later inv_stop_same)
next
  case False
  with assms have z: "stopAwaiting s = 0" "stopped s = []" by (simp_all add: inv_stop_def)
  show ?thesis
  proof (cases "requireThrows env \<or> config s \<noteq> None")
    case True
    from handleSessionStop_completes [OF False True, of signal]
    obtain t ex where a: "handleSessionStop env signal s
        = s\<lparr>sessionStopHandled := True, effects := effects s @ kill_trace signal s @ t, exited := ex\<rparr>"
        "stop_run (exited s) t ex" by blast
    have "stopped (handleSessionStop env signal s) = filter coordinator_only t"
      unfolding a(1) using z(2) by (simp add: stopped_def coordinator_only_kill_trace)
    moreover have "once (filter coordinator_only t)"
      using once_stop_run [OF a(2)] by (simp add: once_stopped)
    moreover have "stopAwaiting (handleSessionStop env signal s) = 0"
      "sessionStopHandled (handleSessionStop env signal s)"
      unfolding a(1) using z(1) by simp_all
    ultimately show ?thesis by (simp add: inv_stop_def)
  next
    case nt: False
    then have e: "handleSessionStop env signal s
        = s\<lparr>sessionStopHandled := True, stopAwaiting := Suc (stopAwaiting s),
            effects := effects s @ kill_trace signal s @ [LoadConfig (dir s)]\<rparr>"
      using False by (simp add: handleSessionStop_suspends)
    have "stopped (handleSessionStop env signal s) = []"
      unfolding e using z(2) by (simp add: stopped_def coordinator_only_kill_trace)
    moreover have "stopAwaiting (handleSessionStop env signal s) = 1"
      "sessionStopHandled (handleSessionStop env signal s)"
      unfolding e using z(1) by simp_all
    ultimately show ?thesis by (simp add: inv_stop_def once_def)
  qed
qed

lemma inv_stop_resume:
  assumes "inv_stop s" and "0 < stopAwaiting s"
  shows "inv_stop (handleSessionStop_resume env r (s\<lparr>stopAwaiting := stopAwaiting s - 1\<rparr>))"
proof -
  from assms have z: "stopAwaiting s = 1" "sessionStopHandled s" "stopped s = []"
    by (auto simp: inv_stop_def)
  let ?s1 = "s\<lparr>stopAwaiting := stopAwaiting s - 1\<rparr>"
  obtain cfg t ex where a: "handleSessionStop_resume env r ?s1
        = ?s1\<lparr>config := cfg, effects := effects ?s1 @ t, exited := ex\<rparr>"
      "stop_run (exited ?s1) t ex"
    using handleSessionStop_resume_shape by blast
  have "stopped (handleSessionStop_resume env r ?s1) = filter coordinator_only t"
    unfolding a(1) using z(3) by (simp add: stopped_def)
  moreover have "once (filter coordinator_only t)"
    using once_stop_run [OF a(2)] by (simp add: once_stopped)
  moreover have "stopAwaiting (handleSessionStop_resume env r ?s1) = 0"
    "sessionStopHandled (handleSessionStop_resume env r ?s1)"
    unfolding a(1) using z(1,2) by simp_all
  ultimately show ?thesis by (simp add: inv_stop_def)
qed

lemma same_stop_refl: "same_stop s s"
  by (simp add: same_stop_def)

lemma same_stop_startServer: "same_stop s (startServer opts s)"
  using quiet_startServer [OF quiet_refl] by (simp add: quiet_def)

lemma inv_stop_on_exit: "inv_stop s \<Longrightarrow> inv_stop (on_exit x env h code signal s)"
proof -
  assume i: "inv_stop s"
  from on_exit_cases [of x env h code signal s] show ?thesis
  proof (elim disjE conjE)
    assume "on_exit x env h code signal s = s"
    then show ?thesis using i by simp
  next
    assume "on_exit x env h code signal s = startServer (w_options (workers s ! h)) s"
    then show ?thesis using inv_stop_same [OF i same_stop_startServer] by simp
  next
    assume "on_exit x env h code signal s = handleSessionStop env signal s"
    then show ?thesis using inv_stop_handleSessionStop [OF i] by simp
  qed
qed

lemma inv_stop_handle: "inv_stop s \<Longrightarrow> inv_stop (handle x e s)"
proof (cases e)
  case (Signal name env)
  assume "inv_stop s"
  then show ?thesis using Signal by (simp add: inv_stop_handleSessionStop)
next
  case (StopConfigSettled r env)
  assume "inv_stop s"
  then show ?thesis using StopConfigSettled inv_stop_resume [of s env r] by simp
next
  case (WorkerExit h code signal env)
  assume "inv_stop s"
  then show ?thesis using WorkerExit by (simp add: inv_stop_on_exit)
qed (use bystander_handle [of s x] in \<open>auto simp: bystander_def intro: inv_stop_same\<close>)

lemma inv_stop_step: "inv_stop s \<Longrightarrow> inv_stop (step x e s)"
  by (simp add: step_def inv_stop_handle)

lemma inv_stop_run: "inv_stop s \<Longrightarrow> inv_stop (run x es s)"
  by (induction es arbitrary: s) (simp_all add: inv_stop_step)

lemma inv_stop_init: "inv_stop (init_session t0 env0)"
  by (simp add: inv_stop_def init_session_def stopped_def once_def)

subsection \<open>What the coordinator leaves alone\<close>

lemma coordinator_effect_kill_trace: "list_all coordinator_effect (kill_trace signal s)"
  by (simp add: kill_trace_def split: option.split)

lemma handleSessionStop_frame:
  "\<exists>b n t ex. handleSessionStop env signal s
      = s\<lparr>sessionStopHandled := b, stopAwaiting := n, effects := effects s @ t, exited := ex\<rparr>
    \<and> list_all coordinator_effect t"
proof (cases "sessionStopHandled s")
  case True
  have "handleSessionStop env signal s
      = s\<lparr>sessionStopHandled := sessionStopHandled s, stopAwaiting := stopAwaiting s,
          effects := effects s @ kill_trace signal s, exited := exited s\<rparr>"
    using True by (simp add: handleSessionStop_later forward_kill_eq)
  then show ?thesis using coordinator_effect_kill_trace by blast
next
  case False
  show ?thesis
  proof (cases "requireThrows env \<or> config s \<noteq> None")
    case True
    from handleSessionStop_completes [OF False True, of signal]
    obtain t ex where a: "handleSessionStop env signal s
        = s\<lparr>sessionStopHandled := True, effects := effects s @ kill_trace signal s @ t, exited := ex\<rparr>"
        "stop_run (exited s) t ex" by blast
    have "handleSessionStop env signal s
        = s\<lparr>sessionStopHandled := True, stopAwaiting := stopAwaiting s,
            effects := effects s @ (kill_trace signal s @ t), exited := ex\<rparr>"
      unfolding a(1) by simp
    moreover have "list_all coordinator_effect (kill_trace signal s @ t)"
      using coordinator_effect_kill_trace stop_run_facts(2) [OF a(2)] by simp
    ultimately show ?thesis by blast
  next
    case nt: False
    then have "handleSessionStop env signal s
        = s\<lparr>sessionStopHandled := True, stopAwaiting := Suc (stopAwaiting s),
            effects := effects s @ (kill_trace signal s @ [LoadConfig (dir s)]), exited := exited s\<rparr>"
      using False by (simp add: handleSessionStop_suspends)
    moreover have "list_all coordinator_effect (kill_trace signal s @ [LoadConfig (dir s)])"
      using coordinator_effect_kill_trace by simp
    ultimately show ?thesis by blast
  qed
qed

lemma handleSessionStop_resume_frame:
  "\<exists>cfg t ex. handleSessionStop_resume env r s
      = s\<lparr>config := cfg, effects := effects s @ t, exited := ex\<rparr>
    \<and> list_all coordinator_effect t \<and> (cfg = config s \<or> cfg \<noteq> None)"
  using handleSessionStop_resume_shape [of env r s] stop_run_facts(2) by blast

lemma stop_run_exits:
  assumes "stop_run ex0 t ex"
  shows "(ex = Some 0 \<and> length (filter is_ProcessExit t) = 1)
       \<or> (ex = ex0 \<and> filter is_ProcessExit t = [])"
proof -
  from stop_run_outcome [OF assms] show ?thesis
  proof (elim disjE conjE exE)
    fix pre assume h: "ex = Some 0" "t = pre @ exit_tail"
    then have "1 \<le> length (filter is_ProcessExit t)" by (simp add: exit_tail_def)
    with stop_run_facts(6) [OF assms] h(1) show ?thesis by simp
  next
    assume "ex = ex0" "filter is_ProcessExit t = []"
    then show ?thesis by simp
  qed
qed

lemma exits_once_stop_run:
  assumes "effects s' = effects s @ k @ t" and "exited s' = ex"
    and "filter is_ProcessExit k = []" and "stop_run (exited s) t ex"
  shows "exits_once s s'"
  using stop_run_exits [OF assms(4)] assms(1,2,3)
  by (auto simp: exits_once_def exit_count_def)

lemma exits_once_handleSessionStop: "exits_once s (handleSessionStop env signal s)"
proof (cases "sessionStopHandled s")
  case True
  then show ?thesis
    by (simp add: handleSessionStop_later forward_kill_eq exits_once_def exit_count_def
        exits_kill_trace)
next
  case False
  show ?thesis
  proof (cases "requireThrows env \<or> config s \<noteq> None")
    case True
    from handleSessionStop_completes [OF False True, of signal]
    obtain t ex where a: "handleSessionStop env signal s
        = s\<lparr>sessionStopHandled := True, effects := effects s @ kill_trace signal s @ t, exited := ex\<rparr>"
        "stop_run (exited s) t ex" by blast
    show ?thesis
      by (rule exits_once_stop_run [where k = "kill_trace signal s" and t = t and ex = ex])
        (simp_all add: a exits_kill_trace)
  next
    case nt: False
    then show ?thesis
      using False by (simp add: handleSessionStop_suspends exits_once_def exit_count_def
          exits_kill_trace)
  qed
qed

lemma exits_once_resume:
  "exits_once s (handleSessionStop_resume env r (s\<lparr>stopAwaiting := n\<rparr>))"
proof -
  let ?s1 = "s\<lparr>stopAwaiting := n\<rparr>"
  obtain cfg t ex where a: "handleSessionStop_resume env r ?s1
        = ?s1\<lparr>config := cfg, effects := effects ?s1 @ t, exited := ex\<rparr>"
      "stop_run (exited ?s1) t ex"
    using handleSessionStop_resume_shape by blast
  show ?thesis
    by (rule exits_once_stop_run [where k = "[]" and t = t and ex = ex])
      (use a in simp_all)
qed

lemma exits_once_refl: "exits_once s s"
  by (simp add: exits_once_def)

lemma exits_once_on_exit: "exits_once s (on_exit x env h code signal s)"
proof -
  from on_exit_cases [of x env h code signal s] show ?thesis
  proof (elim disjE conjE)
    assume "on_exit x env h code signal s = s"
    then show ?thesis by (simp add: exits_once_refl)
  next
    assume "on_exit x env h code signal s = startServer (w_options (workers s ! h)) s"
    then show ?thesis
      using quiet_bystander [OF quiet_startServer [OF quiet_refl]] by (simp add: bystander_def)
  next
    assume "on_exit x env h code signal s = handleSessionStop env signal s"
    then show ?thesis by (simp add: exits_once_handleSessionStop)
  qed
qed

lemma exits_once_handle: "exits_once s (handle x e s)"
proof (cases e)
  case (Signal name env)
  then show ?thesis by (simp add: exits_once_handleSessionStop exits_once_refl)
next
  case (StopConfigSettled r env)
  then show ?thesis by (simp add: exits_once_resume exits_once_refl)
next
  case (WorkerExit h code signal env)
  then show ?thesis by (simp add: exits_once_on_exit)
qed (use bystander_handle [of s x] in \<open>auto simp: bystander_def\<close>)

lemma inv_exit_step: "inv_exit s \<Longrightarrow> inv_exit (step x e s)"
  using exits_once_handle [of s x e]
  by (auto simp: step_def inv_exit_def exits_once_def)

lemma inv_exit_run: "inv_exit s \<Longrightarrow> inv_exit (run x es s)"
  by (induction es arbitrary: s) (simp_all add: inv_exit_step)

lemma inv_exit_init: "inv_exit (init_session t0 env0)"
  by (simp add: inv_exit_def exit_count_def init_session_def)

lemma inv_config_handleSessionStop: "inv_config s \<Longrightarrow> inv_config (handleSessionStop env signal s)"
proof -
  assume i: "inv_config s"
  obtain b n t ex where "handleSessionStop env signal s
      = s\<lparr>sessionStopHandled := b, stopAwaiting := n, effects := effects s @ t, exited := ex\<rparr>"
    using handleSessionStop_frame by blast
  then show ?thesis using i by (simp add: inv_config_def)
qed

lemma inv_config_resume:
  "inv_config s \<Longrightarrow> inv_config (handleSessionStop_resume env r (s\<lparr>stopAwaiting := n\<rparr>))"
proof -
  assume i: "inv_config s"
  let ?s1 = "s\<lparr>stopAwaiting := n\<rparr>"
  obtain cfg t ex where a: "handleSessionStop_resume env r ?s1
        = ?s1\<lparr>config := cfg, effects := effects ?s1 @ t, exited := ex\<rparr>"
      "cfg = config ?s1 \<or> cfg \<noteq> None"
    using handleSessionStop_resume_frame by blast
  show ?thesis unfolding a(1) using i a(2) by (auto simp: inv_config_def)
qed

lemma inv_config_on_exit: "inv_config s \<Longrightarrow> inv_config (on_exit x env h code signal s)"
proof -
  assume i: "inv_config s"
  from on_exit_cases [of x env h code signal s] show ?thesis
  proof (elim disjE conjE)
    assume "on_exit x env h code signal s = s"
    then show ?thesis using i by simp
  next
    assume "on_exit x env h code signal s = startServer (w_options (workers s ! h)) s"
    then show ?thesis
      using i quiet_startServer [OF quiet_refl, of s] by (simp add: quiet_def)
  next
    assume "on_exit x env h code signal s = handleSessionStop env signal s"
    then show ?thesis using i by (simp add: inv_config_handleSessionStop)
  qed
qed

lemma inv_config_handle: "inv_config s \<Longrightarrow> inv_config (handle x e s)"
proof (cases e)
  case (Signal name env)
  assume "inv_config s"
  then show ?thesis using Signal by (simp add: inv_config_handleSessionStop)
next
  case (StopConfigSettled r env)
  assume "inv_config s"
  then show ?thesis using StopConfigSettled by (simp add: inv_config_resume)
next
  case (WorkerExit h code signal env)
  assume "inv_config s"
  then show ?thesis using WorkerExit by (simp add: inv_config_on_exit)
qed (use bystander_handle [of s x] in \<open>auto simp: bystander_def\<close>)

lemma inv_config_step: "inv_config s \<Longrightarrow> inv_config (step x e s)"
  by (simp add: step_def inv_config_handle)

lemma inv_config_run: "inv_config s \<Longrightarrow> inv_config (run x es s)"
  by (induction es arbitrary: s) (simp_all add: inv_config_step)

lemma inv_config_init: "inv_config (init_session t0 env0)"
  by (simp add: inv_config_def init_session_def)

subsection \<open>A run of the coordinator in which nothing throws\<close>

lemma added_append: "effects s' = effects s @ t \<Longrightarrow> added s s' = t"
  by (simp add: added_def)

lemma stop_telemetry_no_throw:
  assumes "no_throw env s"
  shows "\<exists>r. stop_telemetry env s = s\<lparr>effects := effects s @ [TelemetryRecord r, TelemetryFlush (dir s)]\<rparr>"
proof -
  have r: "stop_record env p a s
      = s\<lparr>effects := effects s @ [TelemetryRecord
            \<lparr>cliCommand = ''dev'', turboFlag = isTurboSession s,
             durationMilliseconds = now env - sessionStarted s,
             ev_pagesDir = p, ev_appDir = a\<rparr>, TelemetryFlush (dir s)]\<rparr>" for p a
    using assms by (simp add: no_throw_def stop_record_def emit_def)
  have "\<exists>p a. stop_telemetry env s = stop_record env p a s"
  proof (cases "pagesDirGlobal env = None \<or> appDirGlobal env = None")
    case True
    with assms obtain pr ar where "findPagesDir env = Inr (pr, ar)"
      by (cases "findPagesDir env") (auto simp: no_throw_def)
    with True assms have "stop_telemetry env s = stop_record env (truthy_str pr) (truthy_str ar) s"
      by (auto simp: stop_telemetry_def no_throw_def)
    then show ?thesis by blast
  next
    case False
    with assms have "stop_telemetry env s
        = stop_record env (truthy_str (pagesDirGlobal env)) (truthy_str (appDirGlobal env)) s"
      by (auto simp: stop_telemetry_def no_throw_def)
    then show ?thesis by blast
  qed
  then show ?thesis using r by metis
qed

lemma stop_upload_no_throw:
  assumes "\<not> uploadTraceThrows env" and "config s \<noteq> None"
  shows "\<exists>t. stop_upload env s = s\<lparr>effects := effects s @ t @ exit_tail, exited := Some 0\<rparr>
     \<and> (if truthy_str (traceUploadUrl s) then \<exists>u. t = [UploadTrace u] else t = [])"
proof (cases "truthy_str (traceUploadUrl s)")
  case False
  then have "stop_upload env s = s\<lparr>effects := effects s @ [] @ exit_tail, exited := Some 0\<rparr>"
    by (cases "traceUploadUrl s") (simp_all add: stop_upload_def stop_exit_eq)
  with False show ?thesis by auto
next
  case True
  then obtain url where u: "traceUploadUrl s = Some url" "url \<noteq> []"
    by (cases "traceUploadUrl s") simp_all
  from assms obtain c where c: "config s = Some c" by auto
  let ?u = "\<lparr>up_traceUploadUrl = url, up_mode = ''dev'', up_isTurboSession = isTurboSession s,
             up_projectDir = dir s, up_distDir = distDir c\<rparr>"
  have "stop_upload env s = s\<lparr>effects := effects s @ [UploadTrace ?u] @ exit_tail, exited := Some 0\<rparr>"
    using u c assms(1) by (simp add: stop_upload_def stop_exit_eq emit_def)
  moreover have "if truthy_str (traceUploadUrl s) then \<exists>v. [UploadTrace ?u] = [UploadTrace v]
      else [UploadTrace ?u] = []"
    using True by simp
  ultimately show ?thesis by blast
qed

lemma performed_sequence:
  assumes "if truthy_str url then \<exists>u. t = [UploadTrace u] else t = []"
    and "filter is_TelemetryRecord k = []" and "filter is_UploadTrace k = []"
    and "\<forall>w. count_list k (StdoutWrite w) = 0" and "count_list k (ProcessExit 0) = 0"
  shows "performed url (k @ [TelemetryRecord r, TelemetryFlush d] @ t @ exit_tail)"
  using assms
  by (cases "truthy_str url")
    (auto simp: performed_def exit_tail_def show_cursor_neq_newline show_cursor_neq_newline [symmetric])

lemma stop_finish_no_throw:
  assumes "no_throw env s" and "config s \<noteq> None"
  shows "\<exists>r t. stop_upload env (stop_telemetry env s)
        = s\<lparr>effects := effects s @ [TelemetryRecord r, TelemetryFlush (dir s)] @ t @ exit_tail,
            exited := Some 0\<rparr>
     \<and> (if truthy_str (traceUploadUrl s) then \<exists>u. t = [UploadTrace u] else t = [])"
proof -
  obtain r where r: "stop_telemetry env s
      = s\<lparr>effects := effects s @ [TelemetryRecord r, TelemetryFlush (dir s)]\<rparr>"
    using stop_telemetry_no_throw [OF assms(1)] by blast
  let ?s1 = "s\<lparr>effects := effects s @ [TelemetryRecord r, TelemetryFlush (dir s)]\<rparr>"
  have "\<not> uploadTraceThrows env" using assms(1) by (simp add: no_throw_def)
  moreover have "config ?s1 \<noteq> None" using assms(2) by simp
  ultimately obtain t where t: "stop_upload env ?s1
        = ?s1\<lparr>effects := effects ?s1 @ t @ exit_tail, exited := Some 0\<rparr>"
      "if truthy_str (traceUploadUrl ?s1) then \<exists>u. t = [UploadTrace u] else t = []"
    using stop_upload_no_throw by blast
  have "stop_upload env (stop_telemetry env s)
      = s\<lparr>effects := effects s @ [TelemetryRecord r, TelemetryFlush (dir s)] @ t @ exit_tail,
          exited := Some 0\<rparr>"
    unfolding r t(1) by simp
  moreover have "if truthy_str (traceUploadUrl s) then \<exists>u. t = [UploadTrace u] else t = []"
    using t(2) by simp
  ultimately show ?thesis by blast
qed

lemma kill_trace_counts:
  "filter is_TelemetryRecord (kill_trace signal s) = []"
  "filter is_UploadTrace (kill_trace signal s) = []"
  "\<forall>w. count_list (kill_trace signal s) (StdoutWrite w) = 0"
  "count_list (kill_trace signal s) (ProcessExit 0) = 0"
  by (simp_all add: kill_trace_def split: option.split)

lemma handleSessionStop_performs:
  assumes "\<not> sessionStopHandled s" and "config s \<noteq> None" and "no_throw env s"
  shows "performed (traceUploadUrl s) (added s (handleSessionStop env signal s))
     \<and> exited (handleSessionStop env signal s) = Some 0"
proof -
  let ?s2 = "s\<lparr>effects := effects s @ kill_trace signal s, sessionStopHandled := True\<rparr>"
  have h: "handleSessionStop env signal s = stop_upload env (stop_telemetry env ?s2)"
    using assms by (auto simp: handleSessionStop_def Let_def forward_kill_eq no_throw_def)
  have "no_throw env ?s2" "config ?s2 \<noteq> None" using assms by (simp_all add: no_throw_def)
  from stop_finish_no_throw [OF this] obtain r t where
    a: "stop_upload env (stop_telemetry env ?s2)
        = ?s2\<lparr>effects := effects ?s2 @ [TelemetryRecord r, TelemetryFlush (dir ?s2)] @ t @ exit_tail,
            exited := Some 0\<rparr>"
    and b: "if truthy_str (traceUploadUrl ?s2) then \<exists>u. t = [UploadTrace u] else t = []"
    by blast
  have e: "effects (handleSessionStop env signal s)
      = effects s @ (kill_trace signal s @ [TelemetryRecord r, TelemetryFlush (dir s)] @ t @ exit_tail)"
    unfolding h a by simp
  have "performed (traceUploadUrl s)
      (kill_trace signal s @ [TelemetryRecord r, TelemetryFlush (dir s)] @ t @ exit_tail)"
    by (rule performed_sequence) (use b kill_trace_counts in simp_all)
  then show ?thesis using added_append [OF e] unfolding h a by simp
qed

lemma handleSessionStop_resume_performs:
  assumes "no_throw env s"
  shows "performed (traceUploadUrl s) (added s (handleSessionStop_resume env (Inr c) s))
     \<and> exited (handleSessionStop_resume env (Inr c) s) = Some 0"
proof -
  let ?s1 = "s\<lparr>config := Some c\<rparr>"
  have "no_throw env ?s1" "config ?s1 \<noteq> None" using assms by (simp_all add: no_throw_def)
  from stop_finish_no_throw [OF this] obtain r t where
    a: "stop_upload env (stop_telemetry env ?s1)
        = ?s1\<lparr>effects := effects ?s1 @ [TelemetryRecord r, TelemetryFlush (dir ?s1)] @ t @ exit_tail,
            exited := Some 0\<rparr>"
    and b: "if truthy_str (traceUploadUrl ?s1) then \<exists>u. t = [UploadTrace u] else t = []"
    by blast
  have h: "handleSessionStop_resume env (Inr c) s = stop_upload env (stop_telemetry env ?s1)"
    by (simp add: handleSessionStop_resume_def)
  have e: "effects (handleSessionStop_resume env (Inr c) s)
      = effects s @ ([] @ [TelemetryRecord r, TelemetryFlush (dir s)] @ t @ exit_tail)"
    unfolding h a by simp
  have "performed (traceUploadUrl s) ([] @ [TelemetryRecord r, TelemetryFlush (dir s)] @ t @ exit_tail)"
    by (rule performed_sequence) (use b in simp_all)
  then show ?thesis using added_append [OF e] unfolding h a by simp
qed

subsection \<open>The handlers of one worker\<close>

lemma on_message_ready:
  assumes "h < length (workers s)" and "isWorkerReady m" and "child s = Some c"
  shows "on_message h m s = emit (Send c (w_options (workers s ! h))) s"
  using assms by (simp add: on_message_def isWorkerReady_def Let_def)

lemma on_message_serverReady:
  assumes "h < length (workers s)" and "isServerReady m"
  shows "on_message h m s =
     (if resolved (workers s ! h) then s
      else emit (Resolve h) (s\<lparr>workers := (workers s)[h := (workers s ! h)\<lparr>resolved := True\<rparr>]\<rparr>))"
  using assms by (simp add: on_message_def isServerReady_def Let_def)

lemma on_message_other:
  assumes "\<not> isWorkerReady m" and "\<not> isServerReady m"
  shows "on_message h m s = s"
  using assms by (auto simp: on_message_def isWorkerReady_def isServerReady_def Let_def)

lemma ready_not_serverReady: "isWorkerReady m \<Longrightarrow> \<not> isServerReady m"
  by (simp add: isWorkerReady_def isServerReady_def)

lemma nextDev_ready_cases:
  "nextDev_ready s = s \<or> nextDev_ready s = (emit (Preflight False) s)\<lparr>nextDevAt := AwaitPreflight\<rparr>"
  by (simp add: nextDev_ready_def split: pc.split)

text \<open>One message on the channel of handle \<open>h\<close>, while \<open>h\<close> is the tracked worker.\<close>

lemma message_step:
  assumes "h < length (workers s)" and "child s = Some h" and "exited s = None"
  shows "\<exists>t. effects (step x (WorkerMessage h m) s) = effects s @ t
     \<and> filter is_Send t = (if isWorkerReady m then [Send h (w_options (workers s ! h))] else [])
     \<and> count_list t (Resolve h) = (if isServerReady m \<and> \<not> resolved (workers s ! h) then 1 else 0)
     \<and> filter noise t = []
     \<and> exited (step x (WorkerMessage h m) s) = None
     \<and> child (step x (WorkerMessage h m) s) = Some h
     \<and> length (workers (step x (WorkerMessage h m) s)) = length (workers s)
     \<and> w_options (workers (step x (WorkerMessage h m) s) ! h) = w_options (workers s ! h)
     \<and> resolved (workers (step x (WorkerMessage h m) s) ! h)
         = (resolved (workers s ! h) \<or> isServerReady m)"
proof -
  let ?P = "\<lambda>s1 t. effects s1 = effects s @ t
     \<and> filter is_Send t = (if isWorkerReady m then [Send h (w_options (workers s ! h))] else [])
     \<and> count_list t (Resolve h) = (if isServerReady m \<and> \<not> resolved (workers s ! h) then 1 else 0)
     \<and> filter noise t = []
     \<and> exited s1 = None \<and> child s1 = Some h \<and> length (workers s1) = length (workers s)
     \<and> w_options (workers s1 ! h) = w_options (workers s ! h)
     \<and> resolved (workers s1 ! h) = (resolved (workers s ! h) \<or> isServerReady m)"
  have m: "\<exists>t. ?P (on_message h m s) t"
  proof (cases "isWorkerReady m")
    case True
    have "?P (on_message h m s) [Send h (w_options (workers s ! h))]"
      using assms True ready_not_serverReady [OF True]
      by (simp add: on_message_ready emit_def)
    then show ?thesis by blast
  next
    case nr: False
    show ?thesis
    proof (cases "isServerReady m")
      case True
      show ?thesis
      proof (cases "resolved (workers s ! h)")
        case r: True
        have "?P (on_message h m s) []"
          using assms nr True r by (simp add: on_message_serverReady)
        then show ?thesis by blast
      next
        case r: False
        have "?P (on_message h m s) [Resolve h]"
          using assms nr True r by (simp add: on_message_serverReady emit_def)
        then show ?thesis by blast
      qed
    next
      case False
      have "?P (on_message h m s) []"
        using assms nr False by (simp add: on_message_other)
      then show ?thesis by blast
    qed
  qed
  then obtain t where t: "?P (on_message h m s) t" by blast
  let ?s1 = "on_message h m s"
  have st: "step x (WorkerMessage h m) s = nextDev_ready ?s1"
    using assms(3) by (simp add: step_def)
  from nextDev_ready_cases [of ?s1] show ?thesis
  proof
    assume "nextDev_ready ?s1 = ?s1"
    then show ?thesis using t st by auto
  next
    assume a: "nextDev_ready ?s1 = (emit (Preflight False) ?s1)\<lparr>nextDevAt := AwaitPreflight\<rparr>"
    have "?P (nextDev_ready ?s1) (t @ [Preflight False])"
      unfolding a using t by (simp add: emit_def)
    then show ?thesis unfolding st by blast
  qed
qed

lemma messages_run:
  assumes "h < length (workers s)" and "child s = Some h" and "exited s = None"
  shows "\<exists>t. effects (run x (map (WorkerMessage h) msgs) s) = effects s @ t
     \<and> filter is_Send t
         = replicate (length (filter isWorkerReady msgs)) (Send h (w_options (workers s ! h)))
     \<and> count_list t (Resolve h)
         = (if \<not> resolved (workers s ! h) \<and> list_ex isServerReady msgs then 1 else 0)
     \<and> filter noise t = []
     \<and> exited (run x (map (WorkerMessage h) msgs) s) = None"
  using assms
proof (induction msgs arbitrary: s)
  case Nil
  then show ?case by simp
next
  case (Cons m msgs)
  let ?s1 = "step x (WorkerMessage h m) s"
  from message_step [OF Cons.prems, of x m] obtain t1 where
    t1: "effects ?s1 = effects s @ t1"
      "filter is_Send t1 = (if isWorkerReady m then [Send h (w_options (workers s ! h))] else [])"
      "count_list t1 (Resolve h) = (if isServerReady m \<and> \<not> resolved (workers s ! h) then 1 else 0)"
      "filter noise t1 = []"
      "exited ?s1 = None" "child ?s1 = Some h" "length (workers ?s1) = length (workers s)"
      "w_options (workers ?s1 ! h) = w_options (workers s ! h)"
      "resolved (workers ?s1 ! h) = (resolved (workers s ! h) \<or> isServerReady m)"
    by blast
  have "h < length (workers ?s1)" using t1(7) Cons.prems(1) by simp
  from Cons.IH [OF this t1(6) t1(5)] obtain t2 where
    t2: "effects (run x (map (WorkerMessage h) msgs) ?s1) = effects ?s1 @ t2"
      "filter is_Send t2
         = replicate (length (filter isWorkerReady msgs)) (Send h (w_options (workers ?s1 ! h)))"
      "count_list t2 (Resolve h)
         = (if \<not> resolved (workers ?s1 ! h) \<and> list_ex isServerReady msgs then 1 else 0)"
      "filter noise t2 = []"
      "exited (run x (map (WorkerMessage h) msgs) ?s1) = None"
    by blast
  have "effects (run x (map (WorkerMessage h) (m # msgs)) s) = effects s @ (t1 @ t2)"
    using t1(1) t2(1) by simp
  moreover have "filter is_Send (t1 @ t2)
      = replicate (length (filter isWorkerReady (m # msgs))) (Send h (w_options (workers s ! h)))"
    using t1(2) t2(2) t1(8) by simp
  moreover have "count_list (t1 @ t2) (Resolve h)
      = (if \<not> resolved (workers s ! h) \<and> list_ex isServerReady (m # msgs) then 1 else 0)"
    using t1(3) t2(3) t1(9) by auto
  moreover have "filter noise (t1 @ t2) = []" using t1(4) t2(4) by simp
  moreover have "exited (run x (map (WorkerMessage h) (m # msgs)) s) = None" using t2(5) by simp
  ultimately show ?case by blast
qed

subsection \<open>The options of the workers\<close>

lemma delivered_append: "delivered (xs @ ys) = delivered xs @ delivered ys"
  by (induction xs rule: delivered.induct) simp_all

lemma delivered_coordinator: "list_all coordinator_effect t \<Longrightarrow> delivered t = []"
  by (induction t rule: delivered.induct) simp_all

lemma certificate_coordinator: "list_all coordinator_effect t \<Longrightarrow> filter is_CreateCertificate t = []"
proof (induction t)
  case Nil
  then show ?case by simp
next
  case (Cons e t)
  then show ?case by (cases e) simp_all
qed

lemma inv_launchI:
  assumes "before_spawn (nextDevAt s) \<longrightarrow> workers s = []"
    and "workers s = [] \<longrightarrow> delivered (effects s) = []"
    and "early (nextDevAt s) \<longrightarrow> certificates s = 0"
    and "certificates s \<le> 1"
    and "\<forall>w\<in>set (workers s). w_options w = w_options (workers s ! 0)"
    and "\<forall>opts\<in>set (delivered (effects s)). opts = w_options (workers s ! 0)"
  shows "inv_launch s"
  using assms unfolding inv_launch_def by blast

lemma inv_launch_same:
  assumes "inv_launch s"
    and "before_spawn (nextDevAt s') \<longrightarrow> before_spawn (nextDevAt s)"
    and "early (nextDevAt s') \<longrightarrow> early (nextDevAt s)"
    and "workers s' = workers s" and "delivered (effects s') = delivered (effects s)"
    and "certificates s' = certificates s"
  shows "inv_launch s'"
  using assms unfolding inv_launch_def by simp

lemma inv_launch_emit:
  assumes "inv_launch s" and "\<not> is_Send e" and "\<not> is_CreateCertificate e"
  shows "inv_launch (emit e s)"
proof -
  have "delivered [e] = []" using assms(2) by (cases e) simp_all
  then have "delivered (effects (emit e s)) = delivered (effects s)"
    by (simp add: emit_def delivered_append)
  moreover have "certificates (emit e s) = certificates s"
    using assms(3) by (simp add: emit_def certificates_def)
  ultimately show ?thesis
    by (intro inv_launch_same [OF assms(1)]) (simp_all add: emit_def)
qed

lemma inv_launch_startServer_first:
  assumes "inv_launch s" and "workers s = []" and "delivered (effects s) = []"
  shows "inv_launch ((startServer opts s)\<lparr>nextDevAt := AwaitServerReady h\<rparr>)"
  using assms
  by (simp add: inv_launch_def startServer_def emit_def certificates_def delivered_append Let_def)

lemma inv_launch_startServer_again:
  assumes "inv_launch s" and "h < length (workers s)"
  shows "inv_launch (startServer (w_options (workers s ! h)) s)"
proof -
  have ne: "workers s \<noteq> []" using assms(2) by auto
  then have nb: "\<not> before_spawn (nextDevAt s)" using assms(1) by (auto simp: inv_launch_def)
  then have ne': "\<not> early (nextDevAt s)" by (cases "nextDevAt s") simp_all
  have o: "w_options (workers s ! h) = w_options (workers s ! 0)"
    using assms by (simp add: inv_launch_def)
  have z: "(workers s @ [w]) ! 0 = workers s ! 0" for w using ne by (simp add: nth_append)
  show ?thesis
    using assms(1) nb ne' o z
    by (simp add: inv_launch_def startServer_def emit_def certificates_def delivered_append Let_def)
qed

lemma inv_launch_runDevServer:
  assumes "inv_launch s" and "early (nextDevAt s)"
  shows "inv_launch (runDevServer x args opts s)"
proof -
  have b: "before_spawn (nextDevAt s)" using assms(2) by (cases "nextDevAt s") simp_all
  have w: "workers s = []" "delivered (effects s) = []" "certificates s = 0"
    using assms b by (simp_all add: inv_launch_def)
  let ?s1 = "emit (LogWarn https_warning) s"
  have i1: "inv_launch ?s1" using assms(1) by (simp add: inv_launch_emit)
  have w1: "workers ?s1 = []" "delivered (effects ?s1) = []" "certificates ?s1 = 0"
    using w by (simp_all add: emit_def delivered_append certificates_def)
  have c: "inv_launch ((emit (CreateSelfSignedCertificate hn) ?s1)\<lparr>nextDevAt := AwaitCertificate opts\<rparr>)"
    for hn
    using w1 by (simp add: inv_launch_def emit_def delivered_append certificates_def)
  show ?thesis
    unfolding runDevServer_def Let_def
    using inv_launch_startServer_first [OF assms(1) w(1,2)]
      inv_launch_startServer_first [OF i1 w1(1,2)] c i1
    by (simp split: option.split)
qed

lemma inv_launch_nextDev_serve:
  assumes "inv_launch s" and "early (nextDevAt s)"
  shows "inv_launch (nextDev_serve x args opts s)"
proof -
  have r: "inv_launch ((emit (Rejected e) s)\<lparr>nextDevAt := Finished\<rparr>)" for e
    by (rule inv_launch_same [OF assms(1)])
      (simp_all add: emit_def delivered_append certificates_def)
  have "inv_launch (emit (SetGlobal k2 v2) (emit (SetGlobal k1 v1) s))" for k1 v1 k2 v2
    using assms(1) by (simp add: inv_launch_emit)
  moreover have "early (nextDevAt (emit (SetGlobal k2 v2) (emit (SetGlobal k1 v1) s)))"
    for k1 v1 k2 v2
    using assms(2) by (simp add: emit_def)
  ultimately show ?thesis
    unfolding nextDev_serve_def using r
    by (simp add: inv_launch_runDevServer split: option.split)
qed

lemma inv_launch_nextDev_start:
  assumes "inv_launch s" and "early (nextDevAt s)"
  shows "inv_launch (nextDev_start x args s)"
proof -
  have b: "before_spawn (nextDevAt s)" using assms(2) by (cases "nextDevAt s") simp_all
  show ?thesis
    unfolding nextDev_start_def process_exit_def Let_def
    by (rule inv_launch_same [OF assms(1)])
      (simp_all add: emit_def delivered_append certificates_def assms(2) b)
qed

lemma inv_launch_nextDev_dirChecked:
  assumes "inv_launch s" and "early (nextDevAt s)"
  shows "inv_launch (nextDev_dirChecked x args b s)"
proof -
  have bs: "before_spawn (nextDevAt s)" using assms(2) by (cases "nextDevAt s") simp_all
  show ?thesis
    unfolding nextDev_dirChecked_def printAndExit_def process_exit_def Let_def
    by (rule inv_launch_same [OF assms(1)])
      (simp_all add: emit_def delivered_append certificates_def assms(2) bs split: prod.split)
qed

lemma inv_launch_nextDev_configLoaded:
  assumes "inv_launch s" and "early (nextDevAt s)"
  shows "inv_launch (nextDev_configLoaded x args p a f r s)"
proof (cases r)
  case (Inl e)
  have "inv_launch ((emit (Rejected e) s)\<lparr>nextDevAt := Finished\<rparr>)"
    by (rule inv_launch_same [OF assms(1)])
      (simp_all add: emit_def delivered_append certificates_def)
  then show ?thesis using Inl by (simp add: nextDev_configLoaded_def)
next
  case (Inr cu)
  obtain c u where cu: "cu = (c, u)" by (cases cu)
  have bs: "before_spawn (nextDevAt s)" using assms(2) by (cases "nextDevAt s") simp_all
  let ?s3 = "nextDev_turbo args (nextDev_assign args c s)"
  have f: "nextDevAt ?s3 = nextDevAt s" "workers ?s3 = workers s" "effects ?s3 = effects s"
    by (simp_all add: nextDev_turbo_def nextDev_assign_def Let_def)
  have i3: "inv_launch ?s3"
    by (rule inv_launch_same [OF assms(1)]) (simp_all add: f certificates_def)
  have e3: "early (nextDevAt ?s3)" using assms(2) f(1) by simp
  have t: "inv_launch ((emit (ValidateTurbo opts) ?s3)\<lparr>nextDevAt := AwaitTurbo args opts\<rparr>)" for opts
    by (rule inv_launch_same [OF i3])
      (simp_all add: emit_def delivered_append certificates_def assms(2) f(1) bs)
  show ?thesis
    unfolding nextDev_configLoaded_def Inr cu Let_def
    using t inv_launch_nextDev_serve [OF i3 e3] by simp
qed

lemma inv_launch_nextDev_turboValidated:
  assumes "inv_launch s" and "early (nextDevAt s)"
  shows "inv_launch (nextDev_turboValidated x args opts r s)"
proof (cases r)
  case None
  then show ?thesis using inv_launch_nextDev_serve [OF assms] by (simp add: nextDev_turboValidated_def)
next
  case (Some e)
  have "inv_launch ((emit (Rejected e) s)\<lparr>nextDevAt := Finished\<rparr>)"
    by (rule inv_launch_same [OF assms(1)])
      (simp_all add: emit_def delivered_append certificates_def)
  then show ?thesis using Some by (simp add: nextDev_turboValidated_def)
qed

lemma inv_launch_nextDev_certificate:
  assumes "inv_launch s" and "nextDevAt s = AwaitCertificate o1"
  shows "inv_launch (nextDev_certificate opts r s)"
proof (cases r)
  case (Inl e)
  have "inv_launch (process_exit 1 (emit (ConsoleError e) s))"
    unfolding process_exit_def
    by (rule inv_launch_same [OF assms(1)])
      (simp_all add: emit_def delivered_append certificates_def)
  then show ?thesis using Inl by (simp add: nextDev_certificate_def)
next
  case (Inr c)
  have w: "workers s = []" "delivered (effects s) = []"
    using assms by (simp_all add: inv_launch_def)
  show ?thesis
    using Inr inv_launch_startServer_first [OF assms(1) w] by (simp add: nextDev_certificate_def)
qed

lemma inv_launch_nextDev_preflight: "inv_launch s \<Longrightarrow> inv_launch (nextDev_preflight r s)"
proof (cases r)
  case None
  assume i: "inv_launch s"
  have "inv_launch (s\<lparr>nextDevAt := Finished\<rparr>)"
    by (rule inv_launch_same [OF i]) (simp_all add: certificates_def)
  then show ?thesis using None by (simp add: nextDev_preflight_def)
next
  case (Some e)
  assume i: "inv_launch s"
  have "inv_launch (process_exit 1 (emit (ConsoleError e) s))"
    unfolding process_exit_def
    by (rule inv_launch_same [OF i])
      (simp_all add: emit_def delivered_append certificates_def)
  then show ?thesis using Some by (simp add: nextDev_preflight_def)
qed

lemma inv_launch_nextDev_ready: "inv_launch s \<Longrightarrow> inv_launch (nextDev_ready s)"
proof -
  assume i: "inv_launch s"
  from nextDev_ready_cases [of s] show ?thesis
  proof
    assume "nextDev_ready s = s"
    then show ?thesis using i by simp
  next
    assume a: "nextDev_ready s = (emit (Preflight False) s)\<lparr>nextDevAt := AwaitPreflight\<rparr>"
    show ?thesis unfolding a
      by (rule inv_launch_same [OF i]) (simp_all add: emit_def delivered_append certificates_def)
  qed
qed

lemma inv_launch_on_message: "inv_launch s \<Longrightarrow> inv_launch (on_message h m s)"
proof -
  assume i: "inv_launch s"
  show ?thesis
  proof (cases "h < length (workers s)")
    case False
    then show ?thesis using i by (simp add: on_message_def)
  next
    case True
    then have ne: "workers s \<noteq> []" by auto
    then have nb: "\<not> before_spawn (nextDevAt s)" using i by (auto simp: inv_launch_def)
    then have ne': "\<not> early (nextDevAt s)" by (cases "nextDevAt s") simp_all
    have o: "w_options (workers s ! h) = w_options (workers s ! 0)"
      using i True by (simp add: inv_launch_def)
    have d: "certificates s \<le> 1"
      "\<forall>w\<in>set (workers s). w_options w = w_options (workers s ! 0)"
      "\<forall>opts\<in>set (delivered (effects s)). opts = w_options (workers s ! 0)"
      using i by (simp_all add: inv_launch_def)
    show ?thesis
    proof (cases "isWorkerReady m")
      case r: True
      show ?thesis
      proof (cases "child s")
        case None
        then show ?thesis using i True r by (simp add: on_message_def isWorkerReady_def Let_def)
      next
        case (Some c)
        let ?s1 = "emit (Send c (w_options (workers s ! h))) s"
        have f: "nextDevAt ?s1 = nextDevAt s" "workers ?s1 = workers s"
          "certificates ?s1 = certificates s"
          "delivered (effects ?s1) = delivered (effects s) @ [w_options (workers s ! 0)]"
          by (simp_all add: emit_def delivered_append certificates_def o)
        have "inv_launch ?s1"
        proof (rule inv_launchI)
          show "before_spawn (nextDevAt ?s1) \<longrightarrow> workers ?s1 = []" using nb f(1) by simp
          show "workers ?s1 = [] \<longrightarrow> delivered (effects ?s1) = []" using ne f(2) by simp
          show "early (nextDevAt ?s1) \<longrightarrow> certificates ?s1 = 0" using ne' f(1) by simp
          show "certificates ?s1 \<le> 1" using d(1) f(3) by simp
          show "\<forall>w\<in>set (workers ?s1). w_options w = w_options (workers ?s1 ! 0)"
            using d(2) unfolding f(2) .
          show "\<forall>opts\<in>set (delivered (effects ?s1)). opts = w_options (workers ?s1 ! 0)"
            using d(3) unfolding f(2,4) by auto
        qed
        then show ?thesis using on_message_ready [OF True r Some] by simp
      qed
    next
      case nr: False
      show ?thesis
      proof (cases "isServerReady m")
        case False
        then show ?thesis using i nr by (simp add: on_message_other)
      next
        case sr: True
        let ?ws = "(workers s)[h := (workers s ! h)\<lparr>resolved := True\<rparr>]"
        have a: "\<forall>w\<in>set ?ws. w_options w = w_options (workers s ! 0)"
        proof
          fix w assume "w \<in> set ?ws"
          then have "w \<in> insert ((workers s ! h)\<lparr>resolved := True\<rparr>) (set (workers s))"
            using set_update_subset_insert by fastforce
          then show "w_options w = w_options (workers s ! 0)"
            using d(2) o by auto
        qed
        have z: "w_options (?ws ! 0) = w_options (workers s ! 0)"
          using True o by (cases "h = 0") simp_all
        let ?s1 = "emit (Resolve h) (s\<lparr>workers := ?ws\<rparr>)"
        have f: "nextDevAt ?s1 = nextDevAt s" "workers ?s1 = ?ws"
          "certificates ?s1 = certificates s" "delivered (effects ?s1) = delivered (effects s)"
          by (simp_all add: emit_def delivered_append certificates_def)
        have "inv_launch ?s1"
        proof (rule inv_launchI)
          show "before_spawn (nextDevAt ?s1) \<longrightarrow> workers ?s1 = []" using nb f(1) by simp
          show "workers ?s1 = [] \<longrightarrow> delivered (effects ?s1) = []" using ne f(2) by simp
          show "early (nextDevAt ?s1) \<longrightarrow> certificates ?s1 = 0" using ne' f(1) by simp
          show "certificates ?s1 \<le> 1" using d(1) f(3) by simp
          show "\<forall>w\<in>set (workers ?s1). w_options w = w_options (workers ?s1 ! 0)"
            using a unfolding f(2) z .
          show "\<forall>opts\<in>set (delivered (effects ?s1)). opts = w_options (workers ?s1 ! 0)"
            using d(3) unfolding f(2,4) z .
        qed
        then show ?thesis using on_message_serverReady [OF True sr] i by simp
      qed
    qed
  qed
qed

lemma inv_launch_coordinator:
  assumes "inv_launch s" and "effects s' = effects s @ t" and "list_all coordinator_effect t"
    and "nextDevAt s' = nextDevAt s" and "workers s' = workers s"
  shows "inv_launch s'"
  by (rule inv_launch_same [OF assms(1)])
    (simp_all add: assms(2,4,5) delivered_append delivered_coordinator [OF assms(3)]
      certificates_def certificate_coordinator [OF assms(3)])

lemma inv_launch_handleSessionStop: "inv_launch s \<Longrightarrow> inv_launch (handleSessionStop env signal s)"
proof -
  assume i: "inv_launch s"
  obtain b n t ex where a: "handleSessionStop env signal s
      = s\<lparr>sessionStopHandled := b, stopAwaiting := n, effects := effects s @ t, exited := ex\<rparr>"
    "list_all coordinator_effect t"
    using handleSessionStop_frame by blast
  show ?thesis
    by (rule inv_launch_coordinator [OF i _ a(2)]) (simp_all add: a(1))
qed

lemma inv_launch_resume:
  "inv_launch s \<Longrightarrow> inv_launch (handleSessionStop_resume env r (s\<lparr>stopAwaiting := n\<rparr>))"
proof -
  assume i: "inv_launch s"
  let ?s1 = "s\<lparr>stopAwaiting := n\<rparr>"
  obtain cfg t ex where a: "handleSessionStop_resume env r ?s1
      = ?s1\<lparr>config := cfg, effects := effects ?s1 @ t, exited := ex\<rparr>"
    "list_all coordinator_effect t"
    using handleSessionStop_resume_frame by blast
  show ?thesis
    by (rule inv_launch_coordinator [OF i _ a(2)]) (simp_all add: a(1))
qed

lemma inv_launch_on_exit: "inv_launch s \<Longrightarrow> inv_launch (on_exit x env h code signal s)"
proof -
  assume i: "inv_launch s"
  show ?thesis
  proof (cases "h < length (workers s)")
    case False
    then show ?thesis using i by (simp add: on_exit_def)
  next
    case True
    from on_exit_cases [of x env h code signal s] show ?thesis
    proof (elim disjE conjE)
      assume "on_exit x env h code signal s = s"
      then show ?thesis using i by simp
    next
      assume "on_exit x env h code signal s = startServer (w_options (workers s ! h)) s"
      then show ?thesis using inv_launch_startServer_again [OF i True] by simp
    next
      assume "on_exit x env h code signal s = handleSessionStop env signal s"
      then show ?thesis using inv_launch_handleSessionStop [OF i] by simp
    qed
  qed
qed

lemma inv_launch_handle: "inv_launch s \<Longrightarrow> inv_launch (handle x e s)"
proof (cases e)
  case (Invoke args)
  assume "inv_launch s"
  then show ?thesis using Invoke
    by (cases "nextDevAt s") (simp_all add: inv_launch_nextDev_start)
next
  case (FileExistsSettled b)
  assume "inv_launch s"
  then show ?thesis using FileExistsSettled
    by (cases "nextDevAt s") (simp_all add: inv_launch_nextDev_dirChecked)
next
  case (ConfigSettled r)
  assume "inv_launch s"
  then show ?thesis using ConfigSettled
    by (cases "nextDevAt s") (simp_all add: inv_launch_nextDev_configLoaded)
next
  case (TurboSettled r)
  assume "inv_launch s"
  then show ?thesis using TurboSettled
    by (cases "nextDevAt s") (simp_all add: inv_launch_nextDev_turboValidated)
next
  case (CertificateSettled r)
  assume "inv_launch s"
  then show ?thesis using CertificateSettled
    by (cases "nextDevAt s") (simp_all add: inv_launch_nextDev_certificate)
next
  case (PreflightSettled r)
  assume "inv_launch s"
  then show ?thesis using PreflightSettled
    by (cases "nextDevAt s") (simp_all add: inv_launch_nextDev_preflight)
next
  case (Signal name env)
  assume "inv_launch s"
  then show ?thesis using Signal by (simp add: inv_launch_handleSessionStop)
next
  case (StopConfigSettled r env)
  assume "inv_launch s"
  then show ?thesis using StopConfigSettled by (simp add: inv_launch_resume)
next
  case (WorkerMessage h m)
  assume "inv_launch s"
  then show ?thesis using WorkerMessage
    by (simp add: inv_launch_nextDev_ready inv_launch_on_message)
next
  case (WorkerExit h code signal env)
  assume "inv_launch s"
  then show ?thesis using WorkerExit by (simp add: inv_launch_on_exit)
qed

lemma inv_launch_step: "inv_launch s \<Longrightarrow> inv_launch (step x e s)"
  by (simp add: step_def inv_launch_handle)

lemma inv_launch_run: "inv_launch s \<Longrightarrow> inv_launch (run x es s)"
  by (induction es arbitrary: s) (simp_all add: inv_launch_step)

lemma inv_launch_init: "inv_launch (init_session t0 env0)"
  by (simp add: inv_launch_def init_session_def certificates_def)

subsection \<open>The retry permission\<close>

lemma inv_retry_same:
  assumes "inv_retry b s" and "nextDevAt s' = nextDevAt s" and "penv s' = penv s"
    and "workers s' = workers s" and "exited s \<noteq> None \<longrightarrow> exited s' \<noteq> None"
  shows "inv_retry b s'"
  using assms by (cases "nextDevAt s") (simp_all add: inv_retry_def)

lemma inv_retry_later:
  assumes "inv_retry b s" and "workers s' = workers s"
    and "nextDevAt s' = AwaitServerReady h \<or> nextDevAt s' = AwaitPreflight \<or> nextDevAt s' = Finished"
  shows "inv_retry b s'"
  using assms by (auto simp: inv_retry_def)

lemma inv_retry_startServer:
  assumes "inv_retry b s" and "allowRetry opts = b"
  shows "inv_retry b ((startServer opts s)\<lparr>nextDevAt := AwaitServerReady h\<rparr>)"
  using assms by (simp add: inv_retry_def startServer_def emit_def Let_def nth_append)

lemma inv_retry_runDevServer:
  assumes "inv_retry b s" and "allowRetry opts = b"
  shows "inv_retry b (runDevServer x args opts s)"
proof -
  let ?s1 = "emit (LogWarn https_warning) s"
  have w1: "workers s \<noteq> [] \<longrightarrow> allowRetry (w_options (workers s ! 0)) = b"
    using assms(1) by (simp add: inv_retry_def)
  have a: "inv_retry b ((startServer o' s')\<lparr>nextDevAt := AwaitServerReady h\<rparr>)"
    if "allowRetry o' = b" "workers s' = workers s" for o' s' h
    using that w1 by (simp add: inv_retry_def startServer_def emit_def Let_def nth_append)
  have c: "inv_retry b ((emit (CreateSelfSignedCertificate hn) ?s1)\<lparr>nextDevAt := AwaitCertificate opts\<rparr>)"
    for hn
    using w1 assms(2) by (simp add: inv_retry_def emit_def)
  have d: "inv_retry b ?s1"
    by (rule inv_retry_same [OF assms(1)]) (simp_all add: emit_def)
  show ?thesis
    unfolding runDevServer_def Let_def
    using a [of _ s] a [of _ ?s1] c d assms(2)
    by (simp add: emit_def split: option.split)
qed

lemma inv_retry_nextDev_serve:
  assumes "inv_retry b s" and "allowRetry opts = b"
  shows "inv_retry b (nextDev_serve x args opts s)"
proof -
  have r: "inv_retry b ((emit (Rejected e) s)\<lparr>nextDevAt := Finished\<rparr>)" for e
    by (rule inv_retry_later [OF assms(1)]) (simp_all add: emit_def)
  have "inv_retry b (emit (SetGlobal k2 v2) (emit (SetGlobal k1 v1) s))" for k1 v1 k2 v2
    by (rule inv_retry_same [OF assms(1)]) (simp_all add: emit_def)
  then show ?thesis
    unfolding nextDev_serve_def using r
    by (simp add: inv_retry_runDevServer assms(2) split: option.split)
qed

lemma inv_retry_nextDev_dirChecked:
  assumes "inv_retry b s" and "nextDevAt s = AwaitFileExists args"
  shows "inv_retry b (nextDev_dirChecked x args ok s)"
proof -
  have p: "(arg_port args = None \<and> map_of (penv s) env_PORT = None) = b"
    and w1: "workers s \<noteq> [] \<longrightarrow> allowRetry (w_options (workers s ! 0)) = b"
    using assms by (simp_all add: inv_retry_def)
  have e: "inv_retry b (printAndExit msg c s)" for msg c
    unfolding printAndExit_def process_exit_def
    by (rule inv_retry_same [OF assms(1)]) (simp_all add: emit_def)
  have k: "inv_retry b ((emit (LoadConfig d) (s\<lparr>penv := env'\<rparr>))
        \<lparr>nextDevAt := AwaitLoadConfig args port
            (arg_port args = None \<and> map_of (penv s) env_PORT = None) files\<rparr>)" for d env' port files
    using p w1 by (simp add: inv_retry_def emit_def)
  show ?thesis
    unfolding nextDev_dirChecked_def Let_def using e k by (simp split: prod.split)
qed

lemma inv_retry_nextDev_configLoaded:
  assumes "inv_retry b s" and "nextDevAt s = AwaitLoadConfig args p a f"
  shows "inv_retry b (nextDev_configLoaded x args p a f r s)"
proof (cases r)
  case (Inl e)
  have "inv_retry b ((emit (Rejected e) s)\<lparr>nextDevAt := Finished\<rparr>)"
    by (rule inv_retry_later [OF assms(1)]) (simp_all add: emit_def)
  then show ?thesis using Inl by (simp add: nextDev_configLoaded_def)
next
  case (Inr cu)
  obtain c u where cu: "cu = (c, u)" by (cases cu)
  have ab: "a = b" and w1: "workers s \<noteq> [] \<longrightarrow> allowRetry (w_options (workers s ! 0)) = b"
    using assms by (simp_all add: inv_retry_def)
  let ?s3 = "nextDev_turbo args (nextDev_assign args c s)"
  have f: "nextDevAt ?s3 = nextDevAt s" "workers ?s3 = workers s" "exited ?s3 = exited s"
    by (simp_all add: nextDev_turbo_def nextDev_assign_def Let_def)
  have i3: "inv_retry b ?s3"
    using assms f ab w1 by (simp add: inv_retry_def)
  have o: "allowRetry (devServerOptions args d p a f fs) = b" for d fs
    using ab by (simp add: devServerOptions_def)
  have t: "inv_retry b ((emit (ValidateTurbo opts) ?s3)\<lparr>nextDevAt := AwaitTurbo args opts\<rparr>)"
    if "allowRetry opts = b" for opts
    using that w1 f(2) by (simp add: inv_retry_def emit_def)
  show ?thesis
    unfolding nextDev_configLoaded_def Inr cu Let_def
    using t [OF o] inv_retry_nextDev_serve [OF i3 o] by simp
qed

lemma inv_retry_nextDev_turboValidated:
  assumes "inv_retry b s" and "nextDevAt s = AwaitTurbo args opts"
  shows "inv_retry b (nextDev_turboValidated x args opts r s)"
proof (cases r)
  case None
  have "allowRetry opts = b" using assms by (simp add: inv_retry_def)
  from inv_retry_nextDev_serve [OF assms(1) this] show ?thesis
    using None by (simp add: nextDev_turboValidated_def)
next
  case (Some e)
  have "inv_retry b ((emit (Rejected e) s)\<lparr>nextDevAt := Finished\<rparr>)"
    by (rule inv_retry_later [OF assms(1)]) (simp_all add: emit_def)
  then show ?thesis using Some by (simp add: nextDev_turboValidated_def)
qed

lemma inv_retry_nextDev_certificate:
  assumes "inv_retry b s" and "nextDevAt s = AwaitCertificate opts"
  shows "inv_retry b (nextDev_certificate opts r s)"
proof (cases r)
  case (Inl e)
  have "inv_retry b (process_exit 1 (emit (ConsoleError e) s))"
    unfolding process_exit_def
    by (rule inv_retry_same [OF assms(1)]) (simp_all add: emit_def)
  then show ?thesis using Inl by (simp add: nextDev_certificate_def)
next
  case (Inr c)
  have "allowRetry (opts\<lparr>selfSignedCertificate := c\<rparr>) = b" using assms by (simp add: inv_retry_def)
  from inv_retry_startServer [OF assms(1) this] show ?thesis
    using Inr by (simp add: nextDev_certificate_def)
qed

lemma inv_retry_nextDev_preflight:
  assumes "inv_retry b s" and "nextDevAt s = AwaitPreflight"
  shows "inv_retry b (nextDev_preflight r s)"
proof (cases r)
  case None
  have "inv_retry b (s\<lparr>nextDevAt := Finished\<rparr>)"
    by (rule inv_retry_later [OF assms(1)]) simp_all
  then show ?thesis using None by (simp add: nextDev_preflight_def)
next
  case (Some e)
  have "inv_retry b (process_exit 1 (emit (ConsoleError e) s))"
    unfolding process_exit_def
    by (rule inv_retry_same [OF assms(1)]) (simp_all add: emit_def)
  then show ?thesis using Some by (simp add: nextDev_preflight_def)
qed

lemma inv_retry_nextDev_ready: "inv_retry b s \<Longrightarrow> inv_retry b (nextDev_ready s)"
proof -
  assume i: "inv_retry b s"
  from nextDev_ready_cases [of s] show ?thesis
  proof
    assume "nextDev_ready s = s"
    then show ?thesis using i by simp
  next
    assume a: "nextDev_ready s = (emit (Preflight False) s)\<lparr>nextDevAt := AwaitPreflight\<rparr>"
    show ?thesis unfolding a
      by (rule inv_retry_later [OF i]) (simp_all add: emit_def)
  qed
qed

lemma inv_retry_on_message: "inv_retry b s \<Longrightarrow> inv_retry b (on_message h m s)"
proof -
  assume i: "inv_retry b s"
  show ?thesis
  proof (cases "h < length (workers s)")
    case False
    then show ?thesis using i by (simp add: on_message_def)
  next
    case True
    show ?thesis
    proof (cases "isWorkerReady m")
      case r: True
      show ?thesis
      proof (cases "child s")
        case None
        then show ?thesis using i True r by (simp add: on_message_def isWorkerReady_def Let_def)
      next
        case (Some c)
        have "inv_retry b (emit (Send c (w_options (workers s ! h))) s)"
          by (rule inv_retry_same [OF i]) (simp_all add: emit_def)
        then show ?thesis using on_message_ready [OF True r Some] by simp
      qed
    next
      case nr: False
      show ?thesis
      proof (cases "isServerReady m")
        case False
        then show ?thesis using i nr by (simp add: on_message_other)
      next
        case sr: True
        let ?ws = "(workers s)[h := (workers s ! h)\<lparr>resolved := True\<rparr>]"
        have z: "w_options (?ws ! 0) = w_options (workers s ! 0)"
          using True by (cases "h = 0") simp_all
        have "inv_retry b (emit (Resolve h) (s\<lparr>workers := ?ws\<rparr>))"
          using i z by (cases "nextDevAt s") (simp_all add: inv_retry_def emit_def)
        then show ?thesis using on_message_serverReady [OF True sr] i by simp
      qed
    qed
  qed
qed

lemma inv_retry_handleSessionStop:
  "inv_retry b s \<Longrightarrow> exited s = None \<Longrightarrow> inv_retry b (handleSessionStop env signal s)"
proof -
  assume i: "inv_retry b s" and x: "exited s = None"
  obtain f n t ex where a: "handleSessionStop env signal s
      = s\<lparr>sessionStopHandled := f, stopAwaiting := n, effects := effects s @ t, exited := ex\<rparr>"
    using handleSessionStop_frame by blast
  show ?thesis
    by (rule inv_retry_same [OF i]) (simp_all add: a x)
qed

lemma inv_retry_resume:
  "inv_retry b s \<Longrightarrow> exited s = None
    \<Longrightarrow> inv_retry b (handleSessionStop_resume env r (s\<lparr>stopAwaiting := n\<rparr>))"
proof -
  assume i: "inv_retry b s" and x: "exited s = None"
  let ?s1 = "s\<lparr>stopAwaiting := n\<rparr>"
  obtain cfg t ex where a: "handleSessionStop_resume env r ?s1
      = ?s1\<lparr>config := cfg, effects := effects ?s1 @ t, exited := ex\<rparr>"
    using handleSessionStop_resume_frame by blast
  show ?thesis
    by (rule inv_retry_same [OF i]) (simp_all add: a x)
qed

lemma inv_retry_on_exit:
  "inv_retry b s \<Longrightarrow> exited s = None \<Longrightarrow> inv_retry b (on_exit x env h code signal s)"
proof -
  assume i: "inv_retry b s" and a: "exited s = None"
  show ?thesis
  proof (cases "h < length (workers s)")
    case False
    then show ?thesis using i by (simp add: on_exit_def)
  next
    case True
    then have ne: "workers s \<noteq> []" by auto
    from on_exit_cases [of x env h code signal s] show ?thesis
    proof (elim disjE conjE)
      assume "on_exit x env h code signal s = s"
      then show ?thesis using i by simp
    next
      assume e: "on_exit x env h code signal s = startServer (w_options (workers s ! h)) s"
      have "inv_retry b (startServer (w_options (workers s ! h)) s)"
        using i ne
        by (cases "nextDevAt s") (simp_all add: inv_retry_def startServer_def emit_def Let_def nth_append)
      then show ?thesis using e by simp
    next
      assume "on_exit x env h code signal s = handleSessionStop env signal s"
      then show ?thesis using inv_retry_handleSessionStop [OF i a] by simp
    qed
  qed
qed

lemma inv_retry_handle:
  assumes "inv_retry b s" and "exited s = None"
  shows "inv_retry b (handle x e s)"
proof (cases e)
  case (Invoke args)
  have "nextDevAt s \<noteq> NotStarted" using assms by (auto simp: inv_retry_def)
  then show ?thesis using Invoke assms(1) by (cases "nextDevAt s") simp_all
next
  case (FileExistsSettled ok)
  then show ?thesis using assms(1)
    by (cases "nextDevAt s") (simp_all add: inv_retry_nextDev_dirChecked)
next
  case (ConfigSettled r)
  then show ?thesis using assms(1)
    by (cases "nextDevAt s") (simp_all add: inv_retry_nextDev_configLoaded)
next
  case (TurboSettled r)
  then show ?thesis using assms(1)
    by (cases "nextDevAt s") (simp_all add: inv_retry_nextDev_turboValidated)
next
  case (CertificateSettled r)
  then show ?thesis using assms(1)
    by (cases "nextDevAt s") (simp_all add: inv_retry_nextDev_certificate)
next
  case (PreflightSettled r)
  then show ?thesis using assms(1)
    by (cases "nextDevAt s") (simp_all add: inv_retry_nextDev_preflight)
next
  case (Signal name env)
  then show ?thesis using assms by (simp add: inv_retry_handleSessionStop)
next
  case (StopConfigSettled r env)
  then show ?thesis using assms by (simp add: inv_retry_resume)
next
  case (WorkerMessage h m)
  then show ?thesis using assms(1)
    by (simp add: inv_retry_nextDev_ready inv_retry_on_message)
next
  case (WorkerExit h code signal env)
  then show ?thesis using assms by (simp add: inv_retry_on_exit)
qed

lemma inv_retry_step: "inv_retry b s \<Longrightarrow> inv_retry b (step x e s)"
  by (cases "exited s = None") (simp_all add: step_def inv_retry_handle)

lemma inv_retry_run: "inv_retry b s \<Longrightarrow> inv_retry b (run x es s)"
  by (induction es arbitrary: s) (simp_all add: inv_retry_step)

lemma inv_retry_invoke:
  "inv_retry (arg_port args = None \<and> map_of env0 env_PORT = None)
     (step x (Invoke args) (init_session t0 env0))"
  by (simp add: inv_retry_def step_def nextDev_start_def process_exit_def emit_def
      init_session_def Let_def)

subsection \<open>The log of effects\<close>

lemma extends_refl: "extends s s"
  by (simp add: extends_def)

lemma extends_trans: "extends a b \<Longrightarrow> extends b c \<Longrightarrow> extends a c"
  by (auto simp: extends_def)

lemma extends_emit: "extends s s' \<Longrightarrow> extends s (emit e s')"
  by (auto simp: extends_def emit_def)

lemma extends_updates:
  "extends s s' \<Longrightarrow> extends s (s'\<lparr>nextDevAt := p\<rparr>)"
  "extends s s' \<Longrightarrow> extends s (s'\<lparr>dir := d\<rparr>)"
  "extends s s' \<Longrightarrow> extends s (s'\<lparr>penv := e\<rparr>)"
  "extends s s' \<Longrightarrow> extends s (s'\<lparr>workers := ws\<rparr>)"
  "extends s s' \<Longrightarrow> extends s (s'\<lparr>child := c\<rparr>)"
  "extends s s' \<Longrightarrow> extends s (s'\<lparr>exited := x\<rparr>)"
  "extends s s' \<Longrightarrow> extends s (s'\<lparr>stopAwaiting := n\<rparr>)"
  by (simp_all add: extends_def)

lemma extends_process_exit: "extends s s' \<Longrightarrow> extends s (process_exit c s')"
  unfolding process_exit_def by (simp add: extends_updates extends_emit)

lemma extends_printAndExit: "extends s s' \<Longrightarrow> extends s (printAndExit m c s')"
  unfolding printAndExit_def by (simp add: extends_process_exit extends_emit)

lemma extends_startServer: "extends s s' \<Longrightarrow> extends s (startServer opts s')"
  unfolding startServer_def Let_def by (simp add: extends_updates extends_emit)

lemma extends_nextDev_start: "extends s (nextDev_start x args s)"
  unfolding nextDev_start_def Let_def
  by (simp add: extends_process_exit extends_emit extends_updates extends_refl)

lemma extends_nextDev_dirChecked: "extends s (nextDev_dirChecked x args b s)"
  unfolding nextDev_dirChecked_def Let_def
  by (simp add: extends_printAndExit extends_emit extends_updates extends_refl split: prod.split)

lemma extends_runDevServer: "extends s s' \<Longrightarrow> extends s (runDevServer x args opts s')"
  unfolding runDevServer_def Let_def
  by (simp add: extends_updates extends_emit extends_startServer split: option.split)

lemma extends_nextDev_serve: "extends s s' \<Longrightarrow> extends s (nextDev_serve x args opts s')"
  unfolding nextDev_serve_def
  by (simp add: extends_runDevServer extends_emit extends_updates split: option.split)

lemma extends_nextDev_configLoaded: "extends s (nextDev_configLoaded x args p a f r s)"
proof (cases r)
  case (Inl e)
  then show ?thesis
    by (simp add: nextDev_configLoaded_def extends_updates extends_emit extends_refl)
next
  case (Inr cu)
  obtain c u where cu: "cu = (c, u)" by (cases cu)
  have s3: "extends s (nextDev_turbo args (nextDev_assign args c s))"
    by (simp add: extends_def nextDev_turbo_def nextDev_assign_def Let_def)
  show ?thesis
    unfolding nextDev_configLoaded_def Inr cu Let_def
    by (simp add: s3 extends_nextDev_serve extends_updates extends_emit)
qed

lemma extends_nextDev_turboValidated: "extends s (nextDev_turboValidated x args opts r s)"
  by (cases r) (simp_all add: nextDev_turboValidated_def extends_nextDev_serve extends_updates
      extends_emit extends_refl)

lemma extends_nextDev_certificate: "extends s (nextDev_certificate opts r s)"
  by (cases r) (simp_all add: nextDev_certificate_def extends_process_exit extends_startServer
      extends_updates extends_emit extends_refl)

lemma extends_nextDev_preflight: "extends s (nextDev_preflight r s)"
  by (cases r) (simp_all add: nextDev_preflight_def extends_process_exit extends_updates
      extends_emit extends_refl)

lemma extends_on_message: "extends s (on_message h m s)"
  unfolding on_message_def Let_def
  by (simp add: extends_updates extends_emit extends_refl split: option.split)

lemma extends_nextDev_ready: "extends s s' \<Longrightarrow> extends s (nextDev_ready s')"
  unfolding nextDev_ready_def
  by (simp add: extends_updates extends_emit split: pc.split)

lemma extends_handleSessionStop: "extends s (handleSessionStop env signal s)"
proof -
  obtain b n t ex where "handleSessionStop env signal s
      = s\<lparr>sessionStopHandled := b, stopAwaiting := n, effects := effects s @ t, exited := ex\<rparr>"
    using handleSessionStop_frame by blast
  then show ?thesis by (simp add: extends_def)
qed

lemma extends_resume: "extends s (handleSessionStop_resume env r (s\<lparr>stopAwaiting := n\<rparr>))"
proof -
  let ?s1 = "s\<lparr>stopAwaiting := n\<rparr>"
  obtain cfg t ex where "handleSessionStop_resume env r ?s1
      = ?s1\<lparr>config := cfg, effects := effects ?s1 @ t, exited := ex\<rparr>"
    using handleSessionStop_resume_frame by blast
  then show ?thesis by (simp add: extends_def)
qed

lemma extends_on_exit: "extends s (on_exit x env h code signal s)"
  using on_exit_cases [of x env h code signal s] extends_refl [of s]
    extends_startServer [OF extends_refl, of s] extends_handleSessionStop [of s env signal]
  by auto

lemma extends_handle: "extends s (handle x e s)"
proof (cases e)
  case (Invoke args)
  then show ?thesis by (cases "nextDevAt s") (simp_all add: extends_nextDev_start extends_refl)
next
  case (FileExistsSettled b)
  then show ?thesis by (cases "nextDevAt s") (simp_all add: extends_nextDev_dirChecked extends_refl)
next
  case (ConfigSettled r)
  then show ?thesis by (cases "nextDevAt s") (simp_all add: extends_nextDev_configLoaded extends_refl)
next
  case (TurboSettled r)
  then show ?thesis by (cases "nextDevAt s") (simp_all add: extends_nextDev_turboValidated extends_refl)
next
  case (CertificateSettled r)
  then show ?thesis by (cases "nextDevAt s") (simp_all add: extends_nextDev_certificate extends_refl)
next
  case (PreflightSettled r)
  then show ?thesis by (cases "nextDevAt s") (simp_all add: extends_nextDev_preflight extends_refl)
next
  case (Signal name env)
  then show ?thesis by (simp add: extends_handleSessionStop extends_refl)
next
  case (StopConfigSettled r env)
  then show ?thesis by (simp add: extends_resume extends_refl)
next
  case (WorkerMessage h m)
  then show ?thesis by (simp add: extends_nextDev_ready extends_on_message)
next
  case (WorkerExit h code signal env)
  then show ?thesis by (simp add: extends_on_exit)
qed

lemma extends_step: "extends s (step x e s)"
  by (simp add: step_def extends_handle extends_refl)

lemma extends_run: "extends s (run x es s)"
proof (induction es arbitrary: s)
  case Nil
  then show ?case by (simp add: extends_refl)
next
  case (Cons e es)
  show ?case using extends_trans [OF extends_step Cons.IH] by simp
qed

lemma certificates_mono: "extends s s' \<Longrightarrow> certificates s \<le> certificates s'"
  by (auto simp: extends_def certificates_def)

lemma run_exited: "exited s \<noteq> None \<Longrightarrow> run x es s = s"
  by (induction es arbitrary: s) (auto simp: step_def)

lemma run_append: "run x (es @ es') s = run x es' (run x es s)"
  by (induction es arbitrary: s) simp_all

section \<open>The claims\<close>

lemma is_Kill_kill_trace: "list_all is_Kill (kill_trace signal s)"
  by (simp add: kill_trace_def split: option.split)

lemma trigger_after_flag:
  assumes "sessionStopHandled s" and "is_trigger e"
  shows "\<exists>ks. step x e s = s\<lparr>effects := effects s @ ks\<rparr> \<and> list_all is_Kill ks"
proof -
  have n: "s = s\<lparr>effects := effects s @ []\<rparr> \<and> list_all is_Kill []" by simp
  show ?thesis
  proof (cases "exited s = None")
    case False
    then have "step x e s = s" by (auto simp: step_def)
    with n show ?thesis by metis
  next
    case True
    from assms(2) show ?thesis
    proof (cases e)
      case (Signal name env)
      show ?thesis
      proof (cases "name = ''SIGINT'' \<or> name = ''SIGTERM''")
        case t: True
        then have "step x e s = s\<lparr>effects := effects s @ kill_trace (Some name) s\<rparr>"
          using Signal True assms(1)
          by (simp add: step_def handleSessionStop_later forward_kill_eq)
        then show ?thesis using is_Kill_kill_trace by blast
      next
        case f: False
        then have "step x e s = s" using Signal by (simp add: step_def)
        with n show ?thesis by metis
      qed
    next
      case (WorkerExit h code signal env)
      then have "step x e s = s" using assms(1) by (simp add: step_def on_exit_def)
      with n show ?thesis by metis
    qed simp_all
  qed
qed

text \<open>
  C1, as the code has it. In every interleaving of events from the start of the program:
  the telemetry record, the trace upload, the write that shows the cursor and the process
  exit are each performed at most once. As long as no invocation of \<^verbatim>\<open>handleSessionStop\<close>
  has found the flag unset, no telemetry, upload or terminal write has been performed;
  every invocation leaves the flag set, also when it suspends at its \<^verbatim>\<open>await\<close>, and while
  an invocation is suspended the flag is set and still none of them has been performed.
  Once the flag is set, a termination signal or a worker exit adds nothing but \<^verbatim>\<open>kill\<close>
  calls to the state. Every invocation forwards exactly one \<^verbatim>\<open>kill\<close> to the worker handle
  if there is one: with the name of the signal, and with \<^verbatim>\<open>0\<close> when the signal is absent or
  the empty string. The invocation that finds the flag unset performs the whole sequence
  exactly once when no collaborator throws: at once if \<^verbatim>\<open>config\<close> is loaded, and otherwise
  when its suspended \<^verbatim>\<open>loadConfig\<close> settles with a configuration while the process is
  still running.
\<close>

theorem shutdown_sequence_once:
  assumes "s = run x evs (init_session t0 env0)"
  shows "length (filter is_TelemetryRecord (effects s)) \<le> 1
       \<and> length (filter is_UploadTrace (effects s)) \<le> 1
       \<and> count_list (effects s) (StdoutWrite show_cursor) \<le> 1
       \<and> length (filter is_ProcessExit (effects s)) \<le> 1
       \<and> (\<not> sessionStopHandled s \<longrightarrow> stopped s = [])
       \<and> (0 < stopAwaiting s \<longrightarrow> sessionStopHandled s \<and> stopped s = [])
       \<and> sessionStopHandled (handleSessionStop env signal s)
       \<and> (sessionStopHandled s \<and> is_trigger e \<longrightarrow>
            (\<exists>ks. step x e s = s\<lparr>effects := effects s @ ks\<rparr> \<and> list_all is_Kill ks))
       \<and> (\<forall>h. child s = Some h \<longrightarrow>
            (\<exists>rest. effects (handleSessionStop env signal s)
                       = effects s
                         @ Kill h (case signal of
                                     None \<Rightarrow> KillNumber 0
                                   | Some name \<Rightarrow>
                                       if name = [] then KillNumber 0 else KillSignal name)
                           # rest
                   \<and> filter is_Kill rest = []))
       \<and> (\<not> sessionStopHandled s \<and> config s \<noteq> None \<and> no_throw env s \<longrightarrow>
            performed (traceUploadUrl s) (added s (handleSessionStop env signal s)))
       \<and> (0 < stopAwaiting s \<and> exited s = None \<and> no_throw env s \<longrightarrow>
            performed (traceUploadUrl s)
              (added s (step x (StopConfigSettled (Inr c) env) s)))"
proof -
  have i: "inv_stop s" "inv_exit s"
    unfolding assms by (simp_all add: inv_stop_run inv_stop_init inv_exit_run inv_exit_init)
  from i(1) have o: "once (effects s)"
    unfolding inv_stop_def stopped_def once_stopped by simp
  have a: "length (filter is_TelemetryRecord (effects s)) \<le> 1"
    "length (filter is_UploadTrace (effects s)) \<le> 1"
    "count_list (effects s) (StdoutWrite show_cursor) \<le> 1"
    using o by (simp_all add: once_def)
  have b: "length (filter is_ProcessExit (effects s)) \<le> 1"
    using i(2) by (simp add: inv_exit_def exit_count_def)
  have n: "\<not> sessionStopHandled s \<longrightarrow> stopped s = []"
    using i(1) by (simp add: inv_stop_def)
  have w: "0 < stopAwaiting s \<longrightarrow> sessionStopHandled s \<and> stopped s = []"
  proof
    assume "0 < stopAwaiting s"
    moreover have "stopAwaiting s \<le> 1" using i(1) by (simp add: inv_stop_def)
    ultimately have "stopAwaiting s = 1" by simp
    then show "sessionStopHandled s \<and> stopped s = []" using i(1) by (simp add: inv_stop_def)
  qed
  have f: "sessionStopHandled (handleSessionStop env signal s)"
  proof -
    show ?thesis
    proof (cases "sessionStopHandled s")
      case True
      then show ?thesis by (simp add: handleSessionStop_later forward_kill_eq)
    next
      case False
      show ?thesis
      proof (cases "requireThrows env \<or> config s \<noteq> None")
        case True
        from handleSessionStop_completes [OF False True, of signal] show ?thesis by auto
      next
        case nt: False
        then show ?thesis using False by (simp add: handleSessionStop_suspends)
      qed
    qed
  qed
  have ka: "kill_arg_of signal
      = (case signal of None \<Rightarrow> KillNumber 0
         | Some name \<Rightarrow> if name = [] then KillNumber 0 else KillSignal name)"
    by (simp add: kill_arg_of_def split: option.split)
  have k: "\<exists>rest. effects (handleSessionStop env signal s)
                       = effects s
                         @ Kill h (case signal of
                                     None \<Rightarrow> KillNumber 0
                                   | Some name \<Rightarrow>
                                       if name = [] then KillNumber 0 else KillSignal name)
                           # rest
                   \<and> filter is_Kill rest = []" if "child s = Some h" for h
    using handleSessionStop_effects [of env signal s] that unfolding ka [symmetric]
    by (auto simp: kill_trace_def)
  have p: "performed (traceUploadUrl s)
              (added s (step x (StopConfigSettled (Inr c) env) s))"
    if "0 < stopAwaiting s" "exited s = None" "no_throw env s"
  proof -
    let ?s1 = "s\<lparr>stopAwaiting := stopAwaiting s - 1\<rparr>"
    have "no_throw env ?s1" using that(3) by (simp add: no_throw_def)
    from handleSessionStop_resume_performs [OF this, of c]
    show ?thesis using that(1,2) by (simp add: step_def added_def)
  qed
  show ?thesis
    using a b n w f trigger_after_flag [of s e x] k handleSessionStop_performs [of s env signal] p
    by blast
qed

theorem shutdown_sequence_once_witness:
  "sessionStopHandled interrupted \<and> is_trigger (Signal ''SIGTERM'' demo_env)
   \<and> child interrupted = Some 0 \<and> 0 < stopAwaiting interrupted \<and> exited interrupted = None
   \<and> no_throw demo_env interrupted \<and> stopped interrupted = []
   \<and> (\<exists>ks. step demo_ext (Signal ''SIGTERM'' demo_env) interrupted
             = interrupted\<lparr>effects := effects interrupted @ ks\<rparr> \<and> list_all is_Kill ks)
   \<and> (\<exists>rest. effects (handleSessionStop demo_env (Some ''SIGTERM'') interrupted)
             = effects interrupted @ Kill 0 (KillSignal ''SIGTERM'') # rest
           \<and> filter is_Kill rest = [])
   \<and> (\<exists>rest. effects (handleSessionStop demo_env None interrupted)
             = effects interrupted @ Kill 0 (KillNumber 0) # rest
           \<and> filter is_Kill rest = [])
   \<and> performed (traceUploadUrl interrupted)
        (added interrupted (step demo_ext (StopConfigSettled (Inr demo_config) demo_env) interrupted))
   \<and> \<not> sessionStopHandled serving \<and> config serving \<noteq> None \<and> no_throw demo_env serving
   \<and> stopped serving = []
   \<and> performed (traceUploadUrl serving)
        (added serving (handleSessionStop demo_env (Some ''SIGINT'') serving))"
proof -
  have h: "sessionStopHandled interrupted" "child interrupted = Some 0"
    "0 < stopAwaiting interrupted" "exited interrupted = None" "no_throw demo_env interrupted"
    by (simp_all add: interrupted_def no_throw_def demo_env_def)
  have g: "\<not> sessionStopHandled serving" "config serving \<noteq> None" "no_throw demo_env serving"
    by (simp_all add: serving_def no_throw_def demo_env_def)
  have t: "is_trigger (Signal ''SIGTERM'' demo_env)" by simp
  note a = shutdown_sequence_once [OF interrupted_reached [symmetric],
      of demo_env "Some ''SIGTERM''" "Signal ''SIGTERM'' demo_env" demo_config]
  note a' = shutdown_sequence_once [OF interrupted_reached [symmetric],
      of demo_env None "Signal ''SIGTERM'' demo_env" demo_config]
  note b = shutdown_sequence_once [OF serving_reached [symmetric],
      of demo_env "Some ''SIGINT''" "Signal ''SIGINT'' demo_env" demo_config]
  have k1: "\<exists>rest. effects (handleSessionStop demo_env (Some ''SIGTERM'') interrupted)
             = effects interrupted @ Kill 0 (KillSignal ''SIGTERM'') # rest
           \<and> filter is_Kill rest = []"
    using a h(2) by simp
  have k2: "\<exists>rest. effects (handleSessionStop demo_env None interrupted)
             = effects interrupted @ Kill 0 (KillNumber 0) # rest
           \<and> filter is_Kill rest = []"
    using a' h(2) by simp
  have r: "stopped interrupted = []" "stopped serving = []"
    using a b h(3) g(1) by blast+
  have t1: "\<exists>ks. step demo_ext (Signal ''SIGTERM'' demo_env) interrupted
             = interrupted\<lparr>effects := effects interrupted @ ks\<rparr> \<and> list_all is_Kill ks"
    using a h(1) t by blast
  have p1: "performed (traceUploadUrl interrupted)
        (added interrupted (step demo_ext (StopConfigSettled (Inr demo_config) demo_env) interrupted))"
    using a h(3,4,5) by blast
  have p2: "performed (traceUploadUrl serving)
        (added serving (handleSessionStop demo_env (Some ''SIGINT'') serving))"
    using b g by blast
  show ?thesis using h g t k1 k2 r t1 p1 p2 by blast
qed

text \<open>
  The claim C1 as stated fails: the sequence is not always performed. On the reserved port,
  \<^verbatim>\<open>SIGINT\<close> and then \<^verbatim>\<open>SIGTERM\<close> arrive while \<^verbatim>\<open>nextDev\<close> checks the directory. The first
  invocation sets the flag and suspends at \<^verbatim>\<open>loadConfig\<close> (line 49), the second finds the
  flag set; then the directory check settles and \<^verbatim>\<open>nextDev\<close> ends the process with status 1
  (lines 175-177). Nothing threw, and there is no telemetry record, no write to the terminal
  and no exit with status 0.
\<close>

theorem shutdown_sequence_skipped:
  "no_throw demo_env (run demo_ext [Invoke reserved_args] (init_session 1000 []))
   \<and> sessionStopHandled (run demo_ext [Invoke reserved_args, Signal ''SIGINT'' demo_env]
        (init_session 1000 []))
   \<and> effects (run demo_ext overtaken (init_session 1000 []))
       = [LoadConfig (Some ''/app''), PrintMessage ''x11'', ProcessExit 1]
   \<and> exited (run demo_ext overtaken (init_session 1000 [])) = Some 1"
  by (simp add: overtaken_def reserved_args_def demo_args_def demo_ext_def demo_env_def
      init_session_def step_def nextDev_start_def nextDev_dirChecked_def printAndExit_def
      process_exit_def emit_def handleSessionStop_def forward_kill_def no_throw_def env_names
      Let_def)

lemma noise_kill_trace: "\<forall>e\<in>set (kill_trace signal s). \<not> noise e"
  by (cases "child s") (simp_all add: kill_trace_def)

lemma handleSessionStop_swallows:
  assumes "\<not> sessionStopHandled s" and "requireThrows env \<or> config s \<noteq> None"
    and "inv_config s" and "\<not> uploadTraceThrows env" and "exited s = None"
  shows "exited (handleSessionStop env signal s) = Some 0
     \<and> (\<forall>e\<in>set (added s (handleSessionStop env signal s)). \<not> noise e)"
proof -
  have u: "truthy_str (traceUploadUrl s) \<longrightarrow> config s \<noteq> None \<and> \<not> uploadTraceThrows env"
    using assms(3,4) by (simp add: inv_config_def)
  note x = handleSessionStop_exits [OF assms(1,2) u, of signal]
  from handleSessionStop_completes [OF assms(1,2), of signal]
  obtain t ex where a: "handleSessionStop env signal s
      = s\<lparr>sessionStopHandled := True, effects := effects s @ kill_trace signal s @ t, exited := ex\<rparr>"
      "stop_run (exited s) t ex" by blast
  have "ex = Some 0" using x unfolding a(1) by simp
  then have "\<forall>e\<in>set t. \<not> noise e"
    using stop_run_outcome [OF a(2)] assms(5) by auto
  moreover have "added s (handleSessionStop env signal s) = kill_trace signal s @ t"
    unfolding a(1) by (simp add: added_def)
  ultimately show ?thesis using x noise_kill_trace by auto
qed

lemma handleSessionStop_resume_swallows:
  assumes "inv_config s" and "\<not> uploadTraceThrows env" and "exited s = None"
  shows "exited (handleSessionStop_resume env r s) = Some 0
     \<and> (\<forall>e\<in>set (added s (handleSessionStop_resume env r s)). \<not> noise e)"
proof -
  have u: "truthy_str (traceUploadUrl s) \<longrightarrow> (config s \<noteq> None \<or> \<not> isl r) \<and> \<not> uploadTraceThrows env"
    using assms by (simp add: inv_config_def)
  note x = handleSessionStop_resume_exits [OF u]
  obtain cfg t ex where a: "handleSessionStop_resume env r s
      = s\<lparr>config := cfg, effects := effects s @ t, exited := ex\<rparr>"
      "stop_run (exited s) t ex"
    using handleSessionStop_resume_shape by blast
  have "ex = Some 0" using x unfolding a(1) by simp
  then have "\<forall>e\<in>set t. \<not> noise e"
    using stop_run_outcome [OF a(2)] assms(3) by auto
  moreover have "added s (handleSessionStop_resume env r s) = t"
    unfolding a(1) by (simp add: added_def)
  ultimately show ?thesis using x by auto
qed

text \<open>
  C4. In every state the program can reach and in which the process is alive, whatever
  throws inside the \<^verbatim>\<open>try\<close> block of the first invocation of \<^verbatim>\<open>handleSessionStop\<close> (loading
  the telemetry module, \<^verbatim>\<open>loadConfig\<close> rejecting, the \<^verbatim>\<open>Telemetry\<close> constructor,
  \<^verbatim>\<open>findPagesDir\<close>, \<^verbatim>\<open>record\<close>, \<^verbatim>\<open>flushDetached\<close>), the invocation prints nothing, rejects
  nothing and exits with status 0, whether or not a trace-upload target is configured: at
  once when \<^verbatim>\<open>config\<close> is loaded or the module fails to load, and otherwise, after it has
  suspended at \<^verbatim>\<open>loadConfig\<close>, when that promise settles either way. (\<^verbatim>\<open>uploadTrace\<close> itself
  is outside the \<^verbatim>\<open>try\<close> block and is taken not to throw.)
\<close>

theorem stop_failures_swallowed:
  assumes "s = run x evs (init_session t0 env0)" and "exited s = None"
    and "\<not> uploadTraceThrows env"
  shows "(\<not> sessionStopHandled s \<and> (config s \<noteq> None \<or> requireThrows env) \<longrightarrow>
            exited (handleSessionStop env signal s) = Some 0
            \<and> filter noise (added s (handleSessionStop env signal s)) = [])
       \<and> (\<not> sessionStopHandled s \<and> config s = None \<and> \<not> requireThrows env \<longrightarrow>
            stopAwaiting (handleSessionStop env signal s) = Suc (stopAwaiting s)
            \<and> exited (handleSessionStop env signal s) = None
            \<and> filter noise (added s (handleSessionStop env signal s)) = [])
       \<and> (0 < stopAwaiting s \<longrightarrow>
            exited (step x (StopConfigSettled r env) s) = Some 0
            \<and> filter noise (added s (step x (StopConfigSettled r env) s)) = [])"
proof -
  have i: "inv_config s"
    unfolding assms(1) by (simp add: inv_config_run inv_config_init)
  have a: "exited (handleSessionStop env signal s) = Some 0
            \<and> filter noise (added s (handleSessionStop env signal s)) = []"
    if "\<not> sessionStopHandled s" "config s \<noteq> None \<or> requireThrows env"
    using handleSessionStop_swallows [OF that(1) _ i assms(3) assms(2)] that(2)
    unfolding filter_empty_conv by blast
  have b: "stopAwaiting (handleSessionStop env signal s) = Suc (stopAwaiting s)
            \<and> exited (handleSessionStop env signal s) = None
            \<and> filter noise (added s (handleSessionStop env signal s)) = []"
    if "\<not> sessionStopHandled s" "config s = None" "\<not> requireThrows env"
    using that assms(2) noise_kill_trace [of signal s]
    by (simp add: handleSessionStop_suspends added_def filter_empty_conv)
  have c: "exited (step x (StopConfigSettled r env) s) = Some 0
            \<and> filter noise (added s (step x (StopConfigSettled r env) s)) = []"
    if "0 < stopAwaiting s"
  proof -
    let ?s1 = "s\<lparr>stopAwaiting := stopAwaiting s - 1\<rparr>"
    have "inv_config ?s1" "exited ?s1 = None" using i assms(2) by (simp_all add: inv_config_def)
    from handleSessionStop_resume_swallows [OF this(1) assms(3) this(2), of r]
    show ?thesis using that assms(2) by (simp add: step_def added_def filter_empty_conv)
  qed
  show ?thesis using a b c by blast
qed

theorem stop_failures_swallowed_witness:
  "exited traced = None \<and> \<not> uploadTraceThrows failing_env \<and> \<not> sessionStopHandled traced
   \<and> config traced \<noteq> None \<and> truthy_str (traceUploadUrl traced)
   \<and> exited (handleSessionStop failing_env (Some ''SIGINT'') traced) = Some 0
   \<and> filter noise (added traced (handleSessionStop failing_env (Some ''SIGINT'') traced)) = []
   \<and> exited dir_check = None \<and> \<not> sessionStopHandled dir_check \<and> config dir_check = None
   \<and> \<not> requireThrows failing_env
   \<and> stopAwaiting (handleSessionStop failing_env (Some ''SIGINT'') dir_check) = Suc (stopAwaiting dir_check)
   \<and> exited interrupted = None \<and> 0 < stopAwaiting interrupted
   \<and> exited (step demo_ext (StopConfigSettled (Inl (Error ''config'')) failing_env) interrupted) = Some 0
   \<and> filter noise (added interrupted
          (step demo_ext (StopConfigSettled (Inl (Error ''config'')) failing_env) interrupted)) = []"
proof -
  have f: "\<not> uploadTraceThrows failing_env" "\<not> requireThrows failing_env"
    by (simp_all add: failing_env_def)
  have t: "exited traced = None" "\<not> sessionStopHandled traced" "config traced \<noteq> None"
    "truthy_str (traceUploadUrl traced)"
    by (simp_all add: traced_def serving_def)
  have d: "exited dir_check = None" "\<not> sessionStopHandled dir_check" "config dir_check = None"
    by (simp_all add: dir_check_def init_session_def)
  have n: "exited interrupted = None" "0 < stopAwaiting interrupted"
    by (simp_all add: interrupted_def)
  note a = stop_failures_swallowed [OF traced_reached [symmetric] t(1) f(1),
      of "Some ''SIGINT''" "Inl (Error ''config'')"]
  note b = stop_failures_swallowed [OF dir_check_reached [symmetric] d(1) f(1),
      of "Some ''SIGINT''" "Inl (Error ''config'')"]
  note c = stop_failures_swallowed [OF interrupted_reached [symmetric] n(1) f(1),
      of "Some ''SIGINT''" "Inl (Error ''config'')"]
  show ?thesis using f t d n a b c by blast
qed

text \<open>
  C9. Whenever an invocation of \<^verbatim>\<open>handleSessionStop\<close>, or its continuation after
  \<^verbatim>\<open>loadConfig\<close>, ends the process, the last three effects are the write of the show-cursor
  escape sequence \<^verbatim>\<open>ESC [ ? 2 5 h\<close>, the write of a newline and the exit with status 0, in
  this order. The first invocation does reach this step whatever throws inside the \<^verbatim>\<open>try\<close>
  block, as long as the upload that stands between the two can run (no target, or
  \<^verbatim>\<open>config\<close> there and \<^verbatim>\<open>uploadTrace\<close> not throwing).
\<close>

theorem cursor_restored_before_exit:
  assumes "exited s = None"
  shows "(exited (handleSessionStop env signal s) \<noteq> None \<longrightarrow>
            exited (handleSessionStop env signal s) = Some 0
            \<and> (\<exists>pre. effects (handleSessionStop env signal s)
                  = pre @ [StdoutWrite (CHR 0x1B # ''[?25h''), StdoutWrite [CHR 0x0A], ProcessExit 0]))
       \<and> (exited (handleSessionStop_resume env r s) \<noteq> None \<longrightarrow>
            exited (handleSessionStop_resume env r s) = Some 0
            \<and> (\<exists>pre. effects (handleSessionStop_resume env r s)
                  = pre @ [StdoutWrite (CHR 0x1B # ''[?25h''), StdoutWrite [CHR 0x0A], ProcessExit 0]))
       \<and> (\<not> sessionStopHandled s \<and> (config s \<noteq> None \<or> requireThrows env)
           \<and> (truthy_str (traceUploadUrl s) \<longrightarrow> config s \<noteq> None \<and> \<not> uploadTraceThrows env) \<longrightarrow>
            exited (handleSessionStop env signal s) = Some 0)
       \<and> ((truthy_str (traceUploadUrl s) \<longrightarrow> (config s \<noteq> None \<or> \<not> isl r) \<and> \<not> uploadTraceThrows env) \<longrightarrow>
            exited (handleSessionStop_resume env r s) = Some 0)"
proof -
  have tail: "exit_tail = [StdoutWrite (CHR 0x1B # ''[?25h''), StdoutWrite [CHR 0x0A], ProcessExit 0]"
    by (simp add: exit_tail_def show_cursor_def newline_def)
  have a: "exited (handleSessionStop env signal s) = Some 0
            \<and> (\<exists>pre. effects (handleSessionStop env signal s) = pre @ exit_tail)"
    if x: "exited (handleSessionStop env signal s) \<noteq> None"
  proof (cases "sessionStopHandled s")
    case True
    then show ?thesis using x assms by (simp add: handleSessionStop_later forward_kill_eq)
  next
    case False
    show ?thesis
    proof (cases "requireThrows env \<or> config s \<noteq> None")
      case True
      from handleSessionStop_completes [OF False True, of signal]
      obtain t ex where h: "handleSessionStop env signal s
          = s\<lparr>sessionStopHandled := True, effects := effects s @ kill_trace signal s @ t, exited := ex\<rparr>"
          "stop_run (exited s) t ex" by blast
      have "ex \<noteq> None" using x unfolding h(1) by simp
      with stop_run_outcome [OF h(2)] assms obtain pre where "ex = Some 0" "t = pre @ exit_tail"
        by auto
      then have "exited (handleSessionStop env signal s) = Some 0"
        "effects (handleSessionStop env signal s) = (effects s @ kill_trace signal s @ pre) @ exit_tail"
        unfolding h(1) by simp_all
      then show ?thesis by blast
    next
      case nt: False
      then show ?thesis using x assms False by (simp add: handleSessionStop_suspends)
    qed
  qed
  have b: "exited (handleSessionStop_resume env r s) = Some 0
            \<and> (\<exists>pre. effects (handleSessionStop_resume env r s) = pre @ exit_tail)"
    if x: "exited (handleSessionStop_resume env r s) \<noteq> None"
  proof -
    obtain cfg t ex where h: "handleSessionStop_resume env r s
        = s\<lparr>config := cfg, effects := effects s @ t, exited := ex\<rparr>"
        "stop_run (exited s) t ex"
      using handleSessionStop_resume_shape by blast
    have "ex \<noteq> None" using x unfolding h(1) by simp
    with stop_run_outcome [OF h(2)] assms obtain pre where "ex = Some 0" "t = pre @ exit_tail"
      by auto
    then have "exited (handleSessionStop_resume env r s) = Some 0"
      "effects (handleSessionStop_resume env r s) = (effects s @ pre) @ exit_tail"
      unfolding h(1) by simp_all
    then show ?thesis by blast
  qed
  show ?thesis
    using a b handleSessionStop_exits [of s env signal] handleSessionStop_resume_exits [of s r env]
    unfolding tail by blast
qed

theorem cursor_restored_before_exit_witness:
  "exited serving = None \<and> \<not> sessionStopHandled serving \<and> config serving \<noteq> None
   \<and> \<not> truthy_str (traceUploadUrl serving)
   \<and> exited (handleSessionStop failing_env (Some ''SIGINT'') serving) = Some 0
   \<and> (\<exists>pre. effects (handleSessionStop failing_env (Some ''SIGINT'') serving)
         = pre @ [StdoutWrite (CHR 0x1B # ''[?25h''), StdoutWrite [CHR 0x0A], ProcessExit 0])
   \<and> exited (handleSessionStop_resume failing_env (Inl (Error ''config'')) serving) = Some 0
   \<and> (\<exists>pre. effects (handleSessionStop_resume failing_env (Inl (Error ''config'')) serving)
         = pre @ [StdoutWrite (CHR 0x1B # ''[?25h''), StdoutWrite [CHR 0x0A], ProcessExit 0])"
proof -
  have g: "exited serving = None" "\<not> sessionStopHandled serving" "config serving \<noteq> None"
    "\<not> truthy_str (traceUploadUrl serving)"
    by (simp_all add: serving_def)
  note a = cursor_restored_before_exit [OF g(1), of failing_env "Some ''SIGINT''"
      "Inl (Error ''config'')"]
  have x: "exited (handleSessionStop failing_env (Some ''SIGINT'') serving) = Some 0"
    using a g by blast
  have y: "exited (handleSessionStop_resume failing_env (Inl (Error ''config'')) serving) = Some 0"
    using a g by blast
  have "exited (handleSessionStop failing_env (Some ''SIGINT'') serving) \<noteq> None"
    "exited (handleSessionStop_resume failing_env (Inl (Error ''config'')) serving) \<noteq> None"
    using x y by simp_all
  then show ?thesis using g a by blast
qed

lemmas msg_defs = isWorkerReady_def isServerReady_def ready_msg_def server_ready_msg_def
  nextWorkerReady_def nextServerReady_def

text \<open>
  C3. On the channel of a freshly started worker that is the tracked one, for every
  sequence of messages: the supervisor sends the options once for each \<^verbatim>\<open>ready\<close> message,
  to that worker, and nothing else is sent; the promise of that \<^verbatim>\<open>startServer\<close> call is
  resolved once if the sequence has a \<^verbatim>\<open>serverReady\<close> message and not at all otherwise, and
  the resolution happens at the first one; nothing is printed or rejected and the process
  stays alive; a message of any other shape leaves the state as it is.
\<close>

theorem handshake_resolves_once:
  assumes "h < length (workers s)" and "\<not> resolved (workers s ! h)"
    and "child s = Some h" and "exited s = None"
  shows "effects (run x (map (WorkerMessage h) msgs) s)
           = effects s @ added s (run x (map (WorkerMessage h) msgs) s)
       \<and> filter is_Send (added s (run x (map (WorkerMessage h) msgs) s))
           = replicate (length (filter isWorkerReady msgs)) (Send h (w_options (workers s ! h)))
       \<and> count_list (added s (run x (map (WorkerMessage h) msgs) s)) (Resolve h)
           = (if list_ex isServerReady msgs then 1 else 0)
       \<and> (\<not> list_ex isServerReady pre \<and> isServerReady m \<longrightarrow>
            count_list (added s (run x (map (WorkerMessage h) pre) s)) (Resolve h) = 0
            \<and> count_list (added s (run x (map (WorkerMessage h) (pre @ [m])) s)) (Resolve h) = 1
            \<and> count_list (added s (run x (map (WorkerMessage h) (pre @ m # post)) s)) (Resolve h) = 1)
       \<and> filter noise (added s (run x (map (WorkerMessage h) msgs) s)) = []
       \<and> exited (run x (map (WorkerMessage h) msgs) s) = None
       \<and> (\<not> isWorkerReady u \<and> \<not> isServerReady u \<longrightarrow> on_message h u s = s)"
proof -
  have r: "effects (run x (map (WorkerMessage h) ms) s)
           = effects s @ added s (run x (map (WorkerMessage h) ms) s)
       \<and> filter is_Send (added s (run x (map (WorkerMessage h) ms) s))
           = replicate (length (filter isWorkerReady ms)) (Send h (w_options (workers s ! h)))
       \<and> count_list (added s (run x (map (WorkerMessage h) ms) s)) (Resolve h)
           = (if list_ex isServerReady ms then 1 else 0)
       \<and> filter noise (added s (run x (map (WorkerMessage h) ms) s)) = []
       \<and> exited (run x (map (WorkerMessage h) ms) s) = None" for ms
  proof -
    from messages_run [OF assms(1,3,4), of x ms] obtain t where
      t: "effects (run x (map (WorkerMessage h) ms) s) = effects s @ t"
        "filter is_Send t
           = replicate (length (filter isWorkerReady ms)) (Send h (w_options (workers s ! h)))"
        "count_list t (Resolve h)
           = (if \<not> resolved (workers s ! h) \<and> list_ex isServerReady ms then 1 else 0)"
        "filter noise t = []"
        "exited (run x (map (WorkerMessage h) ms) s) = None"
      by blast
    have "added s (run x (map (WorkerMessage h) ms) s) = t" using t(1) by (simp add: added_def)
    then show ?thesis using t assms(2) by simp
  qed
  have first: "count_list (added s (run x (map (WorkerMessage h) pre) s)) (Resolve h) = 0
            \<and> count_list (added s (run x (map (WorkerMessage h) (pre @ [m])) s)) (Resolve h) = 1
            \<and> count_list (added s (run x (map (WorkerMessage h) (pre @ m # post)) s)) (Resolve h) = 1"
    if "\<not> list_ex isServerReady pre" "isServerReady m"
    using r [of pre] r [of "pre @ [m]"] r [of "pre @ m # post"] that by simp
  have other: "on_message h u s = s" if "\<not> isWorkerReady u" "\<not> isServerReady u"
    using that by (rule on_message_other)
  show ?thesis using r [of msgs] first other by blast
qed

theorem handshake_resolves_once_witness:
  "0 < length (workers serving) \<and> \<not> resolved (workers serving ! 0) \<and> child serving = Some 0
   \<and> exited serving = None
   \<and> filter is_Send (added serving (run demo_ext (map (WorkerMessage 0) demo_messages) serving))
       = [Send 0 demo_options, Send 0 demo_options]
   \<and> count_list (added serving (run demo_ext (map (WorkerMessage 0) demo_messages) serving))
        (Resolve 0) = 1
   \<and> \<not> list_ex isServerReady [JStr ''hello'', ready_msg, JNull] \<and> isServerReady server_ready_msg
   \<and> count_list (added serving
        (run demo_ext (map (WorkerMessage 0) [JStr ''hello'', ready_msg, JNull]) serving))
        (Resolve 0) = 0
   \<and> count_list (added serving
        (run demo_ext (map (WorkerMessage 0) ([JStr ''hello'', ready_msg, JNull] @ [server_ready_msg]))
           serving)) (Resolve 0) = 1
   \<and> \<not> isWorkerReady JNull \<and> \<not> isServerReady JNull \<and> on_message 0 JNull serving = serving"
proof -
  have g: "0 < length (workers serving)" "\<not> resolved (workers serving ! 0)"
    "child serving = Some 0" "exited serving = None" "w_options (workers serving ! 0) = demo_options"
    by (simp_all add: serving_def)
  have c: "length (filter isWorkerReady demo_messages) = 2" "list_ex isServerReady demo_messages"
    "\<not> list_ex isServerReady [JStr ''hello'', ready_msg, JNull]" "isServerReady server_ready_msg"
    "\<not> isWorkerReady JNull" "\<not> isServerReady JNull"
    by (simp_all add: demo_messages_def msg_defs)
  note a = handshake_resolves_once [OF g(1,2,3,4), of demo_ext demo_messages
      "[JStr ''hello'', ready_msg, JNull]" server_ready_msg "[]" JNull]
  have s: "filter is_Send (added serving (run demo_ext (map (WorkerMessage 0) demo_messages) serving))
       = [Send 0 demo_options, Send 0 demo_options]"
    using a c(1) g(5) by (simp add: numeral_2_eq_2)
  show ?thesis using g(1,2,3,4) c s a by simp
qed

text \<open>
  C5, as the code has it. There is no check of the handle's identity. After a restart
  (the tracked handle is another one than the old closure's), a late \<^verbatim>\<open>ready\<close> on the old
  channel is not ignored: the options of the old closure are sent to the tracked handle,
  the new worker. A late \<^verbatim>\<open>serverReady\<close> on the old channel sends nothing and resolves at
  most the old closure's own promise; it never resolves the new generation's promise nor
  touches its closure. A message of another shape is ignored.
\<close>

theorem late_messages_after_restart:
  assumes "h_old < length (workers s)" and "child s = Some h_new" and "h_new \<noteq> h_old"
  shows "(isWorkerReady m \<longrightarrow>
            on_message h_old m s = emit (Send h_new (w_options (workers s ! h_old))) s)
       \<and> (isServerReady m \<longrightarrow>
            added s (on_message h_old m s)
              = (if resolved (workers s ! h_old) then [] else [Resolve h_old])
            \<and> filter is_Send (added s (on_message h_old m s)) = []
            \<and> count_list (added s (on_message h_old m s)) (Resolve h_new) = 0
            \<and> workers (on_message h_old m s) ! h_new = workers s ! h_new)
       \<and> (\<not> isWorkerReady m \<and> \<not> isServerReady m \<longrightarrow> on_message h_old m s = s)"
proof -
  have a: "on_message h_old m s = emit (Send h_new (w_options (workers s ! h_old))) s"
    if "isWorkerReady m"
    using on_message_ready [OF assms(1) that assms(2)] .
  have b: "added s (on_message h_old m s)
              = (if resolved (workers s ! h_old) then [] else [Resolve h_old])
            \<and> filter is_Send (added s (on_message h_old m s)) = []
            \<and> count_list (added s (on_message h_old m s)) (Resolve h_new) = 0
            \<and> workers (on_message h_old m s) ! h_new = workers s ! h_new"
    if "isServerReady m"
    using on_message_serverReady [OF assms(1) that] assms(3)
    by (simp add: added_def emit_def)
  have c: "on_message h_old m s = s" if "\<not> isWorkerReady m" "\<not> isServerReady m"
    using that by (rule on_message_other)
  show ?thesis using a b c by blast
qed

theorem late_messages_after_restart_witness:
  "0 < length (workers restarted) \<and> child restarted = Some 1 \<and> (1::nat) \<noteq> 0
   \<and> isWorkerReady ready_msg \<and> isServerReady server_ready_msg
   \<and> on_message 0 ready_msg restarted = emit (Send 1 (w_options (workers restarted ! 0))) restarted
   \<and> added restarted (on_message 0 server_ready_msg restarted)
       = (if resolved (workers restarted ! 0) then [] else [Resolve 0])
   \<and> workers (on_message 0 server_ready_msg restarted) ! 1 = workers restarted ! 1"
proof -
  have g: "0 < length (workers restarted)" "child restarted = Some 1" "(1::nat) \<noteq> 0"
    by (simp_all add: restarted_def serving_def)
  have c: "isWorkerReady ready_msg" "isServerReady server_ready_msg"
    by (simp_all add: msg_defs)
  note a = late_messages_after_restart [OF g, of ready_msg]
  note b = late_messages_after_restart [OF g, of server_ready_msg]
  show ?thesis using g c a b by blast
qed

text \<open>
  The claim C5 as stated fails: in the session reached by a launch and a restart of worker
  0, a late \<^verbatim>\<open>ready\<close> on the channel of worker 0 makes the supervisor send the options to
  worker 1.
\<close>

theorem late_ready_is_delivered:
  "run demo_ext (demo_launch @ [WorkerExit 0 (Some 77) None demo_env]) (init_session 1000 [])
     = restarted
   \<and> child restarted = Some 1
   \<and> effects (step demo_ext (WorkerMessage 0 ready_msg) restarted)
       = effects restarted @ [Send 1 demo_options]"
proof -
  have "effects (step demo_ext (WorkerMessage 0 ready_msg) restarted)
       = effects restarted @ [Send 1 demo_options]"
    by (simp add: step_def on_message_def nextDev_ready_def emit_def restarted_def serving_def
        ready_msg_def nextWorkerReady_def Let_def)
  moreover have "child restarted = Some 1" by (simp add: restarted_def)
  ultimately show ?thesis using restarted_reached by simp
qed

lemma handleSessionStop_falsy_signal:
  "\<not> truthy_str signal \<Longrightarrow> handleSessionStop env signal s = handleSessionStop env None s"
proof -
  assume "\<not> truthy_str signal"
  then have "kill_arg_of signal = kill_arg_of None"
    by (cases signal) (simp_all add: kill_arg_of_def)
  then have "forward_kill signal s = forward_kill None s"
    by (simp only: forward_kill_def)
  then show ?thesis by (simp add: handleSessionStop_def)
qed

lemma startServer_eq:
  "startServer opts s
     = s\<lparr>child := Some (length (workers s)),
         workers := workers s @ [\<lparr>w_options = opts, resolved = False\<rparr>],
         effects := effects s @ [Fork (length (workers s)) (map_of (penv s) env_TURBOPACK)]\<rparr>"
  by (simp add: startServer_def emit_def Let_def)

text \<open>
  C2. The exit handler of a worker closure applies these rules in this order. If the flag
  is set or the worker died of a signal, the state is left as it is. Otherwise, if the exit
  code is the restart code, \<^verbatim>\<open>startServer\<close> is called with the closure's options: exactly
  one \<^verbatim>\<open>fork\<close>, the new handle becomes the tracked one, and the new closure holds the same
  options, which in every reachable state are those of the first spawn. Otherwise the
  coordinator is invoked, and what it does is what it does for the signal \<^verbatim>\<open>null\<close>.
\<close>

theorem exit_handler_rules:
  assumes "h < length (workers s)"
  shows "(sessionStopHandled s \<or> truthy_str signal \<longrightarrow> on_exit x env h code signal s = s)
       \<and> (\<not> sessionStopHandled s \<and> \<not> truthy_str signal \<and> code = Some (RESTART_EXIT_CODE x) \<longrightarrow>
            on_exit x env h code signal s = startServer (w_options (workers s ! h)) s
            \<and> added s (on_exit x env h code signal s)
                = [Fork (length (workers s)) (map_of (penv s) env_TURBOPACK)]
            \<and> child (on_exit x env h code signal s) = Some (length (workers s))
            \<and> workers (on_exit x env h code signal s)
                = workers s @ [\<lparr>w_options = w_options (workers s ! h), resolved = False\<rparr>]
            \<and> sessionStopHandled (on_exit x env h code signal s) = sessionStopHandled s
            \<and> exited (on_exit x env h code signal s) = exited s)
       \<and> (\<not> sessionStopHandled s \<and> \<not> truthy_str signal \<and> code \<noteq> Some (RESTART_EXIT_CODE x) \<longrightarrow>
            on_exit x env h code signal s = handleSessionStop env None s)
       \<and> (s = run x evs (init_session t0 env0) \<longrightarrow>
            w_options (workers s ! h) = w_options (workers s ! 0))"
proof -
  have a: "on_exit x env h code signal s = s" if "sessionStopHandled s \<or> truthy_str signal"
    using that assms by (auto simp: on_exit_def)
  have b: "on_exit x env h code signal s = startServer (w_options (workers s ! h)) s"
    if "\<not> sessionStopHandled s" "\<not> truthy_str signal" "code = Some (RESTART_EXIT_CODE x)"
    using that assms by (simp add: on_exit_def)
  have b': "added s (startServer opts s) = [Fork (length (workers s)) (map_of (penv s) env_TURBOPACK)]
      \<and> child (startServer opts s) = Some (length (workers s))
      \<and> workers (startServer opts s) = workers s @ [\<lparr>w_options = opts, resolved = False\<rparr>]
      \<and> sessionStopHandled (startServer opts s) = sessionStopHandled s
      \<and> exited (startServer opts s) = exited s" for opts
    by (simp add: startServer_eq added_def)
  have c: "on_exit x env h code signal s = handleSessionStop env None s"
    if "\<not> sessionStopHandled s" "\<not> truthy_str signal" "code \<noteq> Some (RESTART_EXIT_CODE x)"
    using that assms handleSessionStop_falsy_signal [OF that(2), of env s]
    by (simp add: on_exit_def)
  have d: "w_options (workers s ! h) = w_options (workers s ! 0)"
    if "s = run x evs (init_session t0 env0)"
  proof -
    have "inv_launch s" unfolding that by (simp add: inv_launch_run inv_launch_init)
    then show ?thesis using assms by (simp add: inv_launch_def)
  qed
  show ?thesis using a b b' c d by simp
qed

theorem exit_handler_rules_witness:
  "0 < length (workers serving) \<and> \<not> sessionStopHandled serving \<and> \<not> truthy_str None
   \<and> on_exit demo_ext demo_env 0 (Some 77) None serving = restarted
   \<and> on_exit demo_ext demo_env 0 (Some 77) (Some ''SIGKILL'') serving = serving
   \<and> on_exit demo_ext demo_env 0 (Some 1) None serving = handleSessionStop demo_env None serving
   \<and> 1 < length (workers restarted)
   \<and> restarted = run demo_ext (demo_launch @ [WorkerExit 0 (Some 77) None demo_env])
         (init_session 1000 [])
   \<and> w_options (workers restarted ! 1) = w_options (workers restarted ! 0)"
proof -
  have g: "0 < length (workers serving)" "\<not> sessionStopHandled serving" "\<not> truthy_str None"
    "truthy_str (Some ''SIGKILL'')" "Some 77 = Some (RESTART_EXIT_CODE demo_ext)"
    "Some 1 \<noteq> Some (RESTART_EXIT_CODE demo_ext)"
    by (simp_all add: serving_def demo_ext_def)
  have r: "startServer (w_options (workers serving ! 0)) serving = restarted"
    by (simp add: startServer_eq restarted_def serving_def env_names)
  note a = exit_handler_rules [OF g(1), of None demo_ext demo_env "Some 77"]
  note b = exit_handler_rules [OF g(1), of "Some ''SIGKILL''" demo_ext demo_env "Some 77"]
  note c = exit_handler_rules [OF g(1), of None demo_ext demo_env "Some 1"]
  have 1: "on_exit demo_ext demo_env 0 (Some 77) None serving = restarted"
    using a g r by simp
  have 2: "on_exit demo_ext demo_env 0 (Some 77) (Some ''SIGKILL'') serving = serving"
    using b g by blast
  have 3: "on_exit demo_ext demo_env 0 (Some 1) None serving = handleSessionStop demo_env None serving"
    using c g by blast
  have k: "1 < length (workers restarted)" by (simp add: restarted_def)
  note d = exit_handler_rules [OF k, of None demo_ext demo_env None
      "demo_launch @ [WorkerExit 0 (Some 77) None demo_env]" 1000 "[]"]
  have 4: "w_options (workers restarted ! 1) = w_options (workers restarted ! 0)"
    using d restarted_reached by simp
  show ?thesis using g(1,2,3) 1 2 3 4 k restarted_reached by simp
qed

text \<open>
  C6. In every state reached after \<^verbatim>\<open>nextDev\<close> was invoked with \<open>args\<close> in the environment
  \<open>env0\<close>, the \<^verbatim>\<open>allowRetry\<close> of the options of every worker closure, and of every options
  object sent to a worker, is true exactly when \<^verbatim>\<open>--port\<close> and \<^verbatim>\<open>PORT\<close> are both absent.
\<close>

theorem retry_permission_rule:
  assumes "s = run x (Invoke args # evs) (init_session t0 env0)"
  shows "list_all (\<lambda>w. allowRetry (w_options w)
                      = (arg_port args = None \<and> map_of env0 env_PORT = None)) (workers s)
       \<and> list_all (\<lambda>opts. allowRetry opts
                      = (arg_port args = None \<and> map_of env0 env_PORT = None))
           (delivered (effects s))"
proof -
  let ?b = "arg_port args = None \<and> map_of env0 env_PORT = None"
  have r: "inv_retry ?b s"
    unfolding assms using inv_retry_run [OF inv_retry_invoke] by simp
  have l: "inv_launch s"
    unfolding assms by (rule inv_launch_run [OF inv_launch_init])
  have first: "allowRetry (w_options (workers s ! 0)) = ?b" if "workers s \<noteq> []"
    using r that by (simp add: inv_retry_def)
  have w: "allowRetry (w_options w) = ?b" if "w \<in> set (workers s)" for w
  proof -
    have "workers s \<noteq> []" using that by auto
    moreover have "w_options w = w_options (workers s ! 0)"
      using l that by (simp add: inv_launch_def)
    ultimately show ?thesis using first by simp
  qed
  have d: "allowRetry opts = ?b" if "opts \<in> set (delivered (effects s))" for opts
  proof -
    have "delivered (effects s) \<noteq> []" using that by auto
    then have "workers s \<noteq> []" using l by (auto simp: inv_launch_def)
    moreover have "opts = w_options (workers s ! 0)"
      using l that by (simp add: inv_launch_def)
    ultimately show ?thesis using first by simp
  qed
  show ?thesis using w d by (simp add: list_all_iff)
qed

theorem retry_permission_rule_witness:
  "allowRetry (w_options (hd (workers (run demo_ext (launch demo_args) (init_session 1000 [])))))
   \<and> \<not> allowRetry (w_options (hd (workers (run demo_ext (launch port_args) (init_session 1000 [])))))
   \<and> \<not> allowRetry (w_options (hd (workers (run demo_ext (launch demo_args) (init_session 1000 port_env)))))
   \<and> \<not> allowRetry (w_options (hd (workers (run demo_ext (launch port_args) (init_session 1000 port_env)))))"
proof -
  have v: "arg_port demo_args = None" "arg_port port_args \<noteq> None"
    "map_of [] env_PORT = None" "map_of port_env env_PORT \<noteq> None"
    by (simp_all add: demo_args_def port_args_def port_env_def)
  have t: "allowRetry (w_options (hd (workers (run demo_ext (launch a) (init_session 1000 e)))))
        = (arg_port a = None \<and> map_of e env_PORT = None)"
    if "workers (run demo_ext (launch a) (init_session 1000 e)) \<noteq> []" for a e
    using that retry_permission_rule [of "run demo_ext (launch a) (init_session 1000 e)" demo_ext a
        "[FileExistsSettled True, ConfigSettled (Inr (demo_config, None))]" 1000 e]
    by (cases "workers (run demo_ext (launch a) (init_session 1000 e))") (simp_all add: launch_def)
  show ?thesis
    using t [OF launch_workers(1)] t [OF launch_workers(2)] t [OF launch_workers(3)]
      t [OF launch_workers(4)] v
    by simp
qed

lemma coordinator_effect_no_fork: "list_all coordinator_effect t \<Longrightarrow> filter is_Fork t = []"
proof -
  have "\<not> is_Fork e" if "coordinator_effect e" for e using that by (cases e) simp_all
  then show "list_all coordinator_effect t \<Longrightarrow> filter is_Fork t = []"
    by (simp add: filter_empty_conv list_all_iff)
qed

lemma no_launch_step:
  assumes "no_launch p env0 s"
    and "(p = NotStarted \<and> \<not> is_Invoke e)
       \<or> (p = AwaitFileExists args \<and> isPortIsReserved x (getPort x args env0))"
  shows "no_launch p env0 (step x e s)"
proof (cases "exited s = None")
  case False
  then have "step x e s = s" by (auto simp: step_def)
  then show ?thesis using assms(1) by simp
next
  case True
  with assms(1) have p: "penv s = env0" "workers s = []" "child s = None"
    "traceUploadUrl s = None" "filter is_Fork (effects s) = []" "nextDevAt s = p"
    by (simp_all add: no_launch_def)
  from assms(2) have q: "p = NotStarted \<or> p = AwaitFileExists args" by blast
  have same: "no_launch p env0 s'" if "s' = s" for s' using that assms(1) by simp
  show ?thesis
  proof (cases e)
    case (Invoke a)
    then have "p = AwaitFileExists args" using assms(2) by auto
    then show ?thesis by (intro same) (simp add: Invoke step_def True p(6))
  next
    case (FileExistsSettled b)
    show ?thesis
    proof (cases "p = NotStarted")
      case n: True
      show ?thesis by (rule same) (simp add: FileExistsSettled step_def True p(6) n)
    next
      case False
      then have r: "p = AwaitFileExists args" "isPortIsReserved x (getPort x args env0)"
        using assms(2) by auto
      have "step x e s = nextDev_dirChecked x args b s"
        by (simp add: FileExistsSettled step_def True p(6) r(1))
      then show ?thesis using r(2) p(1-5)
        by (simp add: no_launch_def nextDev_dirChecked_def printAndExit_def process_exit_def
            emit_def)
    qed
  next
    case (ConfigSettled r)
    show ?thesis by (rule same) (use q in \<open>auto simp: ConfigSettled step_def True p(6)\<close>)
  next
    case (TurboSettled r)
    show ?thesis by (rule same) (use q in \<open>auto simp: TurboSettled step_def True p(6)\<close>)
  next
    case (CertificateSettled r)
    show ?thesis by (rule same) (use q in \<open>auto simp: CertificateSettled step_def True p(6)\<close>)
  next
    case (PreflightSettled r)
    show ?thesis by (rule same) (use q in \<open>auto simp: PreflightSettled step_def True p(6)\<close>)
  next
    case (Signal name env)
    show ?thesis
    proof (cases "name = ''SIGINT'' \<or> name = ''SIGTERM''")
      case False
      show ?thesis by (rule same) (use False in \<open>simp add: Signal step_def\<close>)
    next
      case t: True
      then have a: "step x e s = handleSessionStop env (Some name) s"
        by (simp add: Signal step_def True)
      from handleSessionStop_frame [of env "Some name" s]
      obtain b n t ex where f: "handleSessionStop env (Some name) s
          = s\<lparr>sessionStopHandled := b, stopAwaiting := n, effects := effects s @ t, exited := ex\<rparr>"
          "list_all coordinator_effect t" by blast
      show ?thesis unfolding a f(1) using p coordinator_effect_no_fork [OF f(2)]
        by (simp add: no_launch_def)
    qed
  next
    case (StopConfigSettled r env)
    show ?thesis
    proof (cases "0 < stopAwaiting s")
      case False
      show ?thesis by (rule same) (use False in \<open>simp add: StopConfigSettled step_def\<close>)
    next
      case t: True
      let ?s1 = "s\<lparr>stopAwaiting := stopAwaiting s - 1\<rparr>"
      have a: "step x e s = handleSessionStop_resume env r ?s1"
        using t by (simp add: StopConfigSettled step_def True)
      from handleSessionStop_resume_frame [of env r ?s1]
      obtain cfg t ex where f: "handleSessionStop_resume env r ?s1
          = ?s1\<lparr>config := cfg, effects := effects ?s1 @ t, exited := ex\<rparr>"
          "list_all coordinator_effect t" by blast
      show ?thesis unfolding a f(1) using p coordinator_effect_no_fork [OF f(2)]
        by (simp add: no_launch_def)
    qed
  next
    case (WorkerMessage h msg)
    show ?thesis
      by (rule same)
        (use q in \<open>auto simp: WorkerMessage step_def True on_message_def nextDev_ready_def p\<close>)
  next
    case (WorkerExit h code signal env)
    show ?thesis by (rule same) (simp add: WorkerExit step_def True on_exit_def p)
  qed
qed

lemma no_launch_before:
  assumes "filter is_Invoke pre = []" and "no_launch NotStarted env0 s"
  shows "no_launch NotStarted env0 (run x pre s)"
  using assms
proof (induction pre arbitrary: s)
  case Nil
  then show ?case by simp
next
  case (Cons e pre)
  from Cons.prems(1) have n: "\<not> is_Invoke e" "filter is_Invoke pre = []"
    by (simp_all split: if_splits)
  have "no_launch NotStarted env0 (step x e s)"
    by (rule no_launch_step [OF Cons.prems(2)]) (simp add: n(1))
  from Cons.IH [OF n(2) this] show ?case by simp
qed

lemma no_launch_after:
  assumes "isPortIsReserved x (getPort x args env0)"
    and "no_launch (AwaitFileExists args) env0 s"
  shows "no_launch (AwaitFileExists args) env0 (run x evs s)"
  using assms(2)
proof (induction evs arbitrary: s)
  case Nil
  then show ?case by simp
next
  case (Cons e evs)
  have "no_launch (AwaitFileExists args) env0 (step x e s)"
    by (rule no_launch_step [OF Cons.prems, where args = args]) (simp add: assms(1))
  from Cons.IH [OF this] show ?case by simp
qed

lemma no_launch_start:
  assumes "\<not> arg_help args" and "no_launch NotStarted env0 s"
  shows "no_launch (AwaitFileExists args) env0 (step x (Invoke args) s)"
proof (cases "exited s = None")
  case False
  then have "step x (Invoke args) s = s" by (auto simp: step_def)
  then show ?thesis using assms(2) False by (auto simp: no_launch_def)
next
  case True
  then show ?thesis using assms
    by (simp add: no_launch_def step_def nextDev_start_def Let_def)
qed

text \<open>
  C7, as the code has it. Take a call of \<^verbatim>\<open>nextDev\<close> without \<^verbatim>\<open>--help\<close> whose port, as
  \<^verbatim>\<open>getPort\<close> gives it for the arguments and the environment, is on the reserved list.
  Whatever events come before and after the call, in any order, no worker is forked and no
  handle is tracked. As long as the process runs after the call, \<^verbatim>\<open>nextDev\<close> is waiting for
  the check of the project directory; when that check reports that the directory exists,
  that turn prints the explanation for the port and exits with status 1, whatever the
  other flags are.
\<close>

theorem reserved_port_exits:
  assumes "\<not> arg_help args" and "isPortIsReserved x (getPort x args env0)"
    and "filter is_Invoke pre = []"
    and "s = run x (pre @ Invoke args # evs) (init_session t0 env0)"
  shows "workers s = [] \<and> child s = None \<and> filter is_Fork (effects s) = []
       \<and> (exited s = None \<longrightarrow>
            nextDevAt s = AwaitFileExists args
            \<and> effects (step x (FileExistsSettled True) s)
                = effects s @ [PrintMessage (getReservedPortExplanation x (getPort x args env0)),
                               ProcessExit 1]
            \<and> exited (step x (FileExistsSettled True) s) = Some 1)"
proof -
  have "no_launch NotStarted env0 (init_session t0 env0)"
    by (simp add: no_launch_def init_session_def)
  from no_launch_start [OF assms(1) no_launch_before [OF assms(3) this]]
  have "no_launch (AwaitFileExists args) env0
          (step x (Invoke args) (run x pre (init_session t0 env0)))" .
  from no_launch_after [OF assms(2) this]
  have a: "no_launch (AwaitFileExists args) env0 s"
    unfolding assms(4) run_append by simp
  then have p: "penv s = env0" "workers s = []" "child s = None"
    "filter is_Fork (effects s) = []" "exited s = None \<longrightarrow> nextDevAt s = AwaitFileExists args"
    by (simp_all add: no_launch_def)
  have "effects (step x (FileExistsSettled True) s)
                = effects s @ [PrintMessage (getReservedPortExplanation x (getPort x args env0)),
                               ProcessExit 1]
            \<and> exited (step x (FileExistsSettled True) s) = Some 1"
    if "exited s = None"
    using that p(1,5) assms(2)
    by (simp add: step_def nextDev_dirChecked_def printAndExit_def process_exit_def emit_def)
  then show ?thesis using p by blast
qed

theorem reserved_port_exits_witness:
  "\<not> arg_help reserved_args \<and> isPortIsReserved demo_ext (getPort demo_ext reserved_args [])
   \<and> filter is_Invoke [Signal ''SIGTERM'' demo_env] = []
   \<and> exited (run demo_ext ([Signal ''SIGTERM'' demo_env]
         @ Invoke reserved_args # [Signal ''SIGINT'' demo_env]) (init_session 1000 [])) = None
   \<and> nextDevAt (run demo_ext ([Signal ''SIGTERM'' demo_env]
         @ Invoke reserved_args # [Signal ''SIGINT'' demo_env]) (init_session 1000 []))
       = AwaitFileExists reserved_args
   \<and> effects (step demo_ext (FileExistsSettled True)
         (run demo_ext ([Signal ''SIGTERM'' demo_env]
            @ Invoke reserved_args # [Signal ''SIGINT'' demo_env]) (init_session 1000 [])))
       = [LoadConfig None, PrintMessage ''x11'', ProcessExit 1]
   \<and> exited (step demo_ext (FileExistsSettled True)
         (run demo_ext ([Signal ''SIGTERM'' demo_env]
            @ Invoke reserved_args # [Signal ''SIGINT'' demo_env]) (init_session 1000 [])))
       = Some 1
   \<and> effects (run demo_ext ([] @ Invoke reserved_args
         # [FileExistsSettled True, ConfigSettled (Inr (demo_config, None)),
            Signal ''SIGINT'' demo_env]) (init_session 1000 []))
       = [PrintMessage ''x11'', ProcessExit 1]
   \<and> workers (run demo_ext ([] @ Invoke reserved_args
         # [FileExistsSettled True, ConfigSettled (Inr (demo_config, None)),
            Signal ''SIGINT'' demo_env]) (init_session 1000 [])) = []"
proof -
  let ?s = "run demo_ext ([Signal ''SIGTERM'' demo_env]
              @ Invoke reserved_args # [Signal ''SIGINT'' demo_env]) (init_session 1000 [])"
  let ?t = "run demo_ext ([] @ Invoke reserved_args
              # [FileExistsSettled True, ConfigSettled (Inr (demo_config, None)),
                 Signal ''SIGINT'' demo_env]) (init_session 1000 [])"
  have g: "\<not> arg_help reserved_args" "isPortIsReserved demo_ext (getPort demo_ext reserved_args [])"
    "getReservedPortExplanation demo_ext (getPort demo_ext reserved_args []) = ''x11''"
    by (simp_all add: reserved_args_def demo_args_def demo_ext_def)
  have i: "filter is_Invoke [Signal ''SIGTERM'' demo_env] = []" "filter is_Invoke [] = []"
    by simp_all
  have l: "exited ?s = None" "effects ?s = [LoadConfig None]"
    by (simp_all add: reserved_args_def demo_args_def demo_ext_def demo_env_def
        init_session_def step_def nextDev_start_def emit_def handleSessionStop_def
        forward_kill_def env_names Let_def)
  have e: "effects ?t = [PrintMessage ''x11'', ProcessExit 1]"
    by (simp add: reserved_args_def demo_args_def demo_ext_def init_session_def step_def
        nextDev_start_def nextDev_dirChecked_def printAndExit_def process_exit_def emit_def
        env_names Let_def)
  note a = reserved_port_exits [OF g(1,2) i(1) refl, of "[Signal ''SIGINT'' demo_env]" 1000]
  note b = reserved_port_exits [OF g(1,2) i(2) refl,
      of "[FileExistsSettled True, ConfigSettled (Inr (demo_config, None)),
           Signal ''SIGINT'' demo_env]" 1000]
  have c: "nextDevAt ?s = AwaitFileExists reserved_args"
    "effects (step demo_ext (FileExistsSettled True) ?s)
       = [LoadConfig None, PrintMessage ''x11'', ProcessExit 1]"
    "exited (step demo_ext (FileExistsSettled True) ?s) = Some 1"
    using a l g(3) by simp_all
  have d: "workers ?t = []" using b by blast
  show ?thesis using g(1,2) i(1) l(1) c e d by blast
qed

text \<open>
  The claim C7 as stated fails: with \<^verbatim>\<open>--help\<close> and the reserved port 6000, the process
  prints the usage text and exits with status 0; the explanation is not printed.
\<close>

theorem reserved_port_with_help:
  "arg_help help_reserved_args
   \<and> isPortIsReserved demo_ext (getPort demo_ext help_reserved_args [])
   \<and> effects (run demo_ext [Invoke help_reserved_args, FileExistsSettled True]
         (init_session 1000 [])) = [ConsoleLogHelp, ProcessExit 0]
   \<and> exited (run demo_ext [Invoke help_reserved_args, FileExistsSettled True]
         (init_session 1000 [])) = Some 0"
  by (simp add: help_reserved_args_def demo_args_def demo_ext_def step_def nextDev_start_def
      process_exit_def emit_def init_session_def)

text \<open>
  Nor is the explanation printed when a shutdown ends the process during the directory
  check: after \<^verbatim>\<open>SIGINT\<close>, once the \<^verbatim>\<open>loadConfig\<close> of the coordinator has settled, the
  process has exited with status 0 and the directory check comes too late.
\<close>

lemma reserved_port_interrupted:
  "exited (run demo_ext [Invoke reserved_args, Signal ''SIGINT'' demo_env,
        StopConfigSettled (Inr demo_config) demo_env, FileExistsSettled True]
        (init_session 1000 [])) = Some 0
   \<and> filter noise (effects (run demo_ext [Invoke reserved_args, Signal ''SIGINT'' demo_env,
        StopConfigSettled (Inr demo_config) demo_env, FileExistsSettled True]
        (init_session 1000 []))) = []"
  by (simp add: reserved_args_def demo_args_def demo_ext_def demo_env_def demo_config_def
      init_session_def step_def nextDev_start_def nextDev_dirChecked_def printAndExit_def
      process_exit_def emit_def handleSessionStop_def forward_kill_def env_names
      handleSessionStop_resume_def stop_telemetry_def stop_record_def stop_upload_def
      stop_exit_def Let_def)

text \<open>
  C8. With \<^verbatim>\<open>--experimental-https\<close>: if a key file and a certificate file are both given,
  \<^verbatim>\<open>startServer\<close> is called with the two paths resolved and no certificate is generated;
  otherwise \<^verbatim>\<open>createSelfSignedCertificate\<close> is called once with the hostname of the options,
  no worker is forked before it settles, and what it returns is attached to the options of
  the first \<^verbatim>\<open>startServer\<close> call. In every reachable state a certificate has been generated
  at most once, and whatever events follow, a restart included, their number does not
  change once it is one; every worker closure holds the options of the first one and every
  delivery to a worker carries them, the certificate included; the restart itself forks with
  the options of the exited closure and generates nothing.
\<close>

theorem https_certificate_once:
  assumes "s = run x evs (init_session t0 env0)"
  shows "(arg_https args \<and> arg_https_key args = Some k \<and> k \<noteq> []
            \<and> arg_https_cert args = Some c \<and> c \<noteq> [] \<longrightarrow>
            runDevServer x args opts s1
              = (startServer
                   (opts\<lparr>selfSignedCertificate :=
                           Some \<lparr>key = path_resolve x k, cert = path_resolve x c\<rparr>\<rparr>)
                   (emit (LogWarn https_warning) s1))
                  \<lparr>nextDevAt := AwaitServerReady (length (workers s1))\<rparr>
            \<and> certificates (runDevServer x args opts s1) = certificates s1)
       \<and> (arg_https args \<and> \<not> (truthy_str (arg_https_key args) \<and> truthy_str (arg_https_cert args)) \<longrightarrow>
            added s1 (runDevServer x args opts s1)
              = [LogWarn https_warning, CreateSelfSignedCertificate (arg_hostname args)]
            \<and> workers (runDevServer x args opts s1) = workers s1
            \<and> nextDevAt (runDevServer x args opts s1) = AwaitCertificate opts)
       \<and> hostname (devServerOptions args d port allow files features) = arg_hostname args
       \<and> nextDev_certificate opts (Inr crt) s1
            = (startServer (opts\<lparr>selfSignedCertificate := crt\<rparr>) s1)
                \<lparr>nextDevAt := AwaitServerReady (length (workers s1))\<rparr>
       \<and> certificates s \<le> 1
       \<and> certificates s \<le> certificates (run x evs' s)
       \<and> certificates (run x evs' s) \<le> 1
       \<and> list_all (\<lambda>w. w_options w = w_options (workers s ! 0)) (workers s)
       \<and> list_all (\<lambda>opts. opts = w_options (workers s ! 0)) (delivered (effects s))
       \<and> (h < length (workers s) \<and> \<not> sessionStopHandled s \<and> exited s = None \<longrightarrow>
            workers (step x (WorkerExit h (Some (RESTART_EXIT_CODE x)) None env) s)
              = workers s @ [\<lparr>w_options = w_options (workers s ! 0), resolved = False\<rparr>]
            \<and> certificates (step x (WorkerExit h (Some (RESTART_EXIT_CODE x)) None env) s)
              = certificates s)"
proof -
  have a: "runDevServer x args opts s1
              = (startServer
                   (opts\<lparr>selfSignedCertificate :=
                           Some \<lparr>key = path_resolve x k, cert = path_resolve x c\<rparr>\<rparr>)
                   (emit (LogWarn https_warning) s1))
                  \<lparr>nextDevAt := AwaitServerReady (length (workers s1))\<rparr>
            \<and> certificates (runDevServer x args opts s1) = certificates s1"
    if "arg_https args" "arg_https_key args = Some k" "k \<noteq> []"
      "arg_https_cert args = Some c" "c \<noteq> []"
    using that by (simp add: runDevServer_def Let_def startServer_eq emit_def certificates_def)
  have b: "added s1 (runDevServer x args opts s1)
              = [LogWarn https_warning, CreateSelfSignedCertificate (arg_hostname args)]
            \<and> workers (runDevServer x args opts s1) = workers s1
            \<and> nextDevAt (runDevServer x args opts s1) = AwaitCertificate opts"
    if "arg_https args" "\<not> (truthy_str (arg_https_key args) \<and> truthy_str (arg_https_cert args))"
  proof -
    have "runDevServer x args opts s1
        = (emit (CreateSelfSignedCertificate (arg_hostname args)) (emit (LogWarn https_warning) s1))
            \<lparr>nextDevAt := AwaitCertificate opts\<rparr>"
      unfolding runDevServer_def Let_def if_P [OF that(1)] if_not_P [OF that(2)]
      by (rule refl)
    then show ?thesis by (simp add: emit_def added_def)
  qed
  have c: "hostname (devServerOptions args d port allow files features) = arg_hostname args"
    by (simp add: devServerOptions_def)
  have d: "nextDev_certificate opts (Inr crt) s1
            = (startServer (opts\<lparr>selfSignedCertificate := crt\<rparr>) s1)
                \<lparr>nextDevAt := AwaitServerReady (length (workers s1))\<rparr>"
    by (simp add: nextDev_certificate_def)
  have l: "inv_launch s"
    unfolding assms by (rule inv_launch_run [OF inv_launch_init])
  have l': "inv_launch (run x evs' s)" using l by (rule inv_launch_run)
  have e: "certificates s \<le> 1" "certificates (run x evs' s) \<le> 1"
    using l l' by (simp_all add: inv_launch_def)
  have f: "certificates s \<le> certificates (run x evs' s)"
    using certificates_mono [OF extends_run] .
  have g: "list_all (\<lambda>w. w_options w = w_options (workers s ! 0)) (workers s)"
    "list_all (\<lambda>opts. opts = w_options (workers s ! 0)) (delivered (effects s))"
    using l by (simp_all add: inv_launch_def list_all_iff)
  have r: "workers (step x (WorkerExit h (Some (RESTART_EXIT_CODE x)) None env) s)
              = workers s @ [\<lparr>w_options = w_options (workers s ! 0), resolved = False\<rparr>]
            \<and> certificates (step x (WorkerExit h (Some (RESTART_EXIT_CODE x)) None env) s)
              = certificates s"
    if "h < length (workers s)" "\<not> sessionStopHandled s" "exited s = None"
  proof -
    have "w_options (workers s ! h) = w_options (workers s ! 0)"
      using l that(1) by (simp add: inv_launch_def)
    then show ?thesis
      using that by (simp add: step_def on_exit_def startServer_eq certificates_def)
  qed
  show ?thesis using a b c d e f g r by blast
qed

theorem https_certificate_once_witness:
  "arg_https https_args
   \<and> \<not> (truthy_str (arg_https_key https_args) \<and> truthy_str (arg_https_cert https_args))
   \<and> added dir_check (runDevServer demo_ext https_args demo_options dir_check)
       = [LogWarn https_warning, CreateSelfSignedCertificate (Some ''localhost'')]
   \<and> workers (runDevServer demo_ext https_args demo_options dir_check) = workers dir_check
   \<and> arg_https https_file_args \<and> arg_https_key https_file_args = Some ''key.pem''
   \<and> arg_https_cert https_file_args = Some ''cert.pem''
   \<and> certificates (runDevServer demo_ext https_file_args demo_options dir_check)
       = certificates dir_check
   \<and> certificates (run demo_ext https_session (init_session 1000 [])) = 1
   \<and> delivered (effects (run demo_ext https_session (init_session 1000 [])))
       = [w_options (workers (run demo_ext https_session (init_session 1000 [])) ! 0),
          w_options (workers (run demo_ext https_session (init_session 1000 [])) ! 0)]
   \<and> selfSignedCertificate
         (w_options (workers (run demo_ext https_session (init_session 1000 [])) ! 0))
       = Some demo_certificate"
proof -
  have g: "arg_https https_args"
    "\<not> (truthy_str (arg_https_key https_args) \<and> truthy_str (arg_https_cert https_args))"
    "arg_hostname https_args = Some ''localhost''"
    "arg_https https_file_args" "arg_https_key https_file_args = Some ''key.pem''"
    "arg_https_cert https_file_args = Some ''cert.pem''" "''key.pem'' \<noteq> []" "''cert.pem'' \<noteq> []"
    by (simp_all add: https_args_def https_file_args_def demo_args_def)
  note a = https_certificate_once [OF refl, where x = demo_ext and evs = https_session
      and ?t0.0 = 1000 and ?env0.0 = "[]" and args = https_args and opts = demo_options
      and ?s1.0 = dir_check]
  note b = https_certificate_once [OF refl, where x = demo_ext and evs = https_session
      and ?t0.0 = 1000 and ?env0.0 = "[]" and args = https_file_args and opts = demo_options
      and ?s1.0 = dir_check and k = "''key.pem''" and c = "''cert.pem''"]
  let ?S = "run demo_ext https_session (init_session 1000 [])"
  have 1: "added dir_check (runDevServer demo_ext https_args demo_options dir_check)
       = [LogWarn https_warning, CreateSelfSignedCertificate (Some ''localhost'')]"
    "workers (runDevServer demo_ext https_args demo_options dir_check) = workers dir_check"
    using a g(1,2,3) by simp_all
  have 2: "certificates (runDevServer demo_ext https_file_args demo_options dir_check)
       = certificates dir_check"
    using b g(4-8) by blast
  have "list_all (\<lambda>opts. opts = w_options (workers ?S ! 0)) (delivered (effects ?S))"
    using a by blast
  then have 3: "(devServerOptions https_args (Some ''/app'') 3000 True [] [])
          \<lparr>selfSignedCertificate := Some demo_certificate\<rparr> = w_options (workers ?S ! 0)"
    unfolding https_session_delivered(1) by simp
  have 4: "delivered (effects ?S) = [w_options (workers ?S ! 0), w_options (workers ?S ! 0)]"
    unfolding https_session_delivered(1) 3 ..
  have 5: "selfSignedCertificate (w_options (workers ?S ! 0)) = Some demo_certificate"
    unfolding 3 [symmetric] by simp
  show ?thesis using g(1,2,4,5,6) 1 2 4 5 https_session_delivered(2) by blast
qed

text \<open>
  C10. While a worker handle exists, every invocation of \<^verbatim>\<open>handleSessionStop\<close> calls
  \<^verbatim>\<open>child.kill\<close> exactly once, first of all: with the signal's name when the argument is a
  signal name (a non-empty string, as \<^verbatim>\<open>'SIGINT'\<close> and \<^verbatim>\<open>'SIGTERM'\<close> of lines 104-105), and
  with the number 0, not a default signal, when the argument is \<^verbatim>\<open>null\<close>.
\<close>

theorem handleSessionStop_kill_argument:
  assumes "child s = Some h"
  shows "(\<forall>name. name \<noteq> [] \<longrightarrow>
            (\<exists>rest. effects (handleSessionStop env (Some name) s)
                       = effects s @ Kill h (KillSignal name) # rest
                     \<and> filter is_Kill rest = []))
       \<and> (\<exists>rest. effects (handleSessionStop env None s)
                    = effects s @ Kill h (KillNumber 0) # rest
                  \<and> filter is_Kill rest = [])"
proof -
  have k1: "kill_trace (Some name) s = [Kill h (KillSignal name)]" if "name \<noteq> []" for name
    using assms that by (simp add: kill_trace_def kill_arg_of_def)
  have k2: "kill_trace None s = [Kill h (KillNumber 0)]"
    using assms by (simp add: kill_trace_def kill_arg_of_def)
  have "\<exists>rest. effects (handleSessionStop env (Some name) s)
                       = effects s @ Kill h (KillSignal name) # rest
                     \<and> filter is_Kill rest = []" if "name \<noteq> []" for name
    using handleSessionStop_effects [of env "Some name" s] k1 [OF that] by simp
  moreover have "\<exists>rest. effects (handleSessionStop env None s)
                    = effects s @ Kill h (KillNumber 0) # rest
                  \<and> filter is_Kill rest = []"
    using handleSessionStop_effects [of env None s] k2 by simp
  ultimately show ?thesis by blast
qed

theorem handleSessionStop_kill_argument_witness:
  "child serving = Some 0
   \<and> (\<exists>rest. effects (handleSessionStop demo_env (Some ''SIGINT'') serving)
                = effects serving @ Kill 0 (KillSignal ''SIGINT'') # rest
              \<and> filter is_Kill rest = [])
   \<and> (\<exists>rest. effects (handleSessionStop demo_env None serving)
                = effects serving @ Kill 0 (KillNumber 0) # rest
              \<and> filter is_Kill rest = [])"
proof -
  have c: "child serving = Some 0" by (simp add: serving_def)
  show ?thesis using c handleSessionStop_kill_argument [OF c, of demo_env] by simp
qed

end
